(* ===== verification/Prelude.thy ===== *)
theory Prelude
  imports Main "HOL-Library.AList" "HOL-Library.Word"
begin

text \<open>
  Shared vocabulary of the development: the named collection of evaluation
  equations used to run the model on the concrete table of
  \<open>src/packages/demo/src/sample-code.ts\<close>, the types that name the model's
  data, the line-joining that turns the source's multi-line text into one
  string, and generic lemmas on association lists and characters that the
  component theories share.
\<close>

named_theorems js_eval "equations that evaluate the object model on concrete literals"

type_synonym label = string

abbreviation lf_char :: char where
  "lf_char \<equiv> CHR 0x0A"

abbreviation cr_char :: char where
  "cr_char \<equiv> CHR 0x0D"

text \<open>
  A multi-line piece of source text is the list of its lines joined by line
  feeds: the first element is what follows the opening delimiter on its own
  line, the last is what precedes the closing delimiter.
\<close>

fun join_lines :: "string list \<Rightarrow> string" where
  "join_lines [] = []"
| "join_lines [l] = l"
| "join_lines (l # m # ls) = l @ lf_char # join_lines (m # ls)"

definition printable_ascii :: "char \<Rightarrow> bool" where
  "printable_ascii c \<longleftrightarrow> (32::nat) \<le> of_char c \<and> of_char c < (127::nat)"

definition text_char :: "char \<Rightarrow> bool" where
  "text_char c \<longleftrightarrow> printable_ascii c \<or> c = lf_char"

subsection \<open>Lemmas on joined lines\<close>

lemma set_join_lines: "set (join_lines ls) \<subseteq> \<Union> (set ` set ls) \<union> {lf_char}"
  by (induction ls rule: join_lines.induct) auto

lemma join_lines_list_all:
  "list_all (list_all P) ls \<Longrightarrow> P lf_char \<Longrightarrow> list_all P (join_lines ls)"
  by (induction ls rule: join_lines.induct) auto

lemma join_lines_snoc: "ls \<noteq> [] \<Longrightarrow> join_lines (ls @ [z]) = join_lines ls @ lf_char # z"
  by (induction ls rule: join_lines.induct) auto

lemma join_lines_frame:
  "ls \<noteq> [] \<Longrightarrow> join_lines ([] # ls @ [z]) = lf_char # join_lines ls @ lf_char # z"
proof -
  assume "ls \<noteq> []"
  then obtain m rest where "ls @ [z] = m # rest"
    by (cases ls) auto
  then have "join_lines ([] # ls @ [z]) = lf_char # join_lines (ls @ [z])"
    by simp
  with \<open>ls \<noteq> []\<close> show ?thesis
    by (simp add: join_lines_snoc)
qed

lemma those_map_Some:
  "\<forall>x \<in> set xs. f x = Some (g x) \<Longrightarrow> those (map f xs) = Some (map g xs)"
  by (induction xs) auto

lemma append_singleton_fun [simp]: "(@) [x] = (#) x"
  by (rule ext) simp

subsection \<open>Lemmas on association lists updated in place\<close>

text \<open>
  \<open>AList.update\<close> replaces the value of a key that is present, keeping its
  position, and appends a key that is absent: the key order is the order of
  first definition.
\<close>

lemma update_keys_absent [simp]:
  "k \<notin> set (map fst ps) \<Longrightarrow> map fst (AList.update k v ps) = map fst ps @ [k]"
  by (induction ps) auto

lemma update_keys_present [simp]:
  "k \<in> set (map fst ps) \<Longrightarrow> map fst (AList.update k v ps) = map fst ps"
  by (induction ps) auto

lemma update_absent_append:
  "k \<notin> set (map fst ps) \<Longrightarrow> AList.update k v ps = ps @ [(k, v)]"
  by (induction ps) auto

lemma distinct_keys_update [intro]:
  "distinct (map fst ps) \<Longrightarrow> distinct (map fst (AList.update k v ps))"
  by (simp add: distinct_update)

lemma set_update_subset: "set (AList.update k v ps) \<subseteq> insert (k, v) (set ps)"
  by (induction ps) auto

lemma list_all2_update:
  assumes "list_all2 R ps qs" and "\<And>x y. R x y \<Longrightarrow> fst x = fst y" and "R (k, p) (k, q)"
  shows "list_all2 R (AList.update k p ps) (AList.update k q qs)"
  using assms(1)
proof (induction ps qs rule: list_all2_induct)
  case (Cons x xs y ys)
  have "fst x = fst y"
    using assms(2) Cons.hyps(1) .
  with Cons assms(3) show ?case
    by (cases x, cases y) auto
qed (simp add: assms(3))

lemma list_all2_set_left: "list_all2 P xs ys \<Longrightarrow> x \<in> set xs \<Longrightarrow> \<exists>y \<in> set ys. P x y"
  by (induction xs ys rule: list_all2_induct) auto

lemma map_of_update_same [simp]: "map_of (AList.update k v ps) k = Some v"
  by (simp add: update_conv')

lemma map_of_update_other [simp]:
  "k' \<noteq> k \<Longrightarrow> map_of (AList.update k v ps) k' = map_of ps k'"
  by (simp add: update_conv')

lemma map_of_snoc_distinct:
  "k \<notin> set (map fst ps) \<Longrightarrow> map_of (ps @ [(k, v)]) = (map_of ps)(k \<mapsto> v)"
  by (rule ext) (auto simp: map_add_def map_of_append split: option.splits
      dest: map_of_SomeD intro: rev_image_eqI)

end
