(* ===== verification/ArrayIndex.thy ===== *)
theory ArrayIndex
  imports Prelude
begin

text \<open>
  Array-index property keys (ECMAScript 6.1.7, used by
  OrdinaryOwnPropertyKeys).  A string key \<open>P\<close> is an array index when
  \<open>ToString(ToUint32(P)) = P\<close> and \<open>ToUint32(P) \<noteq> 2\<^sup>3\<^sup>2 - 1\<close>.  Own keys that are
  array indices are listed before all other string keys, in ascending numeric
  order, whatever order the object literal of
  \<open>src/packages/demo/src/sample-code.ts\<close> defines them in; so whether a label
  is an array index decides the order in which the table's entries are
  enumerated.

  \<open>ToUint32\<close> is modelled with \<open>32 word\<close>, so the wrap-around modulo
  \<open>2\<^sup>3\<^sup>2\<close> is the word arithmetic's.  \<open>ToNumber\<close> is modelled on decimal
  digit strings only: \<open>ToString\<close> of a \<open>uint32\<close> is always a decimal digit
  string, so a key that is not one is never equal to it, and the test is
  exact without the rest of \<open>ToNumber\<close>.  A digit string of more than ten
  digits is never equal to a \<open>uint32\<close>'s decimal form either, so the rounding
  of \<open>ToNumber\<close> to a double for long strings does not change the test.
\<close>

definition is_digit :: "char \<Rightarrow> bool" where
  "is_digit c \<longleftrightarrow> (48::nat) \<le> of_char c \<and> of_char c \<le> (57::nat)"

definition digit_value :: "char \<Rightarrow> nat" where
  "digit_value c = of_char c - 48"

definition digit_char :: "nat \<Rightarrow> char" where
  "digit_char d = char_of (48 + d)"

text \<open>\<open>ToNumber\<close> on a string of decimal digits.\<close>

definition str_to_nat :: "string \<Rightarrow> nat option" where
  "str_to_nat s =
     (if s \<noteq> [] \<and> list_all is_digit s
      then Some (foldl (\<lambda>n c. 10 * n + digit_value c) 0 s) else None)"

text \<open>\<open>Number::toString\<close> on a non-negative integer: its decimal digits.\<close>

fun nat_to_str :: "nat \<Rightarrow> string" where
  "nat_to_str n =
     (if n < 10 then [digit_char n] else nat_to_str (n div 10) @ [digit_char (n mod 10)])"

declare nat_to_str.simps [simp del]

definition to_uint32 :: "nat \<Rightarrow> 32 word" where
  "to_uint32 n = word_of_nat n"

definition is_array_index :: "string \<Rightarrow> bool" where
  "is_array_index p \<longleftrightarrow>
     (case str_to_nat p of
        None \<Rightarrow> False
      | Some n \<Rightarrow> nat_to_str (unat (to_uint32 n)) = p \<and> to_uint32 n \<noteq> - 1)"

text \<open>The numeric value an index key is sorted by.\<close>

definition index_value :: "string \<Rightarrow> nat" where
  "index_value p = (case str_to_nat p of None \<Rightarrow> 0 | Some n \<Rightarrow> n)"

subsection \<open>Decimal digits\<close>

lemma digit_char_is_digit [simp]: "d < 10 \<Longrightarrow> is_digit (digit_char d)"
  by (simp add: is_digit_def digit_char_def)

lemma digit_value_digit_char [simp]: "d < 10 \<Longrightarrow> digit_value (digit_char d) = d"
  by (simp add: digit_value_def digit_char_def)

lemma nat_to_str_nonempty [simp]: "nat_to_str n \<noteq> []"
  by (subst nat_to_str.simps) simp

lemma nat_to_str_digits: "list_all is_digit (nat_to_str n)"
proof (induction n rule: nat_to_str.induct)
  case (1 n)
  then show ?case by (subst nat_to_str.simps) auto
qed

lemma foldl_digits_snoc:
  "foldl (\<lambda>n c. 10 * n + digit_value c) a (xs @ [c])
     = 10 * foldl (\<lambda>n c. 10 * n + digit_value c) a xs + digit_value c"
  by simp

lemma foldl_nat_to_str: "foldl (\<lambda>n c. 10 * n + digit_value c) 0 (nat_to_str n) = n"
proof (induction n rule: nat_to_str.induct)
  case (1 n)
  show ?case
  proof (cases "n < 10")
    case True
    then show ?thesis by (subst nat_to_str.simps) simp
  next
    case False
    then have "foldl (\<lambda>n c. 10 * n + digit_value c) 0 (nat_to_str (n div 10)) = n div 10"
      using "1.IH" by simp
    with False show ?thesis
      by (subst nat_to_str.simps) simp
  qed
qed

lemma str_to_nat_nat_to_str [simp]: "str_to_nat (nat_to_str n) = Some n"
  by (simp add: str_to_nat_def nat_to_str_digits foldl_nat_to_str)

lemma nat_to_str_inj: "nat_to_str m = nat_to_str n \<Longrightarrow> m = n"
  by (metis option.inject str_to_nat_nat_to_str)

lemma unat_to_uint32_small: "n < 2 ^ 32 \<Longrightarrow> unat (to_uint32 n) = n"
  by (simp add: to_uint32_def unat_of_nat)

lemma to_uint32_max_iff: "to_uint32 n = - 1 \<longleftrightarrow> n mod 2 ^ 32 = 2 ^ 32 - 1"
proof -
  have "to_uint32 n = - 1 \<longleftrightarrow> unat (to_uint32 n) = unat (- 1 :: 32 word)"
    by (simp add: word_unat_eq_iff)
  also have "\<dots> \<longleftrightarrow> n mod 2 ^ 32 = 2 ^ 32 - 1"
    by (simp add: to_uint32_def unat_of_nat unsigned_minus_1_eq_mask mask_eq_exp_minus_1)
  finally show ?thesis .
qed

subsection \<open>Array indices are the decimal forms of the numbers below \<open>2\<^sup>3\<^sup>2 - 1\<close>\<close>

lemma is_array_index_nat_to_str:
  assumes "n < 2 ^ 32 - 1"
  shows "is_array_index (nat_to_str n)"
proof -
  from assms have small: "unat (to_uint32 n) = n"
    by (simp add: unat_to_uint32_small)
  from assms have "n mod 2 ^ 32 \<noteq> 2 ^ 32 - 1"
    by simp
  then have "to_uint32 n \<noteq> - 1"
    by (simp add: to_uint32_max_iff)
  with small show ?thesis
    by (simp add: is_array_index_def)
qed

lemma is_array_index_obtain:
  assumes "is_array_index p"
  obtains n where "n < 2 ^ 32 - 1" and "p = nat_to_str n" and "index_value p = n"
proof -
  from assms obtain m where m: "str_to_nat p = Some m"
    and p: "nat_to_str (unat (to_uint32 m)) = p" and ne: "to_uint32 m \<noteq> - 1"
    by (auto simp: is_array_index_def split: option.splits)
  let ?n = "unat (to_uint32 m)"
  have "?n < 2 ^ 32"
    using unsigned_less [of "to_uint32 m"] by simp
  moreover have "?n \<noteq> 2 ^ 32 - 1"
  proof -
    have "?n = m mod 2 ^ 32"
      by (simp add: to_uint32_def unat_of_nat)
    with ne show ?thesis
      by (simp only: to_uint32_max_iff) simp
  qed
  ultimately have "?n < 2 ^ 32 - 1"
    by simp
  moreover have "index_value p = ?n"
    using p by (auto simp: index_value_def)
  ultimately show ?thesis
    using p that by blast
qed

lemmas array_index_simps = is_array_index_def index_value_def str_to_nat_def
  is_digit_def digit_value_def

end
