(* ===== verification/JsObject.thy ===== *)
theory JsObject
  imports ArrayIndex "HOL-Library.Multiset"
begin

text \<open>
  The part of the ECMAScript object model that the exported constant
  \<open>sampleCode\<close> of \<open>src/packages/demo/src/sample-code.ts\<close> lives in: the
  values its literal builds (strings and ordinary objects), the ordinary
  objects' own properties in creation order, their prototype, and the
  operations a reader of the table performs: property access
  \<open>sampleCode[label]\<close> (the internal method Get, which walks the prototype chain), the
  own-property test (\<open>Object.hasOwn\<close>), and enumeration in the order of
  OrdinaryOwnPropertyKeys (\<open>Object.keys\<close>, \<open>Object.entries\<close>).

  An object is its list of own properties, keyed by name, in the order of
  their first definition, and its prototype.  Symbols, property
  attributes and non-ordinary objects are not modelled: every property a
  literal creates is a writable, enumerable, configurable data property, so
  the attributes never change a result here.  Built-in functions are opaque
  values named by their intrinsic.  \<open>Object.prototype\<close> is modelled with its
  own properties (ECMAScript 20.1.3 and B.2.2); its \<open>__proto__\<close> is the
  accessor whose getter returns the receiver's prototype.
\<close>

datatype jsval =
    JUndefined
  | JNull
  | JString string
  | JBuiltin string
  | JObject jsobj
and jsobj = JsObj (obj_props: "(string \<times> jsprop) list") (obj_proto: jsval)
and jsprop = DataProp jsval | ProtoAccessor

text \<open>\<open>%Object.prototype%\<close>, whose own prototype is \<open>null\<close>.\<close>

definition object_prototype :: jsobj where
  "object_prototype = JsObj
     [(''constructor'', DataProp (JBuiltin ''Object'')),
      (''__defineGetter__'', DataProp (JBuiltin ''Object.prototype.__defineGetter__'')),
      (''__defineSetter__'', DataProp (JBuiltin ''Object.prototype.__defineSetter__'')),
      (''hasOwnProperty'', DataProp (JBuiltin ''Object.prototype.hasOwnProperty'')),
      (''__lookupGetter__'', DataProp (JBuiltin ''Object.prototype.__lookupGetter__'')),
      (''__lookupSetter__'', DataProp (JBuiltin ''Object.prototype.__lookupSetter__'')),
      (''isPrototypeOf'', DataProp (JBuiltin ''Object.prototype.isPrototypeOf'')),
      (''propertyIsEnumerable'', DataProp (JBuiltin ''Object.prototype.propertyIsEnumerable'')),
      (''toString'', DataProp (JBuiltin ''Object.prototype.toString'')),
      (''valueOf'', DataProp (JBuiltin ''Object.prototype.valueOf'')),
      (''__proto__'', ProtoAccessor),
      (''toLocaleString'', DataProp (JBuiltin ''Object.prototype.toLocaleString''))]
     JNull"

text \<open>OrdinaryObjectCreate(\<open>%Object.prototype%\<close>): what \<open>{\<close> starts.\<close>

definition new_object :: jsobj where
  "new_object = JsObj [] (JObject object_prototype)"

text \<open>
  CreateDataPropertyOrThrow on an extensible object whose own properties are
  all configurable, as every object under construction by a literal is: a
  present key keeps its position and takes the new value, an absent key is
  appended.  Neither case throws.
\<close>

definition create_data_property :: "jsobj \<Rightarrow> string \<Rightarrow> jsval \<Rightarrow> jsobj" where
  "create_data_property obj k v = JsObj (AList.update k (DataProp v) (obj_props obj)) (obj_proto obj)"

text \<open>
  The \<open>__proto__: v\<close> form of a literal (ECMAScript B.3.1): it sets the
  prototype when \<open>v\<close> is an object or \<open>null\<close> and is ignored otherwise; it
  creates no own property.
\<close>

definition literal_set_proto :: "jsobj \<Rightarrow> jsval \<Rightarrow> jsobj" where
  "literal_set_proto obj v =
     (case v of
        JObject _ \<Rightarrow> JsObj (obj_props obj) v
      | JNull \<Rightarrow> JsObj (obj_props obj) JNull
      | _ \<Rightarrow> obj)"

text \<open>The internal method GetOwnProperty.\<close>

definition own_property :: "jsobj \<Rightarrow> string \<Rightarrow> jsprop option" where
  "own_property obj k = map_of (obj_props obj) k"

text \<open>\<open>Object.hasOwn(obj, k)\<close> and \<open>obj.hasOwnProperty(k)\<close>.\<close>

definition has_own :: "jsobj \<Rightarrow> string \<Rightarrow> bool" where
  "has_own obj k \<longleftrightarrow> k \<in> set (map fst (obj_props obj))"

text \<open>
  OrdinaryGet(O, P, Receiver): an own data property gives its value, the
  \<open>__proto__\<close> accessor gives the receiver's prototype, and an absent key is
  looked up in the prototype, up to \<open>null\<close>.
\<close>

fun obj_get :: "jsobj \<Rightarrow> string \<Rightarrow> jsobj \<Rightarrow> jsval" where
  "obj_get (JsObj ps p) k r =
     (case map_of ps k of
        Some (DataProp v) \<Rightarrow> v
      | Some ProtoAccessor \<Rightarrow> obj_proto r
      | None \<Rightarrow> (case p of JObject q \<Rightarrow> obj_get q k r | _ \<Rightarrow> JUndefined))"

text \<open>Property access \<open>obj[k]\<close> on an object.\<close>

definition js_get :: "jsobj \<Rightarrow> string \<Rightarrow> jsval" where
  "js_get obj k = obj_get obj k obj"

text \<open>
  OrdinaryOwnPropertyKeys restricted to string keys: the array indices in
  ascending numeric order, then the other keys in creation order.
\<close>

definition ordered_keys :: "string list \<Rightarrow> string list" where
  "ordered_keys ks =
     sort_key index_value (filter is_array_index ks) @ filter (\<lambda>k. \<not> is_array_index k) ks"

definition own_keys :: "jsobj \<Rightarrow> string list" where
  "own_keys obj = ordered_keys (map fst (obj_props obj))"

text \<open>\<open>Object.keys\<close> and \<open>Object.entries\<close> (EnumerableOwnProperties).\<close>

definition object_keys :: "jsobj \<Rightarrow> string list" where
  "object_keys obj = own_keys obj"

definition object_entries :: "jsobj \<Rightarrow> (string \<times> jsval) list" where
  "object_entries obj = map (\<lambda>k. (k, js_get obj k)) (own_keys obj)"

text \<open>The invariant of ordinary objects: no key is defined twice.\<close>

definition wf_obj :: "jsobj \<Rightarrow> bool" where
  "wf_obj obj \<longleftrightarrow> distinct (map fst (obj_props obj))"

text \<open>The names every literal-created object inherits from \<open>Object.prototype\<close>.\<close>

definition inherited_names :: "string list" where
  "inherited_names = map fst (obj_props object_prototype)"

subsection \<open>Creating properties\<close>

lemma obj_props_create [simp]:
  "obj_props (create_data_property obj k v) = AList.update k (DataProp v) (obj_props obj)"
  by (simp add: create_data_property_def)

lemma obj_proto_create [simp]: "obj_proto (create_data_property obj k v) = obj_proto obj"
  by (simp add: create_data_property_def)

lemma wf_new_object [simp]: "wf_obj new_object"
  by (simp add: wf_obj_def new_object_def)

lemma wf_create_data_property [intro]: "wf_obj obj \<Longrightarrow> wf_obj (create_data_property obj k v)"
  by (auto simp: wf_obj_def)

lemma obj_props_literal_set_proto [simp]:
  "obj_props (literal_set_proto obj v) = obj_props obj"
  by (simp add: literal_set_proto_def split: jsval.split)

lemma wf_literal_set_proto [simp]: "wf_obj (literal_set_proto obj v) = wf_obj obj"
  by (simp add: wf_obj_def)

lemma own_property_create_same [simp]:
  "own_property (create_data_property obj k v) k = Some (DataProp v)"
  by (simp add: own_property_def)

lemma own_property_create_other [simp]:
  "k' \<noteq> k \<Longrightarrow> own_property (create_data_property obj k v) k' = own_property obj k'"
  by (simp add: own_property_def)

lemma has_own_create [simp]:
  "has_own (create_data_property obj k v) k' \<longleftrightarrow> k' = k \<or> has_own obj k'"
  by (simp add: has_own_def dom_update)

lemma keys_create:
  "map fst (obj_props (create_data_property obj k v)) =
     (if has_own obj k then map fst (obj_props obj) else map fst (obj_props obj) @ [k])"
  by (simp add: has_own_def)

lemma has_own_iff_own_property: "has_own obj k \<longleftrightarrow> own_property obj k \<noteq> None"
  by (simp add: has_own_def own_property_def map_of_eq_None_iff image_iff)

subsection \<open>Reading properties\<close>

lemma js_get_own_data:
  "own_property obj k = Some (DataProp v) \<Longrightarrow> js_get obj k = v"
  by (cases obj) (simp add: js_get_def own_property_def)

lemma object_prototype_values:
  "map_of (obj_props object_prototype) k = Some p \<Longrightarrow>
     p = ProtoAccessor \<and> k = ''__proto__'' \<or> (\<exists>f. p = DataProp (JBuiltin f))"
  by (auto simp: object_prototype_def split: if_splits)

lemma obj_get_object_prototype:
  "obj_get object_prototype k r =
     (case map_of (obj_props object_prototype) k of
        Some (DataProp v) \<Rightarrow> v
      | Some ProtoAccessor \<Rightarrow> obj_proto r
      | None \<Rightarrow> JUndefined)"
  by (simp add: object_prototype_def)

lemma js_get_inherited:
  assumes "\<not> has_own obj k" and "obj_proto obj = JObject object_prototype"
  shows "js_get obj k =
           (case map_of (obj_props object_prototype) k of
              Some (DataProp v) \<Rightarrow> v
            | Some ProtoAccessor \<Rightarrow> JObject object_prototype
            | None \<Rightarrow> JUndefined)"
proof (cases obj)
  case (JsObj ps p)
  with assms have "map_of ps k = None" and "p = JObject object_prototype"
    by (simp_all add: has_own_iff_own_property own_property_def)
  with JsObj show ?thesis
    by (simp add: js_get_def obj_get_object_prototype split: option.split jsprop.split)
qed

subsection \<open>Enumeration order\<close>

lemma mset_ordered_keys [simp]: "mset (ordered_keys ks) = mset ks"
  by (simp add: ordered_keys_def)

lemma set_ordered_keys [simp]: "set (ordered_keys ks) = set ks"
  by (rule mset_eq_setD) (rule mset_ordered_keys)

lemma distinct_ordered_keys [simp]: "distinct (ordered_keys ks) = distinct ks"
  by (rule mset_eq_imp_distinct_iff) (rule mset_ordered_keys)

lemma ordered_keys_no_index:
  "\<forall>k \<in> set ks. \<not> is_array_index k \<Longrightarrow> ordered_keys ks = ks"
proof -
  assume none: "\<forall>k \<in> set ks. \<not> is_array_index k"
  then have "filter is_array_index ks = []"
    by (simp add: filter_empty_conv)
  moreover from none have "filter (\<lambda>k. \<not> is_array_index k) ks = ks"
    by (simp add: filter_id_conv)
  ultimately show ?thesis
    by (simp add: ordered_keys_def)
qed

lemma mset_own_keys: "mset (own_keys obj) = mset (map fst (obj_props obj))"
  by (simp add: own_keys_def)

lemma set_own_keys [simp]: "set (own_keys obj) = set (map fst (obj_props obj))"
  by (simp add: own_keys_def)

lemma distinct_own_keys: "wf_obj obj \<Longrightarrow> distinct (own_keys obj)"
  by (simp add: own_keys_def wf_obj_def)

lemma own_keys_no_index:
  "\<forall>k \<in> set (map fst (obj_props obj)). \<not> is_array_index k \<Longrightarrow>
     own_keys obj = map fst (obj_props obj)"
  unfolding own_keys_def by (rule ordered_keys_no_index)

end
