(* ===== verification/TemplateLiteral.thy ===== *)
theory TemplateLiteral
  imports ArrayIndex
begin

text \<open>
  The string value of a template literal without substitutions
  (ECMAScript 12.9.6 and 13.2.8: the TV of a NoSubstitutionTemplate).  Every
  \<open>code:\<close> field of \<open>src/packages/demo/src/sample-code.ts\<close> is such a literal,
  written between backticks over many lines; its value is not its source text
  in general: escape sequences are decoded, a line continuation
  (backslash-newline) contributes nothing, and the line terminators CR and
  CR LF are normalised to LF.  A \<open>${\<close> would start a substitution and an
  unescaped backtick would end the literal, so neither can occur in the body.

  \<open>template_tv\<close> scans the body left to right: \<open>Inr\<close> the value, or
  \<open>Inl\<close> the reason the text is not the body of a substitution-free
  template.  Strings are sequences of code units below 256 (\<open>char\<close>); a
  \<open>\u\<close> escape, which can denote code units beyond that range, and the
  non-ASCII line terminators LS and PS are not modelled
  (\<open>UnicodeEscape\<close>).
\<close>

datatype template_error =
    NotEscapeSequence
  | UnicodeEscape
  | SubstitutionStart
  | UnescapedBacktick
  | TrailingBackslash

abbreviation backslash_char :: char where
  "backslash_char \<equiv> CHR 0x5C"

abbreviation backtick_char :: char where
  "backtick_char \<equiv> CHR 0x60"

definition next_is :: "(char \<Rightarrow> bool) \<Rightarrow> string \<Rightarrow> bool" where
  "next_is P cs = (case cs of [] \<Rightarrow> False | d # _ \<Rightarrow> P d)"

text \<open>SingleEscapeCharacter and the code unit it denotes.\<close>

definition single_escape :: "char \<Rightarrow> char option" where
  "single_escape e =
     (if e = CHR ''b'' then Some (CHR 0x08)
      else if e = CHR ''t'' then Some (CHR 0x09)
      else if e = CHR ''n'' then Some lf_char
      else if e = CHR ''v'' then Some (CHR 0x0B)
      else if e = CHR ''f'' then Some (CHR 0x0C)
      else if e = CHR ''r'' then Some cr_char
      else if e = CHR 0x22 \<or> e = CHR 0x27 \<or> e = backslash_char then Some e
      else None)"

definition is_hex_digit :: "char \<Rightarrow> bool" where
  "is_hex_digit c \<longleftrightarrow> is_digit c
     \<or> ((65::nat) \<le> of_char c \<and> of_char c \<le> (70::nat))
     \<or> ((97::nat) \<le> of_char c \<and> of_char c \<le> (102::nat))"

definition hex_value :: "char \<Rightarrow> nat" where
  "hex_value c =
     (if is_digit c then digit_value c
      else if of_char c \<le> (70::nat) then of_char c - 55 else of_char c - 87)"

text \<open>
  One escape sequence, after the backslash: the escape character \<open>e\<close> and
  the text after it.  The result is the code units it denotes and how many
  further characters of \<open>rest\<close> it consumes.
\<close>

definition escape_step :: "char \<Rightarrow> string \<Rightarrow> template_error + (string \<times> nat)" where
  "escape_step e rest =
     (case single_escape e of
        Some c \<Rightarrow> Inr ([c], 0)
      | None \<Rightarrow>
         if e = lf_char then Inr ([], 0)
         else if e = cr_char then Inr ([], if next_is (\<lambda>d. d = lf_char) rest then 1 else 0)
         else if e = CHR ''0'' then
           (if next_is is_digit rest then Inl NotEscapeSequence else Inr ([CHR 0x00], 0))
         else if is_digit e then Inl NotEscapeSequence
         else if e = CHR ''x'' then
           (case rest of
              h1 # h2 # _ \<Rightarrow>
                if is_hex_digit h1 \<and> is_hex_digit h2
                then Inr ([char_of (16 * hex_value h1 + hex_value h2)], 2)
                else Inl NotEscapeSequence
            | _ \<Rightarrow> Inl NotEscapeSequence)
         else if e = CHR ''u'' then Inl UnicodeEscape
         else Inr ([e], 0))"

function template_tv :: "string \<Rightarrow> template_error + string" where
  "template_tv [] = Inr []"
| "template_tv (c # cs) =
     (if c = backtick_char then Inl UnescapedBacktick
      else if c = CHR ''$'' \<and> next_is (\<lambda>d. d = CHR 0x7B) cs then Inl SubstitutionStart
      else if c = cr_char then
        map_sum id (Cons lf_char)
          (template_tv (if next_is (\<lambda>d. d = lf_char) cs then tl cs else cs))
      else if c = backslash_char then
        (case cs of
           [] \<Rightarrow> Inl TrailingBackslash
         | e # rest \<Rightarrow>
            (case escape_step e rest of
               Inl err \<Rightarrow> Inl err
             | Inr (out, n) \<Rightarrow> map_sum id ((@) out) (template_tv (drop n rest))))
      else map_sum id (Cons c) (template_tv cs))"
  by pat_completeness auto
termination
  by (relation "measure length") auto

text \<open>
  A body with no backslash, no backtick and no \<open>${\<close>: what the sample
  snippets are.  Its value is the text with its line terminators normalised.
\<close>

fun no_escapes :: "string \<Rightarrow> bool" where
  "no_escapes [] = True"
| "no_escapes (c # cs) =
     (c \<noteq> backtick_char \<and> c \<noteq> backslash_char
      \<and> \<not> (c = CHR ''$'' \<and> next_is (\<lambda>d. d = CHR 0x7B) cs) \<and> no_escapes cs)"

fun normalise_eol :: "string \<Rightarrow> string" where
  "normalise_eol [] = []"
| "normalise_eol [c] = (if c = cr_char then [lf_char] else [c])"
| "normalise_eol (c # d # cs) =
     (if c = cr_char \<and> d = lf_char then lf_char # normalise_eol cs
      else (if c = cr_char then lf_char else c) # normalise_eol (d # cs))"

text \<open>
  The inverse direction: the body a printer writes for a given string value,
  escaping the three characters that are special in a template and CR (which
  the scanner would normalise).
\<close>

definition escape_template_char :: "char \<Rightarrow> string" where
  "escape_template_char c =
     (if c = backslash_char \<or> c = backtick_char \<or> c = CHR ''$'' then [backslash_char, c]
      else if c = cr_char then [backslash_char, CHR ''r'']
      else [c])"

definition template_escape :: "string \<Rightarrow> string" where
  "template_escape s = concat (map escape_template_char s)"

text \<open>A character that is literal text wherever it occurs in a body.\<close>

definition plain_char :: "char \<Rightarrow> bool" where
  "plain_char c \<longleftrightarrow> c \<noteq> backtick_char \<and> c \<noteq> backslash_char \<and> c \<noteq> CHR ''$'' \<and> c \<noteq> cr_char"

subsection \<open>Values of escape-free bodies\<close>

lemma plain_no_escapes: "list_all plain_char s \<Longrightarrow> no_escapes s"
  by (induction s) (auto simp: plain_char_def)

lemma plain_lf: "plain_char lf_char"
  by (simp add: plain_char_def)

lemma plain_no_cr: "list_all plain_char s \<Longrightarrow> cr_char \<notin> set s"
  by (induction s) (auto simp: plain_char_def)

lemma normalise_eol_no_cr: "cr_char \<notin> set s \<Longrightarrow> normalise_eol s = s"
  by (induction s rule: normalise_eol.induct) auto

lemma template_tv_no_escapes:
  "no_escapes s \<Longrightarrow> template_tv s = Inr (normalise_eol s)"
proof (induction s rule: normalise_eol.induct)
  case 1
  then show ?case by simp
next
  case (2 c)
  then show ?case by (simp add: next_is_def)
next
  case (3 c d cs)
  then have "no_escapes (d # cs)" and "no_escapes cs"
    by simp_all
  with 3 show ?case
    by (auto simp: next_is_def)
qed

lemma normalise_eol_no_cr_out: "cr_char \<notin> set (normalise_eol s)"
  by (induction s rule: normalise_eol.induct) auto

subsection \<open>Escaping and scanning are inverse\<close>

lemma template_tv_escape_char:
  "template_tv (escape_template_char c @ rest) = map_sum id (Cons c) (template_tv rest)"
proof -
  consider "c = backslash_char" | "c = backtick_char" | "c = CHR ''$''" | "c = cr_char"
    | "c \<noteq> backslash_char" "c \<noteq> backtick_char" "c \<noteq> CHR ''$''" "c \<noteq> cr_char"
    by blast
  then show ?thesis
    by cases (simp_all add: escape_template_char_def escape_step_def single_escape_def is_digit_def)
qed
lemma template_escape_Cons:
  "template_escape (c # s) = escape_template_char c @ template_escape s"
  by (simp add: template_escape_def)
subsection \<open>Rejected bodies\<close>

lemma digit_single_escape: "is_digit d \<Longrightarrow> single_escape d = None"
proof -
  assume "is_digit d"
  then have "d \<notin> {CHR ''b'', CHR ''t'', CHR ''n'', CHR ''v'', CHR ''f'', CHR ''r'',
      CHR 0x22, CHR 0x27, backslash_char}"
    by (auto simp: is_digit_def)
  then show ?thesis
    by (simp add: single_escape_def)
qed

lemma digit_escape_step:
  assumes "is_digit d" and "d \<noteq> CHR ''0''"
  shows "escape_step d s = Inl NotEscapeSequence"
proof -
  from assms(1) have "d \<notin> {lf_char, cr_char}"
    by (auto simp: is_digit_def)
  with assms show ?thesis
    by (simp add: escape_step_def digit_single_escape)
qed

end
