(* ===== verification/ObjectLiteral.thy ===== *)
theory ObjectLiteral
  imports JsObject TemplateLiteral
begin

text \<open>
  Evaluation of the expressions \<open>src/packages/demo/src/sample-code.ts\<close> is
  written in: string literals, substitution-free template literals and object
  literals whose properties are either \<open>[k]: e\<close> with a string-literal key
  \<open>k\<close> (the outer table) or \<open>name: e\<close> (the fields \<open>language\<close> and
  \<open>code\<close>).  An object literal starts from OrdinaryObjectCreate(\<open>%Object.prototype%\<close>)
  and evaluates its property definitions left to right (ECMAScript 13.2.5):
  each evaluates its value and then defines the property with
  CreateDataPropertyOrThrow, except \<open>__proto__: e\<close>, which sets the prototype.
  A computed \<open>["__proto__"]: e\<close> is an ordinary property.

  Errors are values: a template body that the scanner rejects and a literal
  with two \<open>__proto__: e\<close> definitions are early SyntaxErrors (13.2.5.1).
  Nothing else in these expressions can throw.  \<open>TypeError\<close> is the error
  the object store (theory \<open>Store\<close>) throws: a failed assignment in strict
  code, a refused \<open>Object.setPrototypeOf\<close>.
\<close>

datatype js_error =
    TemplateSyntax template_error
  | DuplicateProtoSetter
  | TypeError

datatype expr =
    EString string
  | ETemplate string
  | EObject "propdef list"
and propdef =
    PComputed string expr
  | PIdent string expr

definition is_proto_setter :: "propdef \<Rightarrow> bool" where
  "is_proto_setter d = (case d of PIdent k _ \<Rightarrow> k = ''__proto__'' | PComputed _ _ \<Rightarrow> False)"

fun eval_expr :: "expr \<Rightarrow> js_error + jsval"
and eval_props :: "jsobj \<Rightarrow> propdef list \<Rightarrow> js_error + jsobj" where
  "eval_expr (EString s) = Inr (JString s)"
| "eval_expr (ETemplate body) =
     (case template_tv body of
        Inl err \<Rightarrow> Inl (TemplateSyntax err)
      | Inr s \<Rightarrow> Inr (JString s))"
| "eval_expr (EObject ds) =
     (if 1 < length (filter is_proto_setter ds) then Inl DuplicateProtoSetter
      else map_sum id JObject (eval_props new_object ds))"
| "eval_props obj [] = Inr obj"
| "eval_props obj (PComputed k e # ds) =
     (case eval_expr e of
        Inl err \<Rightarrow> Inl err
      | Inr v \<Rightarrow> eval_props (create_data_property obj k v) ds)"
| "eval_props obj (PIdent k e # ds) =
     (case eval_expr e of
        Inl err \<Rightarrow> Inl err
      | Inr v \<Rightarrow>
          eval_props (if k = ''__proto__'' then literal_set_proto obj v
                      else create_data_property obj k v) ds)"

subsection \<open>Objects built by literals are well formed\<close>

lemma eval_props_wf:
  "wf_obj obj \<Longrightarrow> eval_props obj ds = Inr obj' \<Longrightarrow> wf_obj obj'"
proof (induction ds arbitrary: obj)
  case Nil
  then show ?case by simp
next
  case (Cons d ds)
  show ?case
  proof (cases d)
    case (PComputed k e)
    with Cons show ?thesis
      by (auto split: sum.splits)
  next
    case (PIdent k e)
    with Cons.prems obtain v where "eval_expr e = Inr v"
      and step: "eval_props (if k = ''__proto__'' then literal_set_proto obj v
                             else create_data_property obj k v) ds = Inr obj'"
      by (auto split: sum.splits)
    moreover have "wf_obj (if k = ''__proto__'' then literal_set_proto obj v
                           else create_data_property obj k v)"
      using Cons.prems(1) by auto
    ultimately show ?thesis
      using Cons.IH by blast
  qed
qed

end
