(* ===== verification/Registry.thy ===== *)
theory Registry
  imports ObjectLiteral
begin

text \<open>
  The contract of the sample registry (spec section 4.1) and how a JavaScript
  object literal of the shape used in \<open>src/packages/demo/src/sample-code.ts\<close>
  implements it.

  The abstract registry is an ordered association list from labels to
  entries (\<open>sample_entry\<close>: a language tag and a code text); \<open>reg_get\<close> is
  lookup by exact label and \<open>build_registry\<close> is construction from a list of
  rows, failing with \<open>DuplicateLabel\<close> on the first label defined twice.
  These three are the specification, not code.

  The implementation is a table literal: one computed property \<open>["label"]\<close>
  per row, whose value is \<open>{ language: "...", code: `...` }\<close>.  The
  abstraction function \<open>registry_of\<close> reads an object as a registry the way a
  consumer does: its own keys in \<open>Object.keys\<close> order, each value's
  \<open>language\<close> and \<open>code\<close> read by property access; \<open>js_lookup\<close> is
  lookup guarded by \<open>Object.hasOwn\<close>, and \<open>js_get\<close> (from \<open>JsObject\<close>) is
  the bare \<open>obj[label]\<close>.
\<close>

record sample_entry =
  language :: string
  code :: string

type_synonym registry = "(label \<times> sample_entry) list"

datatype registry_error = DuplicateLabel label

fun build_from :: "registry \<Rightarrow> registry \<Rightarrow> registry_error + registry" where
  "build_from acc [] = Inr acc"
| "build_from acc ((l, e) # rows) =
     (if l \<in> set (map fst acc) then Inl (DuplicateLabel l)
      else build_from (acc @ [(l, e)]) rows)"

definition build_registry :: "registry \<Rightarrow> registry_error + registry" where
  "build_registry rows = build_from [] rows"

definition reg_get :: "registry \<Rightarrow> label \<Rightarrow> sample_entry option" where
  "reg_get r l = map_of r l"

subsection \<open>The table literal\<close>

text \<open>A row of the source table: label, language tag, template body.\<close>

type_synonym row = "label \<times> string \<times> string"

definition entry_expr :: "string \<Rightarrow> string \<Rightarrow> expr" where
  "entry_expr lang body =
     EObject [PIdent ''language'' (EString lang), PIdent ''code'' (ETemplate body)]"

definition row_def :: "row \<Rightarrow> propdef" where
  "row_def r = (case r of (l, lang, body) \<Rightarrow> PComputed l (entry_expr lang body))"

definition table_literal :: "row list \<Rightarrow> expr" where
  "table_literal rows = EObject (map row_def rows)"

text \<open>The object an entry literal evaluates to, and the rows' abstract registry.\<close>

definition entry_value :: "string \<Rightarrow> string \<Rightarrow> jsval" where
  "entry_value lang body =
     JObject (JsObj [(''language'', DataProp (JString lang)),
                     (''code'', DataProp (JString (normalise_eol body)))]
                    (JObject object_prototype))"

definition row_prop :: "row \<Rightarrow> string \<times> jsprop" where
  "row_prop r = (case r of (l, lang, body) \<Rightarrow> (l, DataProp (entry_value lang body)))"

definition row_entry :: "row \<Rightarrow> label \<times> sample_entry" where
  "row_entry r = (case r of (l, lang, body) \<Rightarrow> (l, \<lparr>language = lang, code = normalise_eol body\<rparr>))"

definition rows_registry :: "row list \<Rightarrow> registry" where
  "rows_registry rows = map row_entry rows"

subsection \<open>Reading an object as a registry\<close>

definition entry_of :: "jsval \<Rightarrow> sample_entry option" where
  "entry_of v =
     (case v of
        JObject obj \<Rightarrow>
          (case (js_get obj ''language'', js_get obj ''code'') of
             (JString l, JString c) \<Rightarrow> Some \<lparr>language = l, code = c\<rparr>
           | _ \<Rightarrow> None)
      | _ \<Rightarrow> None)"

definition js_lookup :: "jsobj \<Rightarrow> label \<Rightarrow> sample_entry option" where
  "js_lookup obj l = (if has_own obj l then entry_of (js_get obj l) else None)"

definition registry_of :: "jsobj \<Rightarrow> registry option" where
  "registry_of obj = those (map (\<lambda>k. map_option (Pair k) (entry_of (js_get obj k))) (own_keys obj))"

subsection \<open>Evaluating a table literal\<close>

lemma fst_row_prop [simp]: "fst (row_prop r) = fst r"
  by (simp add: row_prop_def split: prod.splits)

lemma fst_comp_row_prop [simp]: "fst \<circ> row_prop = fst"
  by (simp add: comp_def)

lemma map_fst_rows_registry [simp]: "map fst (rows_registry rows) = map fst rows"
  by (induction rows) (auto simp: rows_registry_def row_entry_def split: prod.splits)

lemma eval_entry_expr:
  "no_escapes body \<Longrightarrow> eval_expr (entry_expr lang body) = Inr (entry_value lang body)"
  by (simp add: entry_expr_def entry_value_def is_proto_setter_def template_tv_no_escapes
      new_object_def create_data_property_def)

lemma eval_rows:
  assumes "distinct (map fst ps @ map fst rows)"
    and "\<forall>(l, lang, body) \<in> set rows. no_escapes body"
  shows "eval_props (JsObj ps p) (map row_def rows) = Inr (JsObj (ps @ map row_prop rows) p)"
  using assms
proof (induction rows arbitrary: ps)
  case Nil
  then show ?case by simp
next
  case (Cons r rows)
  obtain l lang body where r: "r = (l, lang, body)"
    by (cases r) auto
  with Cons.prems have nl: "l \<notin> set (map fst ps)" and body: "no_escapes body"
    by auto
  have step: "create_data_property (JsObj ps p) l (entry_value lang body)
      = JsObj (ps @ [row_prop r]) p"
    using nl r by (simp add: create_data_property_def update_absent_append row_prop_def)
  have "distinct (map fst (ps @ [row_prop r]) @ map fst rows)"
    using Cons.prems(1) r by (simp add: row_prop_def)
  then have "eval_props (JsObj (ps @ [row_prop r]) p) (map row_def rows)
      = Inr (JsObj (ps @ [row_prop r] @ map row_prop rows) p)"
    using Cons.IH Cons.prems(2) by simp
  moreover have "row_def r = PComputed l (entry_expr lang body)"
    using r by (simp add: row_def_def)
  ultimately show ?case
    using body step by (simp add: eval_entry_expr)
qed

lemma rows_no_proto_setter: "filter is_proto_setter (map row_def rows) = []"
  by (induction rows) (auto simp: row_def_def is_proto_setter_def split: prod.splits)

lemma eval_table_literal:
  assumes "distinct (map fst rows)"
    and "\<forall>(l, lang, body) \<in> set rows. no_escapes body"
  shows "eval_expr (table_literal rows) =
           Inr (JObject (JsObj (map row_prop rows) (JObject object_prototype)))"
proof -
  have "filter is_proto_setter (map row_def rows) = []"
    by (rule rows_no_proto_setter)
  moreover have "eval_props new_object (map row_def rows)
      = Inr (JsObj (map row_prop rows) (JObject object_prototype))"
    using eval_rows [of "[]" rows] assms by (simp add: new_object_def)
  ultimately show ?thesis
    by (simp add: table_literal_def)
qed

lemma entry_of_entry_value [simp]:
  "entry_of (entry_value lang body) = Some \<lparr>language = lang, code = normalise_eol body\<rparr>"
  by (simp add: entry_of_def entry_value_def js_get_def)

lemma js_get_table:
  assumes "distinct (map fst rows)" and "(l, lang, body) \<in> set rows"
  shows "js_get (JsObj (map row_prop rows) p) l = entry_value lang body"
proof -
  have "(l, DataProp (entry_value lang body)) \<in> set (map row_prop rows)"
    using assms(2) by (force simp: row_prop_def)
  then have "map_of (map row_prop rows) l = Some (DataProp (entry_value lang body))"
    using assms(1) by (intro map_of_is_SomeI) simp_all
  then show ?thesis
    by (simp add: js_get_own_data own_property_def)
qed

lemma registry_of_table:
  assumes "distinct (map fst rows)" and "\<forall>l \<in> set (map fst rows). \<not> is_array_index l"
  shows "registry_of (JsObj (map row_prop rows) p) = Some (rows_registry rows)"
proof -
  have keys: "own_keys (JsObj (map row_prop rows) p) = map fst rows"
    using assms(2) own_keys_no_index [of "JsObj (map row_prop rows) p"] by simp
  have "\<forall>r \<in> set rows. map_option (Pair (fst r)) (entry_of (js_get (JsObj (map row_prop rows) p) (fst r)))
           = Some (row_entry r)"
    using assms(1) js_get_table by (auto simp: row_entry_def)
  then have "those (map (\<lambda>k. map_option (Pair k) (entry_of (js_get (JsObj (map row_prop rows) p) k)))
      (map fst rows)) = Some (map row_entry rows)"
    by (simp add: those_map_Some [where g = row_entry] comp_def)
  then show ?thesis
    by (simp add: registry_of_def keys rows_registry_def)
qed

lemma fst_row_entry [simp]: "fst (row_entry r) = fst r"
  by (simp add: row_entry_def split: prod.splits)

lemma map_of_row_entries:
  "map_of (map row_entry xs) l
     = map_option (\<lambda>(lang, body). \<lparr>language = lang, code = normalise_eol body\<rparr>) (map_of xs l)"
  by (induction xs) (auto simp: row_entry_def)

lemma map_of_row_props:
  "map_of (map row_prop xs) l
     = map_option (\<lambda>(lang, body). DataProp (entry_value lang body)) (map_of xs l)"
  by (induction xs) (auto simp: row_prop_def)

lemma js_lookup_table:
  assumes "distinct (map fst rows)"
  shows "js_lookup (JsObj (map row_prop rows) p) l = reg_get (rows_registry rows) l"
proof (cases "l \<in> set (map fst rows)")
  case True
  then obtain lang body where mem: "(l, lang, body) \<in> set rows"
    by auto
  have "(l, \<lparr>language = lang, code = normalise_eol body\<rparr>) \<in> set (rows_registry rows)"
    using mem by (force simp: rows_registry_def row_entry_def)
  then have "reg_get (rows_registry rows) l = Some \<lparr>language = lang, code = normalise_eol body\<rparr>"
    using assms by (simp add: reg_get_def map_of_is_SomeI)
  moreover have "has_own (JsObj (map row_prop rows) p) l"
    using True by (simp add: has_own_def)
  ultimately show ?thesis
    using js_get_table [OF assms mem] by (simp add: js_lookup_def)
next
  case False
  then have "reg_get (rows_registry rows) l = None"
    by (simp add: reg_get_def rows_registry_def map_of_row_entries map_of_eq_None_iff)
  with False show ?thesis
    by (simp add: js_lookup_def has_own_def)
qed

lemma build_from_distinct:
  "distinct (map fst (acc @ rows)) \<Longrightarrow> build_from acc rows = Inr (acc @ rows)"
  by (induction acc rows rule: build_from.induct) auto

lemma build_from_duplicate:
  "distinct (map fst acc) \<Longrightarrow> \<not> distinct (map fst (acc @ rows)) \<Longrightarrow>
     \<exists>l \<in> set (map fst rows). build_from acc rows = Inl (DuplicateLabel l)"
  by (induction acc rows rule: build_from.induct) auto

lemma eval_rows_any:
  assumes "\<forall>(l, lang, body) \<in> set rows. no_escapes body"
  shows "\<exists>ps'. eval_props (JsObj ps p) (map row_def rows) = Inr (JsObj ps' p)
           \<and> map_of ps' = map_of ps ++ map_of (rev (map row_prop rows))"
  using assms
proof (induction rows arbitrary: ps)
  case Nil
  then show ?case by simp
next
  case (Cons r rows)
  obtain l lang body where r: "r = (l, lang, body)"
    by (cases r) auto
  with Cons.prems have body: "no_escapes body"
    by auto
  let ?ps1 = "AList.update l (DataProp (entry_value lang body)) ps"
  from Cons.IH [of ?ps1] Cons.prems obtain ps' where
    run: "eval_props (JsObj ?ps1 p) (map row_def rows) = Inr (JsObj ps' p)"
    and m: "map_of ps' = map_of ?ps1 ++ map_of (rev (map row_prop rows))"
    by auto
  have "row_def r = PComputed l (entry_expr lang body)"
    using r by (simp add: row_def_def)
  then have "eval_props (JsObj ps p) (map row_def (r # rows)) = Inr (JsObj ps' p)"
    using run body by (simp add: eval_entry_expr create_data_property_def)
  moreover have "map_of ps' = map_of ps ++ map_of (rev (map row_prop (r # rows)))"
    using m r by (simp add: update_conv' map_of_append row_prop_def map_add_upd_left
        fun_eq_iff map_add_def split: option.splits)
  ultimately show ?case
    by blast
qed

lemma table_literal_any:
  assumes "\<forall>(l, lang, body) \<in> set rows. no_escapes body"
  shows "\<exists>obj. eval_expr (table_literal rows) = Inr (JObject obj) \<and> wf_obj obj
           \<and> (\<forall>l. js_lookup obj l = map_of (rev (rows_registry rows)) l)"
proof -
  from eval_rows_any [OF assms, of "[]" "JObject object_prototype"] obtain ps' where
    run: "eval_props new_object (map row_def rows) = Inr (JsObj ps' (JObject object_prototype))"
    and m: "map_of ps' = map_of (rev (map row_prop rows))"
    by (auto simp: new_object_def)
  let ?obj = "JsObj ps' (JObject object_prototype)"
  have "eval_expr (table_literal rows) = Inr (JObject ?obj)"
    using run by (simp add: table_literal_def rows_no_proto_setter)
  moreover have "wf_obj ?obj"
    using eval_props_wf [OF wf_new_object run] .
  moreover have "js_lookup ?obj l = map_of (rev (rows_registry rows)) l" for l
  proof (cases "map_of (rev rows) l")
    case None
    then have "map_of ps' l = None"
      using m by (simp add: rev_map map_of_row_props)
    with None show ?thesis
      by (simp add: js_lookup_def has_own_iff_own_property own_property_def
          rows_registry_def rev_map map_of_row_entries)
  next
    case (Some v)
    obtain lang body where v: "v = (lang, body)"
      by (cases v) auto
    with Some m have own: "own_property ?obj l = Some (DataProp (entry_value lang body))"
      by (simp add: own_property_def rev_map map_of_row_props)
    then have "js_lookup ?obj l = Some \<lparr>language = lang, code = normalise_eol body\<rparr>"
      by (simp add: js_lookup_def has_own_iff_own_property js_get_own_data)
    with Some v show ?thesis
      by (simp add: rows_registry_def rev_map map_of_row_entries)
  qed
  ultimately show ?thesis
    by blast
qed

subsection \<open>Properties\<close>

text \<open>
  C2. Refinement: a table literal whose labels are distinct and none an array
  index, and whose template bodies are escape-free, evaluates without error to
  an object that, read through \<open>Object.keys\<close> and property access, is the
  registry of its rows in declaration order; building that registry from the
  rows succeeds; and own-property lookup agrees with the registry's lookup
  on every label, present or not.
\<close>

theorem table_literal_refines:
  assumes "distinct (map fst rows)"
    and "\<forall>l \<in> set (map fst rows). \<not> is_array_index l"
    and "\<forall>(l, lang, body) \<in> set rows. no_escapes body"
  shows "\<exists>obj. eval_expr (table_literal rows) = Inr (JObject obj)
           \<and> registry_of obj = Some (rows_registry rows)
           \<and> build_registry (rows_registry rows) = Inr (rows_registry rows)
           \<and> (\<forall>l. js_lookup obj l = reg_get (rows_registry rows) l)"
proof -
  have "build_registry (rows_registry rows) = Inr (rows_registry rows)"
    using assms(1) build_from_distinct [of "[]" "rows_registry rows"]
    by (simp add: build_registry_def)
  then show ?thesis
    using eval_table_literal [OF assms(1,3)] registry_of_table [OF assms(1,2)]
      js_lookup_table [OF assms(1)] by blast
qed

text \<open>
  Building a registry succeeds with the rows themselves when the labels
  are distinct, and otherwise fails with \<open>DuplicateLabel\<close> naming one of
  the rows' labels.
\<close>

theorem build_registry_result:
  "(distinct (map fst r) \<longrightarrow> build_registry r = Inr r)
   \<and> (\<not> distinct (map fst r) \<longrightarrow> (\<exists>l \<in> set (map fst r). build_registry r = Inl (DuplicateLabel l)))"
  using build_from_distinct [of "[]" r] build_from_duplicate [of "[]" r]
  by (simp add: build_registry_def)

theorem build_registry_result_witness:
  "\<not> distinct (map fst [(''A'', \<lparr>language = ''tsx'', code = ''x''\<rparr>), (''A'', \<lparr>language = ''rust'', code = ''y''\<rparr>)])
   \<and> build_registry [(''A'', \<lparr>language = ''tsx'', code = ''x''\<rparr>), (''A'', \<lparr>language = ''rust'', code = ''y''\<rparr>)]
       = Inl (DuplicateLabel ''A'')"
  using build_registry_result [of "[(''A'', \<lparr>language = ''tsx'', code = ''x''\<rparr>), (''A'', \<lparr>language = ''rust'', code = ''y''\<rparr>)]"]
  by simp

end
