(* ===== verification/SampleCode.thy ===== *)
theory SampleCode
  imports Registry
begin

text \<open>
  The module \<open>src/packages/demo/src/sample-code.ts\<close>: one exported constant,
  \<open>sampleCode\<close>, initialised with an object literal of four computed
  properties \<open>["TypeScript with React"]\<close>, \<open>["JavaScript"]\<close>,
  \<open>["Objective-C"]\<close> and \<open>["Rust"]\<close>, each an object literal with a
  \<open>language\<close> string and a \<open>code\<close> template literal.

  Each template body is written as the list of its source lines, copied
  verbatim (trailing spaces included), joined by line feeds: the first line is
  the empty rest of the line that holds the opening backtick, the last is the
  indentation before the closing one.  \<open>sampleCode_expr\<close> is the literal as
  the file writes it, and \<open>sampleCode\<close> its value, as module evaluation
  binds it.
\<close>

definition tsx_lines :: "string list" where
  \<open>tsx_lines =
    ['''',
     ''import React from \'react\';'',
     '''',
     ''interface GroceryItemProps {'',
     ''  item: {'',
     ''    name: string;'',
     ''    price: number;'',
     ''    quantity: number;'',
     ''  }'',
     ''}'',
     '''',
     ''const GroceryItem: React.FC<GroceryItemProps> = ({ item }) => {'',
     ''  return ('',
     ''    <div>'',
     ''      <h2>{item.name}</h2>'',
     ''      <p>Price: {item.price}</p>'',
     ''      <p>Quantity: {item.quantity}</p>'',
     ''    </div>'',
     ''  );'',
     ''}'',
     '''',
     ''export default GroceryItem;'',
     ''    '']\<close>

definition javascript_lines :: "string list" where
  \<open>javascript_lines =
    ['''',
     ''const GroceryItem = new Proxy({}, {'',
     ''  set(target, prop, value) {'',
     ''    if (prop === \'name\' && typeof value !== \'string\') {'',
     ''      throw new TypeError(\'Name must be a string\');'',
     ''    }'',
     ''    if (prop === \'price\' && typeof value !== \'number\') {'',
     ''      throw new TypeError(\'Price must be a number\');'',
     ''    }'',
     ''    if (prop === \'quantity\' && typeof value !== \'number\') {'',
     ''      throw new TypeError(\'Quantity must be a number\');'',
     ''    }'',
     ''    target[prop] = value;'',
     ''    return true;'',
     ''  }'',
     ''});'',
     ''    '']\<close>

definition objectivec_lines :: "string list" where
  \<open>objectivec_lines =
    ['''',
     ''@interface GroceryItem : NSObject'',
     '''',
     ''@property (nonatomic, strong) NSString *name;'',
     ''@property (nonatomic, assign) float price;'',
     ''@property (nonatomic, assign) NSInteger quantity;'',
     '''',
     ''- (instancetype) initWithName: (NSString *)name '',
     ''                        price: (float)price '',
     ''                     quantity: (NSInteger)quantity;'',
     '''',
     ''@end'',
     '''',
     ''@implementation GroceryItem'',
     '''',
     ''- (instancetype) initWithName: (NSString *)name '',
     ''                        price: (float)price '',
     ''                     quantity: (NSInteger)quantity {'',
     ''    self = [super init];'',
     ''    if (self) {'',
     ''        _name = name;'',
     ''        _price = price;'',
     ''        _quantity = quantity;'',
     ''    }'',
     ''    return self;'',
     ''}'',
     '''',
     ''@end'',
     ''    '']\<close>

definition rust_lines :: "string list" where
  \<open>rust_lines =
    ['''',
     ''use serde::{Deserialize, Serialize};'',
     ''use reqwest::Error as ReqwestError;'',
     '''',
     ''#[derive(Debug, Serialize, Deserialize)]'',
     ''struct GroceryItem {'',
     ''    name: String,'',
     ''    price: f32,'',
     ''    quantity: i32,'',
     ''}'',
     '''',
     ''impl GroceryItem {'',
     ''    async fn fetch_all() -> Result<Vec<GroceryItem>, ReqwestError> {'',
     ''        let response = reqwest::get("https://example.com/grocery_items")'',
     ''            .await?'',
     ''            .json::<Vec<GroceryItem>>()'',
     ''            .await?;'',
     ''        Ok(response)'',
     ''    }'',
     '''',
     ''    async fn fetch_by_name(name: &str) -> Result<GroceryItem, ReqwestError> {'',
     ''        let response = reqwest::get(&format!("https://example.com/grocery_items/{}", name))'',
     ''            .await?'',
     ''            .json::<GroceryItem>()'',
     ''            .await?;'',
     ''        Ok(response)'',
     ''    }'',
     '''',
     ''    async fn create(&self) -> Result<(), ReqwestError> {'',
     ''        let client = reqwest::Client::new();'',
     ''        let response = client.post("https://example.com/grocery_items")'',
     ''            .json(self)'',
     ''            .send()'',
     ''            .await?;'',
     ''        if !response.status().is_success() {'',
     ''            return Err(ReqwestError::from(response.status()));'',
     ''        }'',
     ''        Ok(())'',
     ''    }'',
     '''',
     ''    async fn update(&self, name: &str) -> Result<(), ReqwestError> {'',
     ''        let client = reqwest::Client::new();'',
     ''        let response = client.put(&format!("https://example.com/grocery_items/{}", name))'',
     ''            .json(self)'',
     ''            .send()'',
     ''            .await?;'',
     ''        if !response.status().is_success() {'',
     ''            return Err(ReqwestError::from(response.status()));'',
     ''        }'',
     ''        Ok(())'',
     ''    }'',
     '''',
     ''    async fn delete(name: &str) -> Result<(), ReqwestError> {'',
     ''        let client = reqwest::Client::new();'',
     ''        let response = client.delete(&format!("https://example.com/grocery_items/{}", name))'',
     ''            .send()'',
     ''            .await?;'',
     ''        if !response.status().is_success() {'',
     ''            return Err(ReqwestError::from(response.status()));'',
     ''        }'',
     ''        Ok(())'',
     ''    }'',
     ''}'',
     ''    '']\<close>

definition tsx_body :: string where
  "tsx_body = join_lines tsx_lines"

definition javascript_body :: string where
  "javascript_body = join_lines javascript_lines"

definition objectivec_body :: string where
  "objectivec_body = join_lines objectivec_lines"

definition rust_body :: string where
  "rust_body = join_lines rust_lines"

definition sampleCode_expr :: expr where
  "sampleCode_expr = EObject
     [PComputed ''TypeScript with React''
        (EObject [PIdent ''language'' (EString ''tsx''), PIdent ''code'' (ETemplate tsx_body)]),
      PComputed ''JavaScript''
        (EObject [PIdent ''language'' (EString ''javascript''),
                  PIdent ''code'' (ETemplate javascript_body)]),
      PComputed ''Objective-C''
        (EObject [PIdent ''language'' (EString ''objectivec''),
                  PIdent ''code'' (ETemplate objectivec_body)]),
      PComputed ''Rust''
        (EObject [PIdent ''language'' (EString ''rust''), PIdent ''code'' (ETemplate rust_body)])]"

definition sampleCode :: "js_error + jsval" where
  "sampleCode = eval_expr sampleCode_expr"

text \<open>The same table as rows of the generic table literal of \<open>Registry\<close>.\<close>

definition sample_rows :: "row list" where
  "sample_rows =
     [(''TypeScript with React'', ''tsx'', tsx_body),
      (''JavaScript'', ''javascript'', javascript_body),
      (''Objective-C'', ''objectivec'', objectivec_body),
      (''Rust'', ''rust'', rust_body)]"

definition sample_labels :: "label list" where
  "sample_labels = [''TypeScript with React'', ''JavaScript'', ''Objective-C'', ''Rust'']"

text \<open>The object \<open>sampleCode\<close> evaluates to.\<close>

definition sample_object :: jsobj where
  "sample_object = JsObj (map row_prop sample_rows) (JObject object_prototype)"

subsection \<open>Facts about the literal, each checked once\<close>

lemma sampleCode_expr_table: "sampleCode_expr = table_literal sample_rows"
  by (simp add: sampleCode_expr_def table_literal_def sample_rows_def row_def_def entry_expr_def)

lemma sample_lines_plain:
  "list_all (list_all plain_char) tsx_lines" "list_all (list_all plain_char) javascript_lines"
  "list_all (list_all plain_char) objectivec_lines" "list_all (list_all plain_char) rust_lines"
  by (simp_all add: tsx_lines_def javascript_lines_def objectivec_lines_def rust_lines_def
      plain_char_def)

lemma sample_bodies_plain:
  "list_all plain_char tsx_body" "list_all plain_char javascript_body"
  "list_all plain_char objectivec_body" "list_all plain_char rust_body"
  by (simp_all add: tsx_body_def javascript_body_def objectivec_body_def rust_body_def
      join_lines_list_all sample_lines_plain plain_lf)

lemma sample_labels_rows [simp]: "map fst sample_rows = sample_labels"
  by (simp add: sample_rows_def sample_labels_def)

lemma sample_labels_distinct: "distinct sample_labels"
  by (simp add: sample_labels_def)

lemma sample_labels_not_index: "\<forall>l \<in> set sample_labels. \<not> is_array_index l"
  by (simp add: sample_labels_def array_index_simps)

lemma sample_rows_plain: "\<forall>(l, lang, body) \<in> set sample_rows. no_escapes body"
  by (simp add: sample_rows_def plain_no_escapes sample_bodies_plain)

lemma sampleCode_value: "sampleCode = Inr (JObject sample_object)"
  using eval_table_literal [OF _ sample_rows_plain] sample_labels_distinct
  by (simp add: sampleCode_def sampleCode_expr_table sample_object_def)

lemma sample_rows_registry:
  "rows_registry sample_rows =
     [(''TypeScript with React'', \<lparr>language = ''tsx'', code = tsx_body\<rparr>),
      (''JavaScript'', \<lparr>language = ''javascript'', code = javascript_body\<rparr>),
      (''Objective-C'', \<lparr>language = ''objectivec'', code = objectivec_body\<rparr>),
      (''Rust'', \<lparr>language = ''rust'', code = rust_body\<rparr>)]"
  by (simp add: rows_registry_def row_entry_def sample_rows_def normalise_eol_no_cr
      plain_no_cr sample_bodies_plain)

lemma sample_lookup: "js_lookup sample_object l = map_of (rows_registry sample_rows) l"
  using js_lookup_table [of sample_rows] sample_labels_distinct
  by (simp add: sample_object_def reg_get_def)

lemma sample_not_own: "l \<notin> set sample_labels \<Longrightarrow> \<not> has_own sample_object l"
  by (simp add: has_own_def sample_object_def)

lemma sample_lines_framed:
  "tsx_lines = [] # butlast (tl tsx_lines) @ [''    ''] \<and> butlast (tl tsx_lines) \<noteq> []"
  "javascript_lines = [] # butlast (tl javascript_lines) @ [''    ''] \<and> butlast (tl javascript_lines) \<noteq> []"
  "objectivec_lines = [] # butlast (tl objectivec_lines) @ [''    ''] \<and> butlast (tl objectivec_lines) \<noteq> []"
  "rust_lines = [] # butlast (tl rust_lines) @ [''    ''] \<and> butlast (tl rust_lines) \<noteq> []"
  by (simp_all add: tsx_lines_def javascript_lines_def objectivec_lines_def rust_lines_def)

lemma framed_body:
  "ls = [] # butlast (tl ls) @ [''    ''] \<and> butlast (tl ls) \<noteq> [] \<Longrightarrow>
     \<exists>mid. join_lines ls = lf_char # mid @ lf_char # ''    ''"
  by (metis join_lines_frame)

lemma sample_bodies_framed:
  "\<exists>mid. tsx_body = lf_char # mid @ lf_char # ''    ''"
  "\<exists>mid. javascript_body = lf_char # mid @ lf_char # ''    ''"
  "\<exists>mid. objectivec_body = lf_char # mid @ lf_char # ''    ''"
  "\<exists>mid. rust_body = lf_char # mid @ lf_char # ''    ''"
  unfolding tsx_body_def javascript_body_def objectivec_body_def rust_body_def
  by (rule framed_body, rule sample_lines_framed)+

lemma sample_lines_text:
  "list_all (list_all text_char) tsx_lines" "list_all (list_all text_char) javascript_lines"
  "list_all (list_all text_char) objectivec_lines" "list_all (list_all text_char) rust_lines"
  by (simp_all add: tsx_lines_def javascript_lines_def objectivec_lines_def rust_lines_def
      text_char_def printable_ascii_def)

lemma sample_bodies_text:
  "list_all text_char tsx_body" "list_all text_char javascript_body"
  "list_all text_char objectivec_body" "list_all text_char rust_body"
  by (simp_all add: tsx_body_def javascript_body_def objectivec_body_def rust_body_def
      join_lines_list_all sample_lines_text text_char_def)

lemma sample_lookup_cases:
  "js_lookup sample_object l = Some e \<Longrightarrow>
     e \<in> {\<lparr>language = ''tsx'', code = tsx_body\<rparr>,
          \<lparr>language = ''javascript'', code = javascript_body\<rparr>,
          \<lparr>language = ''objectivec'', code = objectivec_body\<rparr>,
          \<lparr>language = ''rust'', code = rust_body\<rparr>}"
  by (auto simp: sample_lookup sample_rows_registry split: if_splits)

subsection \<open>Properties\<close>

text \<open>
  C1. Loading the module does not fail, and the exported object, read in
  \<open>Object.keys\<close> order with each entry's \<open>language\<close> and \<open>code\<close>, is exactly
  the four declared rows in declaration order, each code the verbatim text
  between its backticks.
\<close>

theorem sampleCode_registry:
  "\<exists>obj. sampleCode = Inr (JObject obj) \<and>
     registry_of obj = Some
       [(''TypeScript with React'', \<lparr>language = ''tsx'', code = tsx_body\<rparr>),
        (''JavaScript'', \<lparr>language = ''javascript'', code = javascript_body\<rparr>),
        (''Objective-C'', \<lparr>language = ''objectivec'', code = objectivec_body\<rparr>),
        (''Rust'', \<lparr>language = ''rust'', code = rust_body\<rparr>)]"
  using registry_of_table [of sample_rows] sample_labels_distinct sample_labels_not_index
  by (simp add: sampleCode_value sample_object_def sample_rows_registry)

text \<open>
  C3. Lookup of \<open>"Rust"\<close> gives the \<open>rust\<close> entry with the async HTTP client
  snippet, and lookup of \<open>"JavaScript"\<close> the \<open>javascript\<close> entry with the
  Proxy validation snippet (spec section 8, scenarios 1 and 2).
\<close>

theorem sampleCode_get_rust:
  "\<exists>obj. sampleCode = Inr (JObject obj) \<and>
     js_lookup obj ''Rust'' = Some \<lparr>language = ''rust'', code = rust_body\<rparr> \<and>
     js_lookup obj ''JavaScript'' = Some \<lparr>language = ''javascript'', code = javascript_body\<rparr>"
  by (simp add: sampleCode_value sample_lookup sample_rows_registry)

text \<open>
  C4. Own-property lookup of any label that is not one of the four declared
  ones is the absence value, for example \<open>"Swift"\<close> (spec section 8,
  scenario 3).
\<close>

theorem sampleCode_unknown_label:
  "\<exists>obj. sampleCode = Inr (JObject obj) \<and>
     (\<forall>l. l \<notin> set sample_labels \<longrightarrow> js_lookup obj l = None)"
  by (simp add: sampleCode_value sample_lookup sample_rows_registry sample_labels_def)

theorem sampleCode_unknown_label_witness:
  "''Swift'' \<notin> set sample_labels \<and> js_lookup sample_object ''Swift'' = None"
proof -
  have h: "''Swift'' \<notin> set sample_labels"
    by (simp add: sample_labels_def)
  from sampleCode_unknown_label obtain obj where
    "sampleCode = Inr (JObject obj)" and "\<forall>l. l \<notin> set sample_labels \<longrightarrow> js_lookup obj l = None"
    by blast
  with h show ?thesis
    by (simp add: sampleCode_value)
qed

text \<open>
  C5. Every entry found by lookup has one of the four language tags, a
  non-empty code, and a code made only of printable ASCII characters and line
  feeds.
\<close>

theorem sampleCode_entries_shape:
  "\<exists>obj. sampleCode = Inr (JObject obj) \<and>
     (\<forall>l e. js_lookup obj l = Some e \<longrightarrow>
        language e \<in> {''tsx'', ''javascript'', ''objectivec'', ''rust''} \<and>
        code e \<noteq> [] \<and> list_all text_char (code e))"
proof -
  have "language e \<in> {''tsx'', ''javascript'', ''objectivec'', ''rust''} \<and>
        code e \<noteq> [] \<and> list_all text_char (code e)"
    if "js_lookup sample_object l = Some e" for l e
    using sample_lookup_cases [OF that] sample_bodies_framed sample_bodies_text by auto
  then show ?thesis
    by (simp add: sampleCode_value)
qed

theorem sampleCode_entries_shape_witness:
  "js_lookup sample_object ''Objective-C'' = Some \<lparr>language = ''objectivec'', code = objectivec_body\<rparr>
   \<and> objectivec_body \<noteq> [] \<and> list_all text_char objectivec_body"
proof -
  have h: "js_lookup sample_object ''Objective-C''
      = Some \<lparr>language = ''objectivec'', code = objectivec_body\<rparr>"
    by (simp add: sample_lookup sample_rows_registry)
  from sampleCode_entries_shape obtain obj where
    o: "sampleCode = Inr (JObject obj)"
    and all: "\<forall>l e. js_lookup obj l = Some e \<longrightarrow>
        language e \<in> {''tsx'', ''javascript'', ''objectivec'', ''rust''} \<and>
        code e \<noteq> [] \<and> list_all text_char (code e)"
    by blast
  from o have "obj = sample_object"
    by (simp add: sampleCode_value)
  with all h have "code \<lparr>language = ''objectivec'', code = objectivec_body\<rparr> \<noteq> []
      \<and> list_all text_char (code \<lparr>language = ''objectivec'', code = objectivec_body\<rparr>)"
    by blast
  with h show ?thesis
    by simp
qed

text \<open>
  C6. The whitespace of the template literals is kept: every code starts
  with the line feed that follows its opening backtick and ends with a line
  feed and the four spaces of indentation before its closing backtick.
\<close>

theorem sampleCode_whitespace:
  "\<exists>obj. sampleCode = Inr (JObject obj) \<and>
     (\<forall>l e. js_lookup obj l = Some e \<longrightarrow> (\<exists>mid. code e = lf_char # mid @ lf_char # ''    ''))"
proof -
  have "\<exists>mid. code e = lf_char # mid @ lf_char # ''    ''"
    if "js_lookup sample_object l = Some e" for l e
    using sample_lookup_cases [OF that] sample_bodies_framed by auto
  then show ?thesis
    by (simp add: sampleCode_value)
qed

theorem sampleCode_whitespace_witness:
  "js_lookup sample_object ''TypeScript with React'' = Some \<lparr>language = ''tsx'', code = tsx_body\<rparr>
   \<and> (\<exists>mid. tsx_body = lf_char # mid @ lf_char # ''    '')"
proof -
  have h: "js_lookup sample_object ''TypeScript with React''
      = Some \<lparr>language = ''tsx'', code = tsx_body\<rparr>"
    by (simp add: sample_lookup sample_rows_registry)
  from sampleCode_whitespace obtain obj where
    o: "sampleCode = Inr (JObject obj)"
    and all: "\<forall>l e. js_lookup obj l = Some e \<longrightarrow> (\<exists>mid. code e = lf_char # mid @ lf_char # ''    '')"
    by blast
  from o have "obj = sample_object"
    by (simp add: sampleCode_value)
  with all h have "\<exists>mid. code \<lparr>language = ''tsx'', code = tsx_body\<rparr> = lf_char # mid @ lf_char # ''    ''"
    by blast
  with h show ?thesis
    by simp
qed

text \<open>
  Witness of C2: the refinement theorem applied to the rows of the source
  table.
\<close>

theorem table_literal_refines_witness:
  "distinct (map fst sample_rows)
   \<and> list_all (\<lambda>l. \<not> is_array_index l) (map fst sample_rows)
   \<and> registry_of sample_object = Some (rows_registry sample_rows)
   \<and> build_registry (rows_registry sample_rows) = Inr (rows_registry sample_rows)"
proof -
  have h1: "distinct (map fst sample_rows)"
    by (simp add: sample_labels_distinct)
  have h2: "\<forall>l \<in> set (map fst sample_rows). \<not> is_array_index l"
    by (simp add: sample_labels_not_index)
  from table_literal_refines [OF h1 h2 sample_rows_plain] obtain obj where
    "eval_expr (table_literal sample_rows) = Inr (JObject obj)"
    and "registry_of obj = Some (rows_registry sample_rows)"
    and "build_registry (rows_registry sample_rows) = Inr (rows_registry sample_rows)"
    by blast
  then show ?thesis
    using h1 h2 sampleCode_value
    by (simp add: sampleCode_def sampleCode_expr_table list_all_iff)
qed

end
