(* ===== verification/Store.thy ===== *)
theory Store
  imports ObjectLiteral "HOL-Library.Monad_Syntax"
begin

text \<open>
  The object store behind the exported constant: \<open>sampleCode\<close> is not a value
  but a reference to an ordinary object that lives in the realm's heap, shared
  by every module that imports it.  This theory models that heap (a store of
  objects addressed by reference) and the internal methods that read and
  change it (ECMAScript 10.1): allocation (OrdinaryObjectCreate),
  CreateDataProperty, Get, Set with its receiver, SetPrototypeOf with its
  cycle check, and the two operations of strict code that call them,
  assignment \<open>o[k] = v\<close> (PutValue) and \<open>Object.setPrototypeOf\<close>.

  A store is a list of objects; a reference is an index into it, so
  allocation appends and the references handed out so far stay valid.  An
  object has its own properties in creation order, each a data property with
  its attributes or the \<open>__proto__\<close> accessor of \<open>Object.prototype\<close>
  (B.2.2.1), its prototype, its extensible flag, and whether it is an
  immutable-prototype exotic object (10.4.7), which \<open>Object.prototype\<close> is.
  \<open>Object.prototype\<close> sits at reference 0.

  Get, Set and the cycle check of SetPrototypeOf walk the prototype chain,
  a loop that ends only when the chain has no cycle: they are
  \<open>partial_function (option)\<close> definitions, and \<open>None\<close> is "does not
  return" (or a dangling reference).  That they return on every store a
  program can reach is proved in \<open>StoreWf\<close>.
\<close>

type_synonym ref = nat

datatype hval =
    HUndefined
  | HNull
  | HString string
  | HBuiltin string
  | HRef ref

text \<open>A property: data with value, writable, enumerable, configurable; or the accessor.\<close>

datatype hprop =
    HData hval bool bool bool
  | HProtoAccessor bool

record hobj =
  hprops :: "(string \<times> hprop) list"
  hproto :: hval
  hextensible :: bool
  himmutable_proto :: bool

type_synonym store = "hobj list"

definition obj_at :: "store \<Rightarrow> ref \<Rightarrow> hobj option" where
  "obj_at st a = (if a < length st then Some (st ! a) else None)"

definition is_object_or_null :: "hval \<Rightarrow> bool" where
  "is_object_or_null v = (case v of HRef _ \<Rightarrow> True | HNull \<Rightarrow> True | _ \<Rightarrow> False)"

definition prop_configurable :: "hprop \<Rightarrow> bool" where
  "prop_configurable p = (case p of HData _ _ _ c \<Rightarrow> c | HProtoAccessor c \<Rightarrow> c)"

definition prop_enumerable :: "hprop \<Rightarrow> bool" where
  "prop_enumerable p = (case p of HData _ _ e _ \<Rightarrow> e | HProtoAccessor _ \<Rightarrow> False)"

subsection \<open>The initial store\<close>

text \<open>
  A value of the tree model that \<open>Object.prototype\<close> holds: built-in
  functions and primitives, never an object.
\<close>

fun prim_hval :: "jsval \<Rightarrow> hval" where
  "prim_hval JUndefined = HUndefined"
| "prim_hval JNull = HNull"
| "prim_hval (JString s) = HString s"
| "prim_hval (JBuiltin f) = HBuiltin f"
| "prim_hval (JObject _) = HUndefined"

text \<open>
  A built-in property of \<open>Object.prototype\<close>: writable, not enumerable,
  configurable (ECMAScript 18), and the \<open>__proto__\<close> accessor.
\<close>

fun builtin_hprop :: "jsprop \<Rightarrow> hprop" where
  "builtin_hprop (DataProp v) = HData (prim_hval v) True False True"
| "builtin_hprop ProtoAccessor = HProtoAccessor True"

definition object_prototype_obj :: hobj where
  "object_prototype_obj =
     \<lparr>hprops = map (\<lambda>(k, p). (k, builtin_hprop p)) (obj_props object_prototype),
      hproto = HNull, hextensible = True, himmutable_proto = True\<rparr>"

definition init_store :: store where
  "init_store = [object_prototype_obj]"

subsection \<open>Allocation and own properties\<close>

text \<open>OrdinaryObjectCreate(\<open>%Object.prototype%\<close>): a fresh reference.\<close>

definition new_hobj :: hobj where
  "new_hobj = \<lparr>hprops = [], hproto = HRef 0, hextensible = True, himmutable_proto = False\<rparr>"

definition h_new_object :: "store \<Rightarrow> ref \<times> store" where
  "h_new_object st = (length st, st @ [new_hobj])"

text \<open>
  CreateDataProperty(O, P, V): ValidateAndApplyPropertyDescriptor with the
  descriptor of a writable, enumerable, configurable data property.  An absent
  key is appended if the object is extensible; a present key is replaced in
  place if it is configurable; otherwise the result is \<open>false\<close>.
\<close>

definition h_create_data_property :: "store \<Rightarrow> ref \<Rightarrow> string \<Rightarrow> hval \<Rightarrow> (bool \<times> store) option" where
  "h_create_data_property st a k v =
     (case obj_at st a of
        None \<Rightarrow> None
      | Some ob \<Rightarrow>
          (let st' = st[a := ob\<lparr>hprops := AList.update k (HData v True True True) (hprops ob)\<rparr>]
           in case map_of (hprops ob) k of
                None \<Rightarrow> Some (if hextensible ob then (True, st') else (False, st))
              | Some p \<Rightarrow> Some (if prop_configurable p then (True, st') else (False, st))))"

subsection \<open>Walking the prototype chain\<close>

text \<open>
  OrdinaryGet(O, P, Receiver): an own data property gives its value; the
  \<open>__proto__\<close> accessor calls its getter on the receiver, which returns the
  receiver's prototype; an absent key is looked up in the prototype, up to
  \<open>null\<close>.
\<close>

partial_function (option) h_get :: "store \<Rightarrow> ref \<Rightarrow> string \<Rightarrow> ref \<Rightarrow> hval option" where
  "h_get st a k recv =
     (case obj_at st a of
        None \<Rightarrow> None
      | Some ob \<Rightarrow>
          (case map_of (hprops ob) k of
             Some (HData v _ _ _) \<Rightarrow> Some v
           | Some (HProtoAccessor _) \<Rightarrow> map_option hproto (obj_at st recv)
           | None \<Rightarrow> (case hproto ob of HRef p \<Rightarrow> h_get st p k recv | _ \<Rightarrow> Some HUndefined)))"

text \<open>The loop of OrdinarySetPrototypeOf, step 8: is \<open>a\<close> on the chain from \<open>p\<close>?\<close>

partial_function (option) proto_chain_has :: "store \<Rightarrow> hval \<Rightarrow> ref \<Rightarrow> bool option" where
  "proto_chain_has st p a =
     (case p of
        HRef b \<Rightarrow>
          if b = a then Some True
          else (case obj_at st b of None \<Rightarrow> None | Some ob \<Rightarrow> proto_chain_has st (hproto ob) a)
      | _ \<Rightarrow> Some False)"

text \<open>
  The internal method SetPrototypeOf, for an object or \<open>null\<close>: the
  immutable-prototype \<open>Object.prototype\<close> accepts only its current prototype
  (SetImmutablePrototype); an ordinary object accepts its current prototype,
  refuses when it is not extensible or when it is itself on the new chain,
  and otherwise takes the new prototype (OrdinarySetPrototypeOf).
\<close>

definition h_set_prototype_of :: "store \<Rightarrow> ref \<Rightarrow> hval \<Rightarrow> (bool \<times> store) option" where
  "h_set_prototype_of st a v =
     (case obj_at st a of
        None \<Rightarrow> None
      | Some ob \<Rightarrow>
          if himmutable_proto ob then Some (v = hproto ob, st)
          else if v = hproto ob then Some (True, st)
          else if \<not> hextensible ob then Some (False, st)
          else do {
            cyc \<leftarrow> proto_chain_has st v a;
            Some (if cyc then (False, st) else (True, st[a := ob\<lparr>hproto := v\<rparr>]))
          })"

text \<open>
  OrdinarySetWithOwnDescriptor, steps 2.c to 2.e: the property is set on the
  receiver, replacing the value of a writable own data property, failing on a
  read-only one or an accessor, and creating it when absent.
\<close>

definition set_on_receiver :: "store \<Rightarrow> string \<Rightarrow> hval \<Rightarrow> ref \<Rightarrow> (bool \<times> store) option" where
  "set_on_receiver st k v recv =
     (case obj_at st recv of
        None \<Rightarrow> None
      | Some ob \<Rightarrow>
          (case map_of (hprops ob) k of
             Some (HData _ w e c) \<Rightarrow>
               if w then Some (True, st[recv := ob\<lparr>hprops := AList.update k (HData v w e c) (hprops ob)\<rparr>])
               else Some (False, st)
           | Some (HProtoAccessor _) \<Rightarrow> Some (False, st)
           | None \<Rightarrow> h_create_data_property st recv k v))"

text \<open>
  The setter of \<open>Object.prototype.__proto__\<close> (B.2.2.1.2) called on the
  receiver: a value that is neither an object nor \<open>null\<close> is ignored, a refused
  SetPrototypeOf throws a TypeError.
\<close>

definition proto_setter :: "store \<Rightarrow> ref \<Rightarrow> hval \<Rightarrow> (js_error + bool \<times> store) option" where
  "proto_setter st recv v =
     (if \<not> is_object_or_null v then Some (Inr (True, st))
      else do {
        (ok, st') \<leftarrow> h_set_prototype_of st recv v;
        Some (if ok then Inr (True, st') else Inl TypeError)
      })"

text \<open>
  OrdinarySet(O, P, V, Receiver): find the property along the prototype
  chain; a writable data property (or none at all) is set on the receiver, a
  read-only one makes the result \<open>false\<close>, the accessor calls its setter.
\<close>

partial_function (option) h_set ::
  "store \<Rightarrow> ref \<Rightarrow> string \<Rightarrow> hval \<Rightarrow> ref \<Rightarrow> (js_error + bool \<times> store) option" where
  "h_set st a k v recv =
     (case obj_at st a of
        None \<Rightarrow> None
      | Some ob \<Rightarrow>
          (case map_of (hprops ob) k of
             None \<Rightarrow>
               (case hproto ob of
                  HRef p \<Rightarrow> h_set st p k v recv
                | _ \<Rightarrow> map_option Inr (set_on_receiver st k v recv))
           | Some (HData _ w _ _) \<Rightarrow>
               if w then map_option Inr (set_on_receiver st k v recv) else Some (Inr (False, st))
           | Some (HProtoAccessor _) \<Rightarrow> proto_setter st recv v))"

subsection \<open>Operations of strict code\<close>

text \<open>
  The assignment \<open>o[k] = v\<close> in a module (strict code, PutValue): Set with
  the object as receiver, and a \<open>false\<close> result is a TypeError.
\<close>

definition h_assign :: "store \<Rightarrow> ref \<Rightarrow> string \<Rightarrow> hval \<Rightarrow> (js_error + store) option" where
  "h_assign st a k v =
     (case h_set st a k v a of
        None \<Rightarrow> None
      | Some (Inl err) \<Rightarrow> Some (Inl err)
      | Some (Inr (ok, st')) \<Rightarrow> Some (if ok then Inr st' else Inl TypeError))"

text \<open>\<open>Object.setPrototypeOf(o, v)\<close> on an object \<open>o\<close> (20.1.2.23).\<close>

definition object_set_prototype_of :: "store \<Rightarrow> ref \<Rightarrow> hval \<Rightarrow> (js_error + store) option" where
  "object_set_prototype_of st a v =
     (if \<not> is_object_or_null v then Some (Inl TypeError)
      else do {
        (ok, st') \<leftarrow> h_set_prototype_of st a v;
        Some (if ok then Inr st' else Inl TypeError)
      })"

text \<open>Property access \<open>o[k]\<close> on an object: Get with the object as receiver.\<close>

definition h_js_get :: "store \<Rightarrow> ref \<Rightarrow> string \<Rightarrow> hval option" where
  "h_js_get st a k = h_get st a k a"

text \<open>\<open>Object.keys(o)\<close>: the enumerable own keys in OrdinaryOwnPropertyKeys order.\<close>

definition h_object_keys :: "store \<Rightarrow> ref \<Rightarrow> string list option" where
  "h_object_keys st a =
     map_option (\<lambda>ob. filter (\<lambda>k. case map_of (hprops ob) k of Some p \<Rightarrow> prop_enumerable p | None \<Rightarrow> False)
                              (ordered_keys (map fst (hprops ob))))
                (obj_at st a)"

end
