(* ===== verification/StoreWf.thy ===== *)
theory StoreWf
  imports Store
begin

text \<open>
  The invariant of the object store and why the prototype-chain walks of
  \<open>Store\<close> return.  A store is well formed when every reference it holds
  points into it, no object has a key twice, \<open>Object.prototype\<close> is at
  reference 0 with prototype \<open>null\<close> and an immutable prototype, and the
  prototype edges have no cycle.  On such a store Get, Set and the cycle check
  of SetPrototypeOf return (well-founded induction along the chain), and
  every operation of \<open>Store\<close> keeps the store well formed.
\<close>

fun hval_refs :: "hval \<Rightarrow> ref list" where
  "hval_refs (HRef a) = [a]"
| "hval_refs _ = []"

fun hprop_refs :: "hprop \<Rightarrow> ref list" where
  "hprop_refs (HData v _ _ _) = hval_refs v"
| "hprop_refs (HProtoAccessor _) = []"

definition hobj_refs :: "hobj \<Rightarrow> ref list" where
  "hobj_refs ob = hval_refs (hproto ob) @ concat (map (hprop_refs \<circ> snd) (hprops ob))"

definition closed_val :: "store \<Rightarrow> hval \<Rightarrow> bool" where
  "closed_val st v = list_all (\<lambda>b. b < length st) (hval_refs v)"

definition store_closed :: "store \<Rightarrow> bool" where
  "store_closed st = list_all (\<lambda>ob. list_all (\<lambda>b. b < length st) (hobj_refs ob)) st"

text \<open>The prototype edges: \<open>(a, b)\<close> when the prototype of object \<open>a\<close> is object \<open>b\<close>.\<close>

definition proto_edges :: "store \<Rightarrow> (ref \<times> ref) set" where
  "proto_edges st = {(a, b). a < length st \<and> hproto (st ! a) = HRef b}"

definition keys_distinct :: "store \<Rightarrow> bool" where
  "keys_distinct st = list_all (\<lambda>ob. distinct (map fst (hprops ob))) st"

definition object_prototype_ok :: "store \<Rightarrow> bool" where
  "object_prototype_ok st \<longleftrightarrow>
     st \<noteq> [] \<and> hproto (st ! 0) = HNull \<and> himmutable_proto (st ! 0)"

definition store_wf :: "store \<Rightarrow> bool" where
  "store_wf st \<longleftrightarrow>
     store_closed st \<and> keys_distinct st \<and> object_prototype_ok st \<and> acyclic (proto_edges st)"

subsection \<open>Edges, references and updates\<close>

lemma proto_edges_iff:
  "(a, b) \<in> proto_edges st \<longleftrightarrow> a < length st \<and> hproto (st ! a) = HRef b"
  by (simp add: proto_edges_def)

lemma finite_proto_edges [simp]: "finite (proto_edges st)"
proof (rule finite_subset)
  show "proto_edges st \<subseteq> (\<lambda>a. (a, case hproto (st ! a) of HRef b \<Rightarrow> b | _ \<Rightarrow> 0)) ` {..<length st}"
    by (auto simp: proto_edges_iff image_iff)
qed simp

lemma proto_edges_update:
  assumes "a < length st"
  shows "proto_edges (st[a := ob]) =
           {(x, y). (x, y) \<in> proto_edges st \<and> x \<noteq> a} \<union>
           {(a, y) | y. hproto ob = HRef y}"
  using assms by (auto simp: proto_edges_iff nth_list_update split: if_splits)

lemma proto_edges_update_same [simp]:
  "hproto ob = hproto (st ! a) \<Longrightarrow> proto_edges (st[a := ob]) = proto_edges st"
  by (cases "a < length st") (auto simp: proto_edges_iff nth_list_update split: if_splits)

lemma obj_at_Some [simp]: "obj_at st a = Some ob \<longleftrightarrow> a < length st \<and> ob = st ! a"
  by (auto simp: obj_at_def)

lemma obj_at_None [simp]: "obj_at st a = None \<longleftrightarrow> length st \<le> a"
  by (simp add: obj_at_def)

lemma store_closed_nth:
  "store_closed st \<Longrightarrow> a < length st \<Longrightarrow> b \<in> set (hobj_refs (st ! a)) \<Longrightarrow> b < length st"
  by (auto simp: store_closed_def list_all_iff)

lemma proto_edge_closed:
  "store_closed st \<Longrightarrow> (a, b) \<in> proto_edges st \<Longrightarrow> b < length st"
  by (auto simp: proto_edges_iff hobj_refs_def intro: store_closed_nth)

lemma store_closed_update:
  assumes "store_closed st" and "a < length st"
    and "list_all (\<lambda>b. b < length st) (hobj_refs ob)"
  shows "store_closed (st[a := ob])"
proof -
  have "x \<in> set (st[a := ob]) \<Longrightarrow> x = ob \<or> x \<in> set st" for x
    using set_update_subset_insert [of st a ob] by blast
  with assms show ?thesis
    by (auto simp: store_closed_def list_all_iff)
qed

lemma keys_distinct_update:
  assumes "keys_distinct st" and "distinct (map fst (hprops ob))"
  shows "keys_distinct (st[a := ob])"
proof -
  have "x \<in> set (st[a := ob]) \<Longrightarrow> x = ob \<or> x \<in> set st" for x
    using set_update_subset_insert [of st a ob] by blast
  with assms show ?thesis
    by (auto simp: keys_distinct_def list_all_iff)
qed

lemma object_prototype_ok_update:
  assumes "object_prototype_ok st"
    and "hproto ob = hproto (st ! a)" and "himmutable_proto ob = himmutable_proto (st ! a)"
  shows "object_prototype_ok (st[a := ob])"
  using assms by (cases a) (auto simp: object_prototype_ok_def nth_list_update)

lemma hobj_refs_update_props:
  "set (hobj_refs (ob\<lparr>hprops := AList.update k (HData v w e c) (hprops ob)\<rparr>))
     \<subseteq> set (hobj_refs ob) \<union> set (hval_refs v)"
  using set_update_subset [of k "HData v w e c" "hprops ob"]
  by (auto simp: hobj_refs_def)

text \<open>Replacing or adding one data property keeps a store well formed.\<close>

lemma store_wf_update_props:
  assumes wf: "store_wf st" and a: "a < length st" and v: "closed_val st v"
  shows "store_wf (st[a := (st ! a)\<lparr>hprops := AList.update k (HData v w e c) (hprops (st ! a))\<rparr>])"
proof -
  let ?ob = "(st ! a)\<lparr>hprops := AList.update k (HData v w e c) (hprops (st ! a))\<rparr>"
  have "list_all (\<lambda>b. b < length st) (hobj_refs ?ob)"
    using hobj_refs_update_props [of k v w e c "st ! a"] wf a v
    by (auto simp: list_all_iff closed_val_def store_wf_def dest: store_closed_nth)
  moreover have "distinct (map fst (hprops ?ob))"
    using wf a by (auto simp: store_wf_def keys_distinct_def list_all_iff)
  ultimately show ?thesis
    using wf a by (simp add: store_wf_def store_closed_update keys_distinct_update
        object_prototype_ok_update)
qed

text \<open>
  Replacing an object by one with the same prototype, no new references and
  distinct keys keeps a store well formed.
\<close>

lemma store_wf_update_same_proto:
  assumes wf: "store_wf st" and a: "a < length st"
    and p: "hproto ob = hproto (st ! a)" and m: "himmutable_proto ob = himmutable_proto (st ! a)"
    and refs: "set (hobj_refs ob) \<subseteq> set (hobj_refs (st ! a))"
    and d: "distinct (map fst (hprops ob))"
  shows "store_wf (st[a := ob])"
proof -
  have "list_all (\<lambda>b. b < length st) (hobj_refs ob)"
    using refs wf a by (auto simp: list_all_iff store_wf_def dest: store_closed_nth)
  with wf a d p m show ?thesis
    by (simp add: store_wf_def store_closed_update keys_distinct_update object_prototype_ok_update)
qed

subsection \<open>The chain walks return on a well-formed store\<close>

text \<open>
  Induction along the prototype chain: on a closed store whose prototype
  edges have no cycle, a property that holds of an object whenever it holds
  of its prototype holds of every object.
\<close>

lemma proto_chain_has_HRef:
  "proto_chain_has st (HRef b) a =
     (if b = a then Some True
      else case obj_at st b of None \<Rightarrow> None | Some ob \<Rightarrow> proto_chain_has st (hproto ob) a)"
  by (subst proto_chain_has.simps) simp

lemma proto_chain_has_nonref: "hval_refs v = [] \<Longrightarrow> proto_chain_has st v a = Some False"
  by (subst proto_chain_has.simps) (cases v; simp)

lemma chain_induct [consumes 3, case_names step]:
  assumes "store_closed st" and "acyclic (proto_edges st)" and "a < length st"
    and step: "\<And>a. a < length st \<Longrightarrow> (\<And>p. hproto (st ! a) = HRef p \<Longrightarrow> P p) \<Longrightarrow> P a"
  shows "P a"
  using assms(3)
proof (induction a rule: wf_induct_rule [OF finite_acyclic_wf_converse [OF finite_proto_edges assms(2)]])
  case (1 a)
  show ?case
  proof (rule step [OF "1.prems"])
    fix p
    assume "hproto (st ! a) = HRef p"
    with "1.prems" have "(a, p) \<in> proto_edges st"
      by (simp add: proto_edges_iff)
    with assms(1) show "P p"
      by (auto intro: "1.IH" dest: proto_edge_closed)
  qed
qed

lemma h_get_returns:
  assumes "store_closed st" "acyclic (proto_edges st)" "a < length st" "recv < length st"
  shows "\<exists>v. h_get st a k recv = Some v"
  using assms(1-3)
proof (induction rule: chain_induct)
  case (step a)
  then show ?case
    using assms(4)
    by (subst h_get.simps) (auto split: option.split hprop.split hval.split)
qed

lemma proto_chain_has_returns:
  assumes "store_closed st" "acyclic (proto_edges st)" "closed_val st v"
  shows "\<exists>r. proto_chain_has st v a = Some r"
proof (cases v)
  case (HRef b)
  with assms(3) have "b < length st"
    by (simp add: closed_val_def)
  with assms(1,2) have "\<exists>r. proto_chain_has st (HRef b) a = Some r"
  proof (induction rule: chain_induct)
    case (step b)
    then show ?case
      by (cases "hproto (st ! b)") (auto simp: proto_chain_has_HRef proto_chain_has_nonref obj_at_def)
  qed
  with HRef show ?thesis
    by simp
qed (auto simp: proto_chain_has_nonref)

text \<open>
  What the cycle check finds: \<open>false\<close> means that \<open>a\<close> is not on the
  chain from \<open>v\<close>, \<open>true\<close> that it is.
\<close>

lemma proto_chain_has_False:
  assumes ret: "proto_chain_has st v a = Some False" and v: "v = HRef b"
  shows "(b, a) \<notin> (proto_edges st)\<^sup>*"
proof -
  have "False = False \<longrightarrow> (\<forall>b. v = HRef b \<longrightarrow> (b, a) \<notin> (proto_edges st)\<^sup>*)"
  proof (rule proto_chain_has.raw_induct
      [where P = "\<lambda>st v a r. r = False \<longrightarrow> (\<forall>b. v = HRef b \<longrightarrow> (b, a) \<notin> (proto_edges st)\<^sup>*)",
       OF _ ret])
    fix f st v a r
    assume IH: "\<And>st v a r. f st v a = Some r \<Longrightarrow>
                  r = False \<longrightarrow> (\<forall>b. v = HRef b \<longrightarrow> (b, a) \<notin> (proto_edges st)\<^sup>*)"
      and eq: "(case v of
                  HRef b \<Rightarrow>
                    if b = a then Some True
                    else case obj_at st b of None \<Rightarrow> None | Some ob \<Rightarrow> f st (hproto ob) a
                | _ \<Rightarrow> Some False) = Some r"
    show "r = False \<longrightarrow> (\<forall>b. v = HRef b \<longrightarrow> (b, a) \<notin> (proto_edges st)\<^sup>*)"
    proof (intro impI allI)
      fix b
      assume r: "r = False" and v: "v = HRef b"
      with eq have ba: "b \<noteq> a" and "b < length st"
        and fn: "f st (hproto (st ! b)) a = Some False"
        by (auto simp: obj_at_def split: if_splits)
      show "(b, a) \<notin> (proto_edges st)\<^sup>*"
      proof
        assume "(b, a) \<in> (proto_edges st)\<^sup>*"
        with ba obtain c where "(b, c) \<in> proto_edges st" and "(c, a) \<in> (proto_edges st)\<^sup>*"
          by (auto elim: converse_rtranclE)
        then show False
          using IH [OF fn] by (auto simp: proto_edges_iff)
      qed
    qed
  qed
  with v show ?thesis
    by simp
qed

subsection \<open>The operations keep the store well formed\<close>

lemma acyclic_set_proto:
  assumes acy: "acyclic (proto_edges st)" and a: "a < length st"
    and chk: "proto_chain_has st v a = Some False"
  shows "acyclic (proto_edges (st[a := (st ! a)\<lparr>hproto := v\<rparr>]))"
proof -
  let ?E0 = "{(x, y). (x, y) \<in> proto_edges st \<and> x \<noteq> a}"
  have sub: "?E0 \<subseteq> proto_edges st"
    by auto
  have acy0: "acyclic ?E0"
    using acy sub by (rule acyclic_subset)
  show ?thesis
  proof (cases v)
    case (HRef p)
    have "(p, a) \<notin> ?E0\<^sup>*"
      using proto_chain_has_False [OF chk HRef] rtrancl_mono [OF sub] by blast
    with acy0 have "acyclic (insert (a, p) ?E0)"
      by simp
    moreover have "proto_edges (st[a := (st ! a)\<lparr>hproto := v\<rparr>]) = insert (a, p) ?E0"
      using a HRef by (auto simp: proto_edges_update)
    ultimately show ?thesis
      by simp
  qed (use a acy0 in \<open>simp add: proto_edges_update\<close>)+
qed

lemma store_closed_set_proto:
  assumes "store_closed st" and "a < length st" and "closed_val st v"
  shows "store_closed (st[a := (st ! a)\<lparr>hproto := v\<rparr>])"
proof (rule store_closed_update [OF assms(1,2)])
  have "set (hobj_refs ((st ! a)\<lparr>hproto := v\<rparr>)) \<subseteq> set (hobj_refs (st ! a)) \<union> set (hval_refs v)"
    by (auto simp: hobj_refs_def)
  with assms show "list_all (\<lambda>b. b < length st) (hobj_refs ((st ! a)\<lparr>hproto := v\<rparr>))"
    by (auto simp: list_all_iff closed_val_def dest: store_closed_nth)
qed

lemma store_wf_set_prototype_of:
  assumes wf: "store_wf st" and v: "closed_val st v"
    and ret: "h_set_prototype_of st a v = Some (ok, st')"
  shows "store_wf st' \<and> length st' = length st"
proof -
  from ret have a: "a < length st"
    by (auto simp: h_set_prototype_of_def obj_at_def split: if_splits)
  show ?thesis
  proof (cases "st' = st")
    case False
    with ret a have mut: "\<not> himmutable_proto (st ! a)"
      and chk: "proto_chain_has st v a = Some False"
      and st': "st' = st[a := (st ! a)\<lparr>hproto := v\<rparr>]"
      by (auto simp: h_set_prototype_of_def obj_at_def split: if_splits bool.splits Option.bind_splits)
    from wf mut have "a \<noteq> 0"
      by (cases a) (auto simp: store_wf_def object_prototype_ok_def)
    with wf a have "object_prototype_ok st'"
      by (auto simp: st' store_wf_def object_prototype_ok_def)
    moreover have "keys_distinct st'"
      unfolding st' using wf a
      by (intro keys_distinct_update) (auto simp: store_wf_def keys_distinct_def list_all_iff)
    moreover have "store_closed st'" and "acyclic (proto_edges st')"
      using wf a v chk by (simp_all add: st' store_wf_def store_closed_set_proto acyclic_set_proto)
    ultimately show ?thesis
      by (simp add: store_wf_def st')
  qed (use wf in simp)
qed

lemma store_wf_create_data_property:
  assumes "store_wf st" and "closed_val st v"
    and "h_create_data_property st a k v = Some (ok, st')"
  shows "store_wf st' \<and> length st' = length st"
  using assms store_wf_update_props [of st a v k True True True]
  by (auto simp: h_create_data_property_def obj_at_def Let_def split: if_splits option.splits)

lemma store_wf_set_on_receiver:
  assumes wf: "store_wf st" and v: "closed_val st v"
    and ret: "set_on_receiver st k v recv = Some (ok, st')"
  shows "store_wf st' \<and> length st' = length st"
proof (cases "map_of (hprops (st ! recv)) k")
  case None
  with ret have "h_create_data_property st recv k v = Some (ok, st')"
    by (auto simp: set_on_receiver_def obj_at_def split: if_splits)
  then show ?thesis
    by (rule store_wf_create_data_property [OF wf v])
next
  case (Some p)
  with ret wf v show ?thesis
    using store_wf_update_props [of st recv v k]
    by (cases p) (auto simp: set_on_receiver_def obj_at_def split: if_splits)
qed

lemma store_wf_proto_setter:
  assumes wf: "store_wf st" and v: "closed_val st v"
    and ret: "proto_setter st recv v = Some (Inr (ok, st'))"
  shows "store_wf st' \<and> length st' = length st"
proof (cases "is_object_or_null v")
  case True
  with ret obtain ok' where "h_set_prototype_of st recv v = Some (ok', st')"
    by (auto simp: proto_setter_def split: if_splits Option.bind_splits prod.splits)
  then show ?thesis
    by (rule store_wf_set_prototype_of [OF wf v])
next
  case False
  with ret wf show ?thesis
    by (simp add: proto_setter_def)
qed

text \<open>
  What a Set that returns did: the walk itself writes nothing, so the store
  is unchanged, or it is the receiver's write, or the \<open>__proto__\<close> setter's.
\<close>

lemma h_set_result:
  assumes ret: "h_set st a k v recv = Some r" and r: "r = Inr (ok, st')"
  shows "st' = st \<or> set_on_receiver st k v recv = Some (ok, st')
           \<or> proto_setter st recv v = Some (Inr (ok, st'))"
proof -
  have "\<forall>ok st'. r = Inr (ok, st') \<longrightarrow> st' = st \<or> set_on_receiver st k v recv = Some (ok, st')
          \<or> proto_setter st recv v = Some (Inr (ok, st'))"
  proof (rule h_set.raw_induct
      [where P = "\<lambda>st a k v recv r. \<forall>ok st'. r = Inr (ok, st') \<longrightarrow>
                    st' = st \<or> set_on_receiver st k v recv = Some (ok, st')
                    \<or> proto_setter st recv v = Some (Inr (ok, st'))",
       OF _ ret])
    fix f st a k v recv r
    assume IH: "\<And>st a k v recv r. f st a k v recv = Some r \<Longrightarrow>
                  \<forall>ok st'. r = Inr (ok, st') \<longrightarrow> st' = st \<or> set_on_receiver st k v recv = Some (ok, st')
                    \<or> proto_setter st recv v = Some (Inr (ok, st'))"
      and eq: "(case obj_at st a of
                  None \<Rightarrow> None
                | Some ob \<Rightarrow>
                    (case map_of (hprops ob) k of
                       None \<Rightarrow>
                         (case hproto ob of
                            HRef p \<Rightarrow> f st p k v recv
                          | _ \<Rightarrow> map_option Inr (set_on_receiver st k v recv))
                     | Some (HData _ w _ _) \<Rightarrow>
                         if w then map_option Inr (set_on_receiver st k v recv) else Some (Inr (False, st))
                     | Some (HProtoAccessor _) \<Rightarrow> proto_setter st recv v)) = Some r"
    have "(\<exists>p. f st p k v recv = Some r)
        \<or> (\<exists>x. r = Inr x \<and> set_on_receiver st k v recv = Some x)
        \<or> r = Inr (False, st) \<or> proto_setter st recv v = Some r"
      using eq by (auto simp: obj_at_def split: if_splits option.splits hprop.splits hval.splits)
    then show "\<forall>ok st'. r = Inr (ok, st') \<longrightarrow> st' = st \<or> set_on_receiver st k v recv = Some (ok, st')
                 \<or> proto_setter st recv v = Some (Inr (ok, st'))"
    proof (elim disjE exE conjE; intro allI impI)
      fix p ok st'
      assume "f st p k v recv = Some r" and "r = Inr (ok, st')"
      with IH show "st' = st \<or> set_on_receiver st k v recv = Some (ok, st')
                    \<or> proto_setter st recv v = Some (Inr (ok, st'))"
        by blast
    qed simp_all
  qed
  with r show ?thesis
    by blast
qed

lemma store_wf_h_set:
  assumes ret: "h_set st a k v recv = Some r"
  shows "store_wf st \<Longrightarrow> closed_val st v \<Longrightarrow> r = Inr (ok, st') \<Longrightarrow>
           store_wf st' \<and> length st' = length st"
proof -
  assume wf: "store_wf st" and v: "closed_val st v" and r: "r = Inr (ok, st')"
  from h_set_result [OF ret r] show ?thesis
  proof (elim disjE)
    assume "set_on_receiver st k v recv = Some (ok, st')"
    then show ?thesis
      by (rule store_wf_set_on_receiver [OF wf v])
  next
    assume "proto_setter st recv v = Some (Inr (ok, st'))"
    then show ?thesis
      by (rule store_wf_proto_setter [OF wf v])
  qed (use wf in simp)
qed

lemma set_on_receiver_returns:
  "recv < length st \<Longrightarrow> \<exists>x. set_on_receiver st k v recv = Some x"
  by (auto simp: set_on_receiver_def h_create_data_property_def obj_at_def Let_def
      split: option.split hprop.split)

lemma h_set_prototype_of_returns:
  assumes "store_wf st" and "closed_val st v" and "a < length st"
  shows "\<exists>x. h_set_prototype_of st a v = Some x"
proof -
  have "\<exists>r. proto_chain_has st v a = Some r"
    using proto_chain_has_returns assms by (simp add: store_wf_def)
  then obtain r where "proto_chain_has st v a = Some r"
    by blast
  with assms(3) show ?thesis
    by (auto simp: h_set_prototype_of_def obj_at_def)
qed

lemma proto_setter_returns:
  "store_wf st \<Longrightarrow> closed_val st v \<Longrightarrow> recv < length st \<Longrightarrow> \<exists>x. proto_setter st recv v = Some x"
  using h_set_prototype_of_returns [of st v recv]
  by (auto simp: proto_setter_def)

lemma h_set_returns:
  assumes wf: "store_wf st" and v: "closed_val st v"
    and a: "a < length st" and recv: "recv < length st"
  shows "\<exists>r. h_set st a k v recv = Some r"
proof -
  from wf have "store_closed st" and "acyclic (proto_edges st)"
    by (simp_all add: store_wf_def)
  then show ?thesis
    using a
  proof (induction rule: chain_induct)
  case (step a)
  obtain x where "set_on_receiver st k v recv = Some x"
    using set_on_receiver_returns [OF recv] by blast
  moreover obtain y where "proto_setter st recv v = Some y"
    using proto_setter_returns [OF wf v recv] by blast
  ultimately show ?case
    using step by (subst h_set.simps) (auto simp: obj_at_def split: option.split hprop.split hval.split)
  qed
qed

lemma store_wf_h_assign:
  assumes "store_wf st" and "closed_val st v" and "h_assign st a k v = Some (Inr st')"
  shows "store_wf st' \<and> length st' = length st"
proof -
  from assms(3) obtain st'' where "h_set st a k v a = Some (Inr (True, st''))" and "st' = st''"
    by (auto simp: h_assign_def split: option.splits sum.splits prod.splits if_splits)
  then show ?thesis
    using store_wf_h_set assms(1,2) by blast
qed

lemma store_wf_object_set_prototype_of:
  assumes "store_wf st" and "closed_val st v" and "object_set_prototype_of st a v = Some (Inr st')"
  shows "store_wf st' \<and> length st' = length st"
proof -
  from assms(3) obtain ok where "h_set_prototype_of st a v = Some (ok, st')"
    by (auto simp: object_set_prototype_of_def split: if_splits Option.bind_splits prod.splits)
  then show ?thesis
    by (rule store_wf_set_prototype_of [OF assms(1,2)])
qed

lemma h_assign_returns:
  "store_wf st \<Longrightarrow> closed_val st v \<Longrightarrow> a < length st \<Longrightarrow> \<exists>r. h_assign st a k v = Some r"
  using h_set_returns [of st v a a k]
  by (auto simp: h_assign_def split: sum.split)

lemma object_set_prototype_of_returns:
  "store_wf st \<Longrightarrow> closed_val st v \<Longrightarrow> a < length st \<Longrightarrow>
     \<exists>r. object_set_prototype_of st a v = Some r"
  using h_set_prototype_of_returns [of st v a]
  by (auto simp: object_set_prototype_of_def)

end
