(* ===== verification/StoreLiteral.thy ===== *)
theory StoreLiteral
  imports StoreWf
begin

text \<open>
  Object literals evaluated in the store: \<open>h_eval_expr\<close> allocates the
  object a literal starts from and defines its properties left to right
  through the store's CreateDataProperty and, for \<open>__proto__: v\<close>, its
  SetPrototypeOf (ECMAScript 13.2.5.4 and B.3.1), so that every object of
  the table is a reference into the store.  The \<open>!\<close> of the specification
  (the definitions cannot fail on an object under construction) is proved in
  \<open>StoreRefine\<close>; here the failure branches are kept as \<open>TypeError\<close>.
  The lemmas show that literal evaluation keeps the store well formed and
  returns on every well-formed store, and give a computation induction rule
  that names the intermediate stores.
\<close>

fun h_eval_expr :: "store \<Rightarrow> expr \<Rightarrow> (js_error + store \<times> hval) option"
and h_eval_props :: "store \<Rightarrow> ref \<Rightarrow> propdef list \<Rightarrow> (js_error + store) option" where
  "h_eval_expr st (EString s) = Some (Inr (st, HString s))"
| "h_eval_expr st (ETemplate body) =
     Some (case template_tv body of
             Inl err \<Rightarrow> Inl (TemplateSyntax err)
           | Inr s \<Rightarrow> Inr (st, HString s))"
| "h_eval_expr st (EObject ds) =
     (if 1 < length (filter is_proto_setter ds) then Some (Inl DuplicateProtoSetter)
      else (case h_new_object st of
              (a, st1) \<Rightarrow> map_option (map_sum id (\<lambda>st2. (st2, HRef a))) (h_eval_props st1 a ds)))"
| "h_eval_props st a [] = Some (Inr st)"
| "h_eval_props st a (PComputed k e # ds) =
     (case h_eval_expr st e of
        None \<Rightarrow> None
      | Some (Inl err) \<Rightarrow> Some (Inl err)
      | Some (Inr (st', v)) \<Rightarrow>
          (case h_create_data_property st' a k v of
             None \<Rightarrow> None
           | Some (True, st'') \<Rightarrow> h_eval_props st'' a ds
           | Some (False, _) \<Rightarrow> Some (Inl TypeError)))"
| "h_eval_props st a (PIdent k e # ds) =
     (case h_eval_expr st e of
        None \<Rightarrow> None
      | Some (Inl err) \<Rightarrow> Some (Inl err)
      | Some (Inr (st', v)) \<Rightarrow>
          (if k = ''__proto__'' then
             (if \<not> is_object_or_null v then h_eval_props st' a ds
              else case h_set_prototype_of st' a v of
                     None \<Rightarrow> None
                   | Some (True, st'') \<Rightarrow> h_eval_props st'' a ds
                   | Some (False, _) \<Rightarrow> Some (Inl TypeError))
           else
             (case h_create_data_property st' a k v of
                None \<Rightarrow> None
              | Some (True, st'') \<Rightarrow> h_eval_props st'' a ds
              | Some (False, _) \<Rightarrow> Some (Inl TypeError))))"

subsection \<open>Literal evaluation keeps the store well formed\<close>

lemma closed_val_mono:
  "closed_val st v \<Longrightarrow> length st \<le> length st' \<Longrightarrow> closed_val st' v"
  by (auto simp: closed_val_def list_all_iff)

lemma proto_edges_snoc:
  "proto_edges (st @ [ob]) =
     proto_edges st \<union> {(length st, b) | b. hproto ob = HRef b}"
  by (auto simp: proto_edges_iff nth_append less_Suc_eq)

lemma store_closed_mem:
  "store_closed st \<Longrightarrow> x \<in> set st \<Longrightarrow> b \<in> set (hobj_refs x) \<Longrightarrow> b < length st"
  by (auto simp: store_closed_def list_all_iff)

lemma store_closed_snoc:
  assumes "store_closed st" and "list_all (\<lambda>b. b \<le> length st) (hobj_refs ob)"
  shows "store_closed (st @ [ob])"
proof -
  have "list_all (\<lambda>b. b < length (st @ [ob])) (hobj_refs x)" if "x \<in> set st" for x
    using store_closed_mem [OF assms(1) that] by (simp add: list_all_iff less_SucI)
  moreover have "list_all (\<lambda>b. b < length (st @ [ob])) (hobj_refs ob)"
    using assms(2) by (auto simp: list_all_iff)
  ultimately show ?thesis
    by (auto simp: store_closed_def list_all_iff)
qed

lemma store_wf_new_object:
  assumes wf: "store_wf st"
  shows "store_wf (st @ [new_hobj])"
proof -
  have ne: "st \<noteq> []"
    using wf by (simp add: store_wf_def object_prototype_ok_def)
  have "store_closed (st @ [new_hobj])"
  proof (rule store_closed_snoc)
    show "store_closed st"
      using wf by (simp add: store_wf_def)
    show "list_all (\<lambda>b. b \<le> length st) (hobj_refs new_hobj)"
      by (simp add: hobj_refs_def new_hobj_def)
  qed
  moreover have "keys_distinct (st @ [new_hobj])"
    using wf by (simp add: store_wf_def keys_distinct_def new_hobj_def)
  moreover have "object_prototype_ok (st @ [new_hobj])"
    using wf ne by (simp add: store_wf_def object_prototype_ok_def nth_append)
  moreover have "acyclic (proto_edges (st @ [new_hobj]))"
  proof -
    have into: "(x, y) \<in> proto_edges st \<Longrightarrow> y < length st" for x y
      using wf by (auto simp: store_wf_def dest: proto_edge_closed)
    have "(0, length st) \<notin> (proto_edges st)\<^sup>*"
    proof
      assume "(0, length st) \<in> (proto_edges st)\<^sup>*"
      moreover have "0 \<noteq> length st"
        using ne by simp
      ultimately obtain x where "(x, length st) \<in> proto_edges st"
        by (auto elim: rtranclE)
      then show False
        using into by fastforce
    qed
    then show ?thesis
      using wf by (simp add: proto_edges_snoc new_hobj_def store_wf_def)
  qed
  ultimately show ?thesis
    by (simp add: store_wf_def)
qed

text \<open>
  Computation induction over literal evaluation, with the intermediate results
  named: an object's properties are evaluated on the store extended by the
  object, and each property's rest on the store its definition produced.
\<close>

lemma h_eval_induct [case_names EString ETemplate EObject Nil PComputed PIdent]:
  assumes "\<And>st s. P st (EString s)"
    and "\<And>st body. P st (ETemplate body)"
    and "\<And>st ds. (\<not> 1 < length (filter is_proto_setter ds) \<Longrightarrow> Q (st @ [new_hobj]) (length st) ds)
           \<Longrightarrow> P st (EObject ds)"
    and "\<And>st a. Q st a []"
    and "\<And>st a k e ds. P st e \<Longrightarrow>
           (\<And>st' v st''. h_eval_expr st e = Some (Inr (st', v)) \<Longrightarrow>
              h_create_data_property st' a k v = Some (True, st'') \<Longrightarrow> Q st'' a ds) \<Longrightarrow>
           Q st a (PComputed k e # ds)"
    and "\<And>st a k e ds. P st e \<Longrightarrow>
           (\<And>st' v. h_eval_expr st e = Some (Inr (st', v)) \<Longrightarrow> k = ''__proto__'' \<Longrightarrow>
              \<not> is_object_or_null v \<Longrightarrow> Q st' a ds) \<Longrightarrow>
           (\<And>st' v st''. h_eval_expr st e = Some (Inr (st', v)) \<Longrightarrow> k = ''__proto__'' \<Longrightarrow>
              is_object_or_null v \<Longrightarrow> h_set_prototype_of st' a v = Some (True, st'') \<Longrightarrow> Q st'' a ds) \<Longrightarrow>
           (\<And>st' v st''. h_eval_expr st e = Some (Inr (st', v)) \<Longrightarrow> k \<noteq> ''__proto__'' \<Longrightarrow>
              h_create_data_property st' a k v = Some (True, st'') \<Longrightarrow> Q st'' a ds) \<Longrightarrow>
           Q st a (PIdent k e # ds)"
  shows "P st e" and "Q st a ds"
proof (induction st e and st a ds rule: h_eval_expr_h_eval_props.induct)
  case (1 st s)
  show ?case
    by (rule assms(1))
next
  case (2 st body)
  show ?case
    by (rule assms(2))
next
  case (3 st ds)
  show ?case
    by (rule assms(3)) (use 3 in \<open>simp add: h_new_object_def\<close>)
next
  case (4 st a)
  show ?case
    by (rule assms(4))
next
  case (5 st a k e ds)
  show ?case
  proof (rule assms(5) [OF "5.IH"(1)])
    fix st' v st''
    assume "h_eval_expr st e = Some (Inr (st', v))"
      and "h_create_data_property st' a k v = Some (True, st'')"
    then show "Q st'' a ds"
      using "5.IH"(2) by blast
  qed
next
  case (6 st a k e ds)
  show ?case
  proof (rule assms(6) [OF "6.IH"(1)])
    fix st' v
    assume "h_eval_expr st e = Some (Inr (st', v))" and "k = ''__proto__''"
      and "\<not> is_object_or_null v"
    then show "Q st' a ds"
      using "6.IH"(2) by blast
  next
    fix st' v st''
    assume "h_eval_expr st e = Some (Inr (st', v))" and "k = ''__proto__''"
      and "is_object_or_null v" and "h_set_prototype_of st' a v = Some (True, st'')"
    then show "Q st'' a ds"
      using "6.IH"(3) by blast
  next
    fix st' v st''
    assume "h_eval_expr st e = Some (Inr (st', v))" and "k \<noteq> ''__proto__''"
      and "h_create_data_property st' a k v = Some (True, st'')"
    then show "Q st'' a ds"
      using "6.IH"(4) by blast
  qed
qed

lemma store_wf_h_eval:
  "h_eval_expr st e = Some (Inr (st', v)) \<Longrightarrow> store_wf st \<Longrightarrow>
     store_wf st' \<and> length st \<le> length st' \<and> closed_val st' v"
  "h_eval_props st a ds = Some (Inr st') \<Longrightarrow> store_wf st \<Longrightarrow> a < length st \<Longrightarrow>
     store_wf st' \<and> length st \<le> length st'"
proof (induction st e and st a ds arbitrary: st' v and st' rule: h_eval_induct)
  case (EString st s)
  then show ?case
    by (auto simp: closed_val_def)
next
  case (ETemplate st body)
  then show ?case
    by (auto simp: closed_val_def split: sum.splits)
next
  case (EObject st ds)
  from EObject.prems(1) obtain z where nd: "\<not> 1 < length (filter is_proto_setter ds)"
    and r: "h_eval_props (st @ [new_hobj]) (length st) ds = Some z"
    and z: "map_sum id (\<lambda>st2. (st2, HRef (length st))) z = Inr (st', v)"
    by (auto simp: h_new_object_def split: if_splits)
  from z obtain st2 where z2: "z = Inr st2" and st': "st' = st2" and v: "v = HRef (length st)"
    by (cases z) auto
  have "store_wf st2 \<and> length (st @ [new_hobj]) \<le> length st2"
    using EObject.IH [OF nd] r z2 store_wf_new_object [OF EObject.prems(2)] by simp
  with st' v show ?case
    by (simp add: closed_val_def)
next
  case (Nil st a)
  then show ?case
    by simp
next
  case (PComputed st a k e ds)
  from PComputed.prems(1) obtain st1 v1 st2 where
    e: "h_eval_expr st e = Some (Inr (st1, v1))" and
    c: "h_create_data_property st1 a k v1 = Some (True, st2)" and
    r: "h_eval_props st2 a ds = Some (Inr st')"
    by (auto split: option.splits sum.splits prod.splits bool.splits)
  from PComputed.IH(1) [OF e PComputed.prems(2)]
  have wf1: "store_wf st1" "length st \<le> length st1" "closed_val st1 v1"
    by simp_all
  from store_wf_create_data_property [OF wf1(1,3) c] have "store_wf st2" "length st2 = length st1"
    by simp_all
  with PComputed.IH(2) [OF e c r] PComputed.prems(3) wf1(2) show ?case
    by simp
next
  case (PIdent st a k e ds)
  from PIdent.prems(1) obtain st1 v1 where
    e: "h_eval_expr st e = Some (Inr (st1, v1))"
    by (auto split: option.splits sum.splits prod.splits)
  from PIdent.IH(1) [OF e PIdent.prems(2)]
  have wf1: "store_wf st1" "length st \<le> length st1" "closed_val st1 v1"
    by simp_all
  show ?case
  proof (cases "k = ''__proto__''")
    case True
    show ?thesis
    proof (cases "is_object_or_null v1")
      case False
      with True e PIdent.prems(1) have "h_eval_props st1 a ds = Some (Inr st')"
        by simp
      with PIdent.IH(2) [OF e True False] wf1 PIdent.prems(3) show ?thesis
        by simp
    next
      case obj: True
      with True e PIdent.prems(1) obtain st2 where
        p: "h_set_prototype_of st1 a v1 = Some (True, st2)" and r: "h_eval_props st2 a ds = Some (Inr st')"
        by (auto split: option.splits prod.splits bool.splits)
      from store_wf_set_prototype_of [OF wf1(1,3) p] have "store_wf st2" "length st2 = length st1"
        by simp_all
      with PIdent.IH(3) [OF e True obj p r] wf1(2) PIdent.prems(3) show ?thesis
        by simp
    qed
  next
    case False
    with e PIdent.prems(1) obtain st2 where
      c: "h_create_data_property st1 a k v1 = Some (True, st2)" and r: "h_eval_props st2 a ds = Some (Inr st')"
      by (auto split: option.splits prod.splits bool.splits)
    from store_wf_create_data_property [OF wf1(1,3) c] have "store_wf st2" "length st2 = length st1"
      by simp_all
    with PIdent.IH(4) [OF e False c r] wf1(2) PIdent.prems(3) show ?thesis
      by simp
  qed
qed

lemma h_create_data_property_returns:
  "a < length st \<Longrightarrow> \<exists>x. h_create_data_property st a k v = Some x"
  by (auto simp: h_create_data_property_def obj_at_def Let_def split: option.split)

text \<open>Literal evaluation returns on every well-formed store.\<close>

lemma h_eval_returns:
  "store_wf st \<Longrightarrow> h_eval_expr st e \<noteq> None"
  "store_wf st \<Longrightarrow> a < length st \<Longrightarrow> h_eval_props st a ds \<noteq> None"
proof (induction st e and st a ds rule: h_eval_induct)
  case (EObject st ds)
  then show ?case
    using store_wf_new_object [OF EObject.prems] by (simp add: h_new_object_def)
next
  case (PComputed st a k e ds)
  show ?case
  proof (cases "h_eval_expr st e")
    case (Some r)
    show ?thesis
    proof (cases r)
      case (Inr sv)
      obtain st1 v1 where sv: "sv = (st1, v1)"
        by (cases sv)
      with Some Inr have e: "h_eval_expr st e = Some (Inr (st1, v1))"
        by simp
      from store_wf_h_eval(1) [OF e PComputed.prems(1)]
      have wf1: "store_wf st1" "length st \<le> length st1" "closed_val st1 v1"
        by simp_all
      with PComputed.prems(2) obtain ok st2 where c: "h_create_data_property st1 a k v1 = Some (ok, st2)"
        using h_create_data_property_returns [of a st1 k v1] by auto
      from store_wf_create_data_property [OF wf1(1,3) c] have "store_wf st2" "length st2 = length st1"
        by simp_all
      then show ?thesis
        using e c PComputed.IH(2) [OF e] wf1(2) PComputed.prems(2)
        by (cases ok) auto
    qed (use Some in simp)
  qed (use PComputed.IH(1) PComputed.prems in simp)
next
  case (PIdent st a k e ds)
  show ?case
  proof (cases "h_eval_expr st e")
    case (Some r)
    show ?thesis
    proof (cases r)
      case (Inr sv)
      obtain st1 v1 where sv: "sv = (st1, v1)"
        by (cases sv)
      with Some Inr have e: "h_eval_expr st e = Some (Inr (st1, v1))"
        by simp
      from store_wf_h_eval(1) [OF e PIdent.prems(1)]
      have wf1: "store_wf st1" "length st \<le> length st1" "closed_val st1 v1"
        by simp_all
      have a1: "a < length st1"
        using wf1(2) PIdent.prems(2) by simp
      show ?thesis
      proof (cases "k = ''__proto__''")
        case True
        show ?thesis
        proof (cases "is_object_or_null v1")
          case obj: True
          obtain ok st2 where p: "h_set_prototype_of st1 a v1 = Some (ok, st2)"
            using h_set_prototype_of_returns [OF wf1(1,3) a1] by auto
          from store_wf_set_prototype_of [OF wf1(1,3) p] have "store_wf st2" "length st2 = length st1"
            by simp_all
          then show ?thesis
            using e p True obj PIdent.IH(3) [OF e True obj] a1 by (cases ok) auto
        qed (use e True PIdent.IH(2) [OF e True] wf1 a1 in simp)
      next
        case False
        obtain ok st2 where c: "h_create_data_property st1 a k v1 = Some (ok, st2)"
          using h_create_data_property_returns [OF a1, of k v1] by auto
        from store_wf_create_data_property [OF wf1(1,3) c] have "store_wf st2" "length st2 = length st1"
          by simp_all
        then show ?thesis
          using e c False PIdent.IH(4) [OF e False] a1 by (cases ok) auto
      qed
    qed (use Some in simp)
  qed (use PIdent.IH(1) PIdent.prems in simp)
qed (simp_all split: sum.split)

subsection \<open>What one property definition does to the store\<close>

lemma create_data_property_fresh_key:
  assumes "a < length st" and "hextensible (st ! a)"
    and "\<forall>kp \<in> set (hprops (st ! a)). prop_configurable (snd kp)"
  shows "h_create_data_property st a k v =
           Some (True, st[a := (st ! a)\<lparr>hprops := AList.update k (HData v True True True) (hprops (st ! a))\<rparr>])"
  using assms by (auto simp: h_create_data_property_def obj_at_def Let_def
      split: option.split dest!: map_of_SomeD)


lemma set_prototype_of_acyclic:
  assumes "a < length st" and "hextensible (st ! a)" and "\<not> himmutable_proto (st ! a)"
    and "proto_chain_has st v a = Some False"
  shows "h_set_prototype_of st a v = Some (True, st[a := (st ! a)\<lparr>hproto := v\<rparr>])"
  using assms by (auto simp: h_set_prototype_of_def obj_at_def)


lemma create_data_property_True:
  "h_create_data_property st a k v = Some (True, st') \<Longrightarrow>
     a < length st \<and>
     st' = st[a := (st ! a)\<lparr>hprops := AList.update k (HData v True True True) (hprops (st ! a))\<rparr>]"
  by (auto simp: h_create_data_property_def obj_at_def Let_def split: option.splits if_splits)


lemma set_prototype_of_True:
  "h_set_prototype_of st a v = Some (True, st') \<Longrightarrow>
     a < length st \<and> (st' = st \<or> st' = st[a := (st ! a)\<lparr>hproto := v\<rparr>])"
  by (auto simp: h_set_prototype_of_def obj_at_def split: if_splits Option.bind_splits bool.splits)


end
