(* ===== verification/StoreRefine.thy ===== *)
theory StoreRefine
  imports StoreLiteral
begin

text \<open>
  The store model refines the tree model of \<open>JsObject\<close> and
  \<open>ObjectLiteral\<close>.  \<open>deref\<close> reads a store value back as a tree value,
  following references with fuel (a store may hold cycles through
  properties, so reading back need not end).  Evaluating a literal in a
  store whose \<open>Object.prototype\<close> is untouched gives what \<open>eval_expr\<close>
  gives, errors included, and Get in the store gives what \<open>js_get\<close> gives
  on the objects read back.  The proof tracks the objects a literal builds:
  they are fresh, refer only forward or to \<open>Object.prototype\<close>, and the
  object under construction reads back as the tree object built so far.
\<close>

text \<open>
  Reading a store value back as a tree value, with \<open>n\<close> levels of
  references: an object becomes its own properties (attributes dropped) and
  its prototype, each read with one level less.
\<close>

fun deref :: "nat \<Rightarrow> store \<Rightarrow> hval \<Rightarrow> jsval option"
and deref_props :: "nat \<Rightarrow> store \<Rightarrow> (string \<times> hprop) list \<Rightarrow> (string \<times> jsprop) list option" where
  "deref 0 st v = None"
| "deref (Suc n) st HUndefined = Some JUndefined"
| "deref (Suc n) st HNull = Some JNull"
| "deref (Suc n) st (HString s) = Some (JString s)"
| "deref (Suc n) st (HBuiltin f) = Some (JBuiltin f)"
| "deref (Suc n) st (HRef a) =
     (case obj_at st a of
        None \<Rightarrow> None
      | Some ob \<Rightarrow>
          (case (deref_props n st (hprops ob), deref n st (hproto ob)) of
             (Some ps, Some p) \<Rightarrow> Some (JObject (JsObj ps p))
           | _ \<Rightarrow> None))"
| "deref_props n st [] = Some []"
| "deref_props n st ((k, HData v _ _ _) # ps) =
     (case (deref n st v, deref_props n st ps) of
        (Some t, Some ts) \<Rightarrow> Some ((k, DataProp t) # ts)
      | _ \<Rightarrow> None)"
| "deref_props n st ((k, HProtoAccessor _) # ps) =
     map_option (\<lambda>ts. (k, ProtoAccessor) # ts) (deref_props n st ps)"

text \<open>
  The shape of the objects a literal builds, used by the refinement proof:
  a value above \<open>a\<close> refers only to \<open>Object.prototype\<close> or to objects
  allocated after \<open>a\<close>; the objects from \<open>lo\<close> on refer only forward; and
  \<open>obj_rel st a obj\<close> says that object \<open>a\<close> under construction reads back as the
  tree object \<open>obj\<close>, with every property a writable, enumerable,
  configurable data property.
\<close>

definition val_above :: "ref \<Rightarrow> hval \<Rightarrow> bool" where
  "val_above a v \<longleftrightarrow> (\<forall>c \<in> set (hval_refs v). c = 0 \<or> a < c)"

definition fwd_from :: "store \<Rightarrow> ref \<Rightarrow> bool" where
  "fwd_from st lo \<longleftrightarrow>
     (\<forall>b. lo \<le> b \<longrightarrow> b < length st \<longrightarrow>
        (\<forall>c \<in> set (hobj_refs (st ! b)). c = 0 \<or> (b < c \<and> c < length st)))"

definition prop_rel :: "store \<Rightarrow> ref \<Rightarrow> string \<times> hprop \<Rightarrow> string \<times> jsprop \<Rightarrow> bool" where
  "prop_rel st a kp kq \<longleftrightarrow>
     fst kp = fst kq \<and>
     (\<exists>v t. snd kp = HData v True True True \<and> snd kq = DataProp t \<and>
            val_above a v \<and> (\<exists>n. deref n st v = Some t))"

definition obj_rel :: "store \<Rightarrow> ref \<Rightarrow> jsobj \<Rightarrow> bool" where
  "obj_rel st a obj \<longleftrightarrow>
     a < length st \<and> hextensible (st ! a) \<and> \<not> himmutable_proto (st ! a) \<and>
     list_all2 (prop_rel st a) (hprops (st ! a)) (obj_props obj) \<and>
     val_above a (hproto (st ! a)) \<and> (\<exists>n. deref n st (hproto (st ! a)) = Some (obj_proto obj))"

text \<open>
  Reading back depends only on the objects read: a value above \<open>a\<close> in a
  store whose objects from \<open>lo \<le> a\<close> refer forward reads the same in any
  store that agrees on \<open>Object.prototype\<close> and on the objects after \<open>a\<close>.
\<close>

definition agree_above :: "store \<Rightarrow> store \<Rightarrow> ref \<Rightarrow> bool" where
  "agree_above st st' a \<longleftrightarrow>
     (\<forall>c. (c = 0 \<or> a < c) \<longrightarrow> c < length st \<longrightarrow> c < length st' \<and> st' ! c = st ! c)"

subsection \<open>Reading the store back\<close>

lemma deref_mono:
  "deref n st v = Some t \<Longrightarrow> deref (Suc n) st v = Some t"
  "deref_props n st ps = Some ts \<Longrightarrow> deref_props (Suc n) st ps = Some ts"
proof (induction n st v and n st ps arbitrary: t and ts rule: deref_deref_props.induct)
  case (6 n st a)
  then show ?case
    by (auto split: option.splits prod.splits)
next
  case (8 n st k v w e c ps)
  then show ?case
    by (auto split: option.splits prod.splits)
next
  case (9 n st k ps)
  then show ?case
    by auto
qed simp_all

lemma deref_mono_le:
  "n \<le> m \<Longrightarrow> deref n st v = Some t \<Longrightarrow> deref m st v = Some t"
proof (induction m)
  case (Suc m)
  then show ?case
    by (cases "n = Suc m") (auto intro: deref_mono(1))
qed simp

lemma deref_props_mono_le:
  "n \<le> m \<Longrightarrow> deref_props n st ps = Some ts \<Longrightarrow> deref_props m st ps = Some ts"
proof (induction m)
  case (Suc m)
  then show ?case
    by (cases "n = Suc m") (auto intro: deref_mono(2))
qed simp

lemma fwd_fromD:
  "fwd_from st lo \<Longrightarrow> lo \<le> b \<Longrightarrow> b < length st \<Longrightarrow> d \<in> set (hobj_refs (st ! b)) \<Longrightarrow>
     d = 0 \<or> (b < d \<and> d < length st)"
  unfolding fwd_from_def by blast

lemma deref_agree_aux:
  "deref n st v = Some t \<Longrightarrow> fwd_from st lo \<Longrightarrow> 0 < lo \<Longrightarrow> lo \<le> a \<Longrightarrow>
     hobj_refs (st ! 0) = [] \<Longrightarrow> agree_above st st' a \<Longrightarrow> val_above a v \<Longrightarrow>
     deref n st' v = Some t"
  "deref_props n st ps = Some ts \<Longrightarrow> fwd_from st lo \<Longrightarrow> 0 < lo \<Longrightarrow> lo \<le> a \<Longrightarrow>
     hobj_refs (st ! 0) = [] \<Longrightarrow> agree_above st st' a \<Longrightarrow>
     (\<forall>c \<in> set (concat (map (hprop_refs \<circ> snd) ps)). c = 0 \<or> a < c) \<Longrightarrow>
     deref_props n st' ps = Some ts"
proof (induction n st v and n st ps arbitrary: t and ts rule: deref_deref_props.induct)
  case (6 n st c)
  from "6.prems"(1) have c: "c < length st"
    by (auto split: option.splits)
  with "6.prems"(6,7) have same: "c < length st'" "st' ! c = st ! c"
    by (auto simp: agree_above_def val_above_def)
  have refs: "\<forall>d \<in> set (hobj_refs (st ! c)). d = 0 \<or> a < d"
  proof (cases "c = 0")
    case True
    with "6.prems"(5) show ?thesis
      by simp
  next
    case False
    with "6.prems"(7) have "a < c"
      by (simp add: val_above_def)
    with "6.prems"(4) have "lo \<le> c"
      by simp
    with \<open>a < c\<close> show ?thesis
      using fwd_fromD [OF "6.prems"(2) _ c] by fastforce
  qed
  then have "\<forall>d \<in> set (concat (map (hprop_refs \<circ> snd) (hprops (st ! c)))). d = 0 \<or> a < d"
    and "val_above a (hproto (st ! c))"
    by (auto simp: hobj_refs_def val_above_def)
  with "6.IH" "6.prems" c same show ?case
    by (auto simp: obj_at_def split: option.splits prod.splits)
next
  case (8 n st k v w e c ps)
  then show ?case
    by (auto simp: val_above_def split: option.splits prod.splits)
next
  case (9 n st k ps)
  then show ?case
    by auto
qed simp_all

lemma deref_agree:
  assumes "fwd_from st lo" and "0 < lo" and "lo \<le> a" and "hobj_refs (st ! 0) = []"
    and "agree_above st st' a" and "val_above a v" and "deref n st v = Some t"
  shows "deref n st' v = Some t"
  using deref_agree_aux(1) [OF assms(7,1-5,6)] .

lemma hobj_refs_object_prototype_obj [simp]: "hobj_refs object_prototype_obj = []"
  by (simp add: object_prototype_obj_def object_prototype_def hobj_refs_def)

lemma deref_object_prototype:
  "st ! 0 = object_prototype_obj \<Longrightarrow> st \<noteq> [] \<Longrightarrow>
     deref 2 st (HRef 0) = Some (JObject object_prototype)"
  by (simp add: numeral_2_eq_2 obj_at_def object_prototype_obj_def object_prototype_def)

lemma agree_above_append: "agree_above st (st @ ys) a"
  by (simp add: agree_above_def nth_append)

lemma agree_above_update_at: "0 < a \<Longrightarrow> agree_above st (st[a := ob]) a"
  by (auto simp: agree_above_def)

lemma fwd_from_snoc_new:
  assumes "fwd_from st lo" and "st \<noteq> []"
  shows "fwd_from (st @ [new_hobj]) lo"
  unfolding fwd_from_def
proof (intro allI impI ballI)
  fix b d
  assume "lo \<le> b" and b: "b < length (st @ [new_hobj])" and d: "d \<in> set (hobj_refs ((st @ [new_hobj]) ! b))"
  show "d = 0 \<or> (b < d \<and> d < length (st @ [new_hobj]))"
  proof (cases "b < length st")
    case True
    with d have "d \<in> set (hobj_refs (st ! b))"
      by (simp add: nth_append)
    from fwd_fromD [OF assms(1) \<open>lo \<le> b\<close> True this] show ?thesis
      by auto
  next
    case False
    with b d show ?thesis
      by (simp add: nth_append hobj_refs_def new_hobj_def)
  qed
qed

lemma fwd_from_update:
  assumes "fwd_from st lo" and "lo \<le> a" and "a < length st"
    and "\<forall>d \<in> set (hobj_refs ob). d = 0 \<or> (a < d \<and> d < length st)"
  shows "fwd_from (st[a := ob]) lo"
  using assms fwd_fromD [OF assms(1)] by (auto simp: fwd_from_def nth_list_update)

lemma proto_chain_above:
  assumes fwd: "fwd_from st lo" and lo: "0 < lo" "lo \<le> a"
    and base: "st \<noteq> []" "hproto (st ! 0) = HNull"
  shows "c = 0 \<or> a < c \<Longrightarrow> c < length st \<Longrightarrow> proto_chain_has st (HRef c) a = Some False"
proof (induction c rule: measure_induct_rule [where f = "\<lambda>c. if c = 0 then 0 else Suc (length st - c)"])
  case (less c)
  have ca: "c \<noteq> a"
    using less.prems lo by auto
  show ?case
  proof (cases "hproto (st ! c)")
    case (HRef d)
    with base have "c \<noteq> 0"
      by (cases "c = 0") auto
    with less.prems(1) lo have "lo \<le> c" and "0 < c"
      by auto
    moreover have "d \<in> set (hobj_refs (st ! c))"
      using HRef by (simp add: hobj_refs_def)
    ultimately have "d = 0 \<or> (c < d \<and> d < length st)"
      using fwd_fromD [OF fwd _ less.prems(2)] by blast
    then have "proto_chain_has st (HRef d) a = Some False"
    proof
      assume "d = 0"
      with \<open>0 < c\<close> less.prems(2) base(1) show ?thesis
        by (intro less.IH) auto
    next
      assume "c < d \<and> d < length st"
      with less.prems(1) \<open>0 < c\<close> show ?thesis
        by (intro less.IH) auto
    qed
    with ca HRef less.prems(2) show ?thesis
      by (simp add: proto_chain_has_HRef obj_at_def)
  qed (use ca less.prems(2) in \<open>simp_all add: proto_chain_has_HRef proto_chain_has_nonref obj_at_def\<close>)
qed

lemma fwd_from_update_with:
  assumes f1: "fwd_from st1 lo" and la: "lo \<le> a" and a1: "a < length st1"
    and refs: "set (hobj_refs ob) \<subseteq> set (hobj_refs (st1 ! a)) \<union> set (hval_refs v)"
    and fresh: "\<forall>c \<in> set (hval_refs v). a < c \<and> c < length st1"
  shows "fwd_from (st1[a := ob]) lo"
proof -
  have "\<forall>d \<in> set (hobj_refs ob). d = 0 \<or> (a < d \<and> d < length st1)"
    using refs fwd_fromD [OF f1 la a1] fresh by fastforce
  then show ?thesis
    using fwd_from_update [OF f1 la a1] by blast
qed

lemma frame_update_step:
  assumes st1: "st1 = st @ ys" and fresh: "\<forall>c \<in> set (hval_refs v1). length st \<le> c \<and> c < length st1"
    and a: "a < length st"
    and refs: "set (hobj_refs ob) \<subseteq> set (hobj_refs (st1 ! a)) \<union> set (hval_refs v1)"
    and fwd1: "fwd_from st lo \<longrightarrow> lo \<le> length st \<longrightarrow> fwd_from st1 lo"
    and st2: "st2 = st1[a := ob]"
    and rest: "length st2 \<le> length st' \<and> (\<forall>i < length st2. i \<noteq> a \<longrightarrow> st' ! i = st2 ! i) \<and>
                 (fwd_from st2 lo \<longrightarrow> lo \<le> a \<longrightarrow> fwd_from st' lo)"
  shows "length st \<le> length st' \<and> (\<forall>i < length st. i \<noteq> a \<longrightarrow> st' ! i = st ! i) \<and>
           (fwd_from st lo \<longrightarrow> lo \<le> a \<longrightarrow> fwd_from st' lo)"
proof -
  have a1: "a < length st1"
    using st1 a by simp
  have "fwd_from st lo \<longrightarrow> lo \<le> a \<longrightarrow> fwd_from st2 lo"
  proof (intro impI)
    assume f: "fwd_from st lo" and la: "lo \<le> a"
    with fwd1 a have f1: "fwd_from st1 lo"
      by simp
    have "\<forall>c \<in> set (hval_refs v1). a < c \<and> c < length st1"
      using fresh a by fastforce
    then show "fwd_from st2 lo"
      unfolding st2 by (rule fwd_from_update_with [OF f1 la a1 refs])
  qed
  with st1 st2 rest show ?thesis
    by (auto simp: nth_append)
qed

text \<open>
  The frame of literal evaluation: an expression only appends objects and
  returns a fresh value; a property list only changes the object under
  construction and appends; and objects that refer forward keep doing so.
\<close>

lemma h_eval_frame:
  "h_eval_expr st e = Some (Inr (st', v)) \<Longrightarrow> st \<noteq> [] \<Longrightarrow>
     (\<exists>ys. st' = st @ ys) \<and> (\<forall>c \<in> set (hval_refs v). length st \<le> c \<and> c < length st') \<and>
     (fwd_from st lo \<longrightarrow> lo \<le> length st \<longrightarrow> fwd_from st' lo)"
  "h_eval_props st a ds = Some (Inr st') \<Longrightarrow> a < length st \<Longrightarrow>
     length st \<le> length st' \<and> (\<forall>i < length st. i \<noteq> a \<longrightarrow> st' ! i = st ! i) \<and>
     (fwd_from st lo \<longrightarrow> lo \<le> a \<longrightarrow> fwd_from st' lo)"
proof (induction st e and st a ds arbitrary: st' v and st' rule: h_eval_induct)
  case (EString st s)
  then show ?case
    by auto
next
  case (ETemplate st body)
  then show ?case
    by (auto split: sum.splits)
next
  case (EObject st ds)
  from EObject.prems(1) obtain z where nd: "\<not> 1 < length (filter is_proto_setter ds)"
    and r: "h_eval_props (st @ [new_hobj]) (length st) ds = Some z"
    and z: "map_sum id (\<lambda>st2. (st2, HRef (length st))) z = Inr (st', v)"
    by (auto simp: h_new_object_def split: if_splits)
  from z obtain st2 where z2: "z = Inr st2" and st': "st' = st2" and v: "v = HRef (length st)"
    by (cases z) auto
  from EObject.IH [OF nd] r z2 have ih: "length (st @ [new_hobj]) \<le> length st2"
    "\<forall>i < length (st @ [new_hobj]). i \<noteq> length st \<longrightarrow> st2 ! i = (st @ [new_hobj]) ! i"
    "fwd_from (st @ [new_hobj]) lo \<longrightarrow> lo \<le> length st \<longrightarrow> fwd_from st2 lo"
    by simp_all
  have "st2 = st @ drop (length st) st2"
  proof (rule nth_equalityI)
    show "length st2 = length (st @ drop (length st) st2)"
      using ih(1) by simp
    show "st2 ! i = (st @ drop (length st) st2) ! i" if "i < length st2" for i
      using ih(2) [rule_format, of i] that by (cases "i < length st") (auto simp: nth_append)
  qed
  then show ?case
    using st' v ih(1,3) fwd_from_snoc_new [OF _ EObject.prems(2)] by auto
next
  case (Nil st a)
  then show ?case
    by simp
next
  case (PComputed st a k e ds)
  from PComputed.prems(1) obtain st1 v1 st2 where
    e: "h_eval_expr st e = Some (Inr (st1, v1))" and
    c: "h_create_data_property st1 a k v1 = Some (True, st2)" and
    r: "h_eval_props st2 a ds = Some (Inr st')"
    by (auto split: option.splits sum.splits prod.splits bool.splits)
  from PComputed.IH(1) [OF e] PComputed.prems(2) obtain ys where st1: "st1 = st @ ys"
    and fresh: "\<forall>c \<in> set (hval_refs v1). length st \<le> c \<and> c < length st1"
    and fwd1: "fwd_from st lo \<longrightarrow> lo \<le> length st \<longrightarrow> fwd_from st1 lo"
    by fastforce
  from create_data_property_True [OF c] have a1: "a < length st1"
    and st2: "st2 = st1[a := (st1 ! a)\<lparr>hprops := AList.update k (HData v1 True True True) (hprops (st1 ! a))\<rparr>]"
    by simp_all
  show ?case
    using PComputed.IH(2) [OF e c r] a1 st2
    by (intro frame_update_step [OF st1 fresh PComputed.prems(2) hobj_refs_update_props fwd1 st2]) simp
next
  case (PIdent st a k e ds)
  from PIdent.prems(1) obtain st1 v1 where e: "h_eval_expr st e = Some (Inr (st1, v1))"
    by (auto split: option.splits sum.splits prod.splits)
  from PIdent.IH(1) [OF e] PIdent.prems(2) obtain ys where st1: "st1 = st @ ys"
    and fresh: "\<forall>c \<in> set (hval_refs v1). length st \<le> c \<and> c < length st1"
    and fwd1: "fwd_from st lo \<longrightarrow> lo \<le> length st \<longrightarrow> fwd_from st1 lo"
    by fastforce
  have a1: "a < length st1"
    using st1 PIdent.prems(2) by simp
  have same: "st1 = st1[a := st1 ! a]"
    by simp
  show ?case
  proof (cases "k = ''__proto__''")
    case True
    show ?thesis
    proof (cases "is_object_or_null v1")
      case False
      with True e PIdent.prems(1) have r: "h_eval_props st1 a ds = Some (Inr st')"
        by simp
      show ?thesis
        using PIdent.IH(2) [OF e True False r] a1
        by (intro frame_update_step [OF st1 fresh PIdent.prems(2) _ fwd1 same]) simp_all
    next
      case obj: True
      with True e PIdent.prems(1) obtain st2 where
        p: "h_set_prototype_of st1 a v1 = Some (True, st2)" and r: "h_eval_props st2 a ds = Some (Inr st')"
        by (auto split: option.splits prod.splits bool.splits)
      from set_prototype_of_True [OF p] have st2: "st2 = st1[a := st1 ! a] \<or> st2 = st1[a := (st1 ! a)\<lparr>hproto := v1\<rparr>]"
        by auto
      have rest: "length st2 \<le> length st' \<and> (\<forall>i < length st2. i \<noteq> a \<longrightarrow> st' ! i = st2 ! i) \<and>
          (fwd_from st2 lo \<longrightarrow> lo \<le> a \<longrightarrow> fwd_from st' lo)"
        using PIdent.IH(3) [OF e True obj p r] a1 st2 by auto
      from st2 show ?thesis
      proof
        assume eq: "st2 = st1[a := st1 ! a]"
        show ?thesis
          by (rule frame_update_step [OF st1 fresh PIdent.prems(2) _ fwd1 eq rest]) simp
      next
        assume eq: "st2 = st1[a := (st1 ! a)\<lparr>hproto := v1\<rparr>]"
        show ?thesis
          by (rule frame_update_step [OF st1 fresh PIdent.prems(2) _ fwd1 eq rest])
            (auto simp: hobj_refs_def)
      qed
    qed
  next
    case False
    with e PIdent.prems(1) obtain st2 where
      c: "h_create_data_property st1 a k v1 = Some (True, st2)" and r: "h_eval_props st2 a ds = Some (Inr st')"
      by (auto split: option.splits prod.splits bool.splits)
    from create_data_property_True [OF c] have
      st2: "st2 = st1[a := (st1 ! a)\<lparr>hprops := AList.update k (HData v1 True True True) (hprops (st1 ! a))\<rparr>]"
      by simp
    show ?thesis
      using PIdent.IH(4) [OF e False c r] a1 st2
      by (intro frame_update_step [OF st1 fresh PIdent.prems(2) hobj_refs_update_props fwd1 st2]) simp
  qed
qed

subsection \<open>The object under construction reads back as the tree object\<close>

lemma prop_rel_agree:
  assumes "prop_rel st a kp kq" and "fwd_from st lo" and "0 < lo" and "lo \<le> a"
    and "hobj_refs (st ! 0) = []" and "agree_above st st' a"
  shows "prop_rel st' a kp kq"
proof -
  obtain v t n where "fst kp = fst kq" "snd kp = HData v True True True" "snd kq = DataProp t"
    "val_above a v" "deref n st v = Some t"
    using assms(1) by (auto simp: prop_rel_def)
  then show ?thesis
    using deref_agree [OF assms(2-6)] unfolding prop_rel_def by blast
qed

lemma obj_rel_agree:
  assumes rel: "obj_rel st a obj" and fwd: "fwd_from st lo" and lo: "0 < lo" "lo \<le> a"
    and base: "hobj_refs (st ! 0) = []" and agree: "agree_above st st' a"
    and a: "a < length st'" and same: "st' ! a = st ! a"
  shows "obj_rel st' a obj"
proof -
  have "list_all2 (prop_rel st a) (hprops (st ! a)) (obj_props obj)"
    using rel by (simp add: obj_rel_def)
  then have "list_all2 (prop_rel st' a) (hprops (st' ! a)) (obj_props obj)"
    unfolding same by (rule list_all2_mono) (rule prop_rel_agree [OF _ fwd lo base agree])
  moreover obtain n where "deref n st (hproto (st ! a)) = Some (obj_proto obj)"
    and "val_above a (hproto (st ! a))"
    using rel by (auto simp: obj_rel_def)
  then have "\<exists>n. deref n st' (hproto (st' ! a)) = Some (obj_proto obj)"
    using deref_agree [OF fwd lo base agree] same by auto
  ultimately show ?thesis
    using rel a same by (simp add: obj_rel_def)
qed

lemma obj_rel_configurable:
  assumes "obj_rel st a obj"
  shows "\<forall>kp \<in> set (hprops (st ! a)). prop_configurable (snd kp)"
proof
  fix kp
  assume "kp \<in> set (hprops (st ! a))"
  with assms obtain kq where "prop_rel st a kp kq"
    by (auto simp: obj_rel_def dest: list_all2_set_left)
  then show "prop_configurable (snd kp)"
    by (auto simp: prop_rel_def prop_configurable_def)
qed

lemma obj_rel_create:
  assumes rel: "obj_rel st a obj" and fwd: "fwd_from st lo" and lo: "0 < lo" "lo \<le> a"
    and base: "hobj_refs (st ! 0) = []"
    and v: "val_above a v" and t: "deref n st v = Some t"
  shows "obj_rel (st[a := (st ! a)\<lparr>hprops := AList.update k (HData v True True True) (hprops (st ! a))\<rparr>]) a
           (create_data_property obj k t)"
proof -
  let ?st' = "st[a := (st ! a)\<lparr>hprops := AList.update k (HData v True True True) (hprops (st ! a))\<rparr>]"
  have agree: "agree_above st ?st' a"
    using lo by (simp add: agree_above_update_at)
  have a: "a < length st"
    using rel by (simp add: obj_rel_def)
  have "list_all2 (prop_rel st a) (hprops (st ! a)) (obj_props obj)"
    using rel by (simp add: obj_rel_def)
  then have L: "list_all2 (prop_rel ?st' a) (hprops (st ! a)) (obj_props obj)"
    using list_all2_mono prop_rel_agree [OF _ fwd lo base agree] by blast
  have K: "prop_rel ?st' a (k, HData v True True True) (k, DataProp t)"
    using v deref_agree [OF fwd lo base agree v t] by (auto simp: prop_rel_def)
  have "list_all2 (prop_rel ?st' a) (AList.update k (HData v True True True) (hprops (st ! a)))
      (AList.update k (DataProp t) (obj_props obj))"
    by (rule list_all2_update [OF L _ K]) (simp add: prop_rel_def)
  moreover have "\<exists>n. deref n ?st' (hproto (st ! a)) = Some (obj_proto obj)"
    using rel deref_agree [OF fwd lo base agree] by (auto simp: obj_rel_def)
  ultimately show ?thesis
    using rel a by (simp add: obj_rel_def create_data_property_def)
qed

lemma obj_rel_set_proto:
  assumes rel: "obj_rel st a obj" and fwd: "fwd_from st lo" and lo: "0 < lo" "lo \<le> a"
    and base: "hobj_refs (st ! 0) = []"
    and v: "val_above a v" and t: "deref n st v = Some t"
  shows "obj_rel (st[a := (st ! a)\<lparr>hproto := v\<rparr>]) a (JsObj (obj_props obj) t)"
proof -
  let ?st' = "st[a := (st ! a)\<lparr>hproto := v\<rparr>]"
  have agree: "agree_above st ?st' a"
    using lo by (simp add: agree_above_update_at)
  have a: "a < length st"
    using rel by (simp add: obj_rel_def)
  have "list_all2 (prop_rel st a) (hprops (st ! a)) (obj_props obj)"
    using rel by (simp add: obj_rel_def)
  then have "list_all2 (prop_rel ?st' a) (hprops (st ! a)) (obj_props obj)"
    using list_all2_mono prop_rel_agree [OF _ fwd lo base agree] by blast
  moreover have "deref n ?st' v = Some t"
    using deref_agree [OF fwd lo base agree v t] .
  ultimately show ?thesis
    using rel a v by (auto simp: obj_rel_def)
qed

lemma obj_rel_new:
  assumes "st \<noteq> []" and "st ! 0 = object_prototype_obj"
  shows "obj_rel (st @ [new_hobj]) (length st) new_object"
proof -
  have "deref 2 (st @ [new_hobj]) (HRef 0) = Some (JObject object_prototype)"
    using assms by (intro deref_object_prototype) (auto simp: nth_append)
  then show ?thesis
    by (auto simp: obj_rel_def new_hobj_def new_object_def val_above_def)
qed

lemma prop_rel_deref:
  assumes "list_all2 (prop_rel st a) ps qs"
  shows "\<exists>N. \<forall>m \<ge> N. deref_props m st ps = Some qs"
  using assms
proof (induction ps qs rule: list_all2_induct)
  case Nil
  then show ?case
    by simp
next
  case (Cons kp ps kq qs)
  from Cons.hyps(1) obtain k v t n where kp: "kp = (k, HData v True True True)"
    and kq: "kq = (k, DataProp t)" and t: "deref n st v = Some t"
    by (cases kp, cases kq) (auto simp: prop_rel_def)
  from Cons.IH obtain N where N: "\<forall>m \<ge> N. deref_props m st ps = Some qs"
    by blast
  have "deref_props m st (kp # ps) = Some (kq # qs)" if "max n N \<le> m" for m
  proof -
    have "deref m st v = Some t"
      using deref_mono_le [OF _ t] that by simp
    moreover have "deref_props m st ps = Some qs"
      using N that by simp
    ultimately show ?thesis
      using kp kq by simp
  qed
  then show ?case
    by blast
qed

lemma obj_rel_deref:
  assumes "obj_rel st a obj"
  shows "\<exists>n. deref n st (HRef a) = Some (JObject obj)"
proof -
  have a: "a < length st" and L: "list_all2 (prop_rel st a) (hprops (st ! a)) (obj_props obj)"
    and "\<exists>n. deref n st (hproto (st ! a)) = Some (obj_proto obj)"
    using assms by (simp_all add: obj_rel_def)
  then obtain n where n: "deref n st (hproto (st ! a)) = Some (obj_proto obj)"
    by blast
  obtain N where N: "\<forall>m \<ge> N. deref_props m st (hprops (st ! a)) = Some (obj_props obj)"
    using prop_rel_deref [OF L] by blast
  have "deref (Suc (max n N)) st (HRef a) = Some (JObject (JsObj (obj_props obj) (obj_proto obj)))"
    using N deref_mono_le [OF _ n, of "max n N"] a by (simp add: obj_at_def)
  then show ?thesis
    by (metis jsobj.collapse)
qed

lemma deref_object_or_null:
  "deref n st v = Some t \<Longrightarrow>
     is_object_or_null v \<longleftrightarrow> (case t of JObject _ \<Rightarrow> True | JNull \<Rightarrow> True | _ \<Rightarrow> False)"
  by (cases n; cases v) (auto simp: is_object_or_null_def split: option.splits prod.splits)

lemma literal_set_proto_deref:
  "deref n st v = Some t \<Longrightarrow>
     literal_set_proto obj t = (if is_object_or_null v then JsObj (obj_props obj) t else obj)"
  by (drule deref_object_or_null) (auto simp: literal_set_proto_def split: jsval.splits)

text \<open>One property definition of a literal, in the store and in the tree.\<close>

lemma step_create:
  assumes rel: "obj_rel st a obj" and fwd: "fwd_from st lo" and lo: "0 < lo" "lo \<le> a"
    and base: "st ! 0 = object_prototype_obj"
    and fresh: "\<forall>c \<in> set (hval_refs v). a < c \<and> c < length st" and t: "deref n st v = Some t"
  shows "\<exists>st'. h_create_data_property st a k v = Some (True, st') \<and>
           obj_rel st' a (create_data_property obj k t) \<and> fwd_from st' lo \<and> st' ! 0 = object_prototype_obj"
proof -
  let ?st' = "st[a := (st ! a)\<lparr>hprops := AList.update k (HData v True True True) (hprops (st ! a))\<rparr>]"
  have a: "a < length st" and ext: "hextensible (st ! a)"
    using rel by (simp_all add: obj_rel_def)
  have "val_above a v"
    using fresh by (auto simp: val_above_def)
  then have "obj_rel ?st' a (create_data_property obj k t)"
    using obj_rel_create [OF rel fwd lo _ _ t] base by simp
  moreover have "h_create_data_property st a k v = Some (True, ?st')"
    using create_data_property_fresh_key [OF a ext obj_rel_configurable [OF rel]] .
  moreover have "fwd_from ?st' lo"
    by (rule fwd_from_update_with [OF fwd lo(2) a hobj_refs_update_props fresh])
  moreover have "?st' ! 0 = object_prototype_obj"
    using base lo by simp
  ultimately show ?thesis
    by blast
qed

text \<open>The \<open>__proto__: v\<close> definition with an object or \<open>null\<close>, in the store and in the tree.\<close>

lemma step_proto:
  assumes rel: "obj_rel st a obj" and fwd: "fwd_from st lo" and lo: "0 < lo" "lo \<le> a"
    and base: "st ! 0 = object_prototype_obj"
    and fresh: "\<forall>c \<in> set (hval_refs v). a < c \<and> c < length st" and t: "deref n st v = Some t"
  shows "\<exists>st'. h_set_prototype_of st a v = Some (True, st') \<and>
           obj_rel st' a (JsObj (obj_props obj) t) \<and> fwd_from st' lo \<and> st' ! 0 = object_prototype_obj"
proof -
  let ?st' = "st[a := (st ! a)\<lparr>hproto := v\<rparr>]"
  have a: "a < length st" and ext: "hextensible (st ! a)" and mut: "\<not> himmutable_proto (st ! a)"
    using rel by (simp_all add: obj_rel_def)
  have ne: "st \<noteq> []"
    using a by auto
  have "val_above a v"
    using fresh by (auto simp: val_above_def)
  then have "obj_rel ?st' a (JsObj (obj_props obj) t)"
    using obj_rel_set_proto [OF rel fwd lo _ _ t] base by simp
  moreover have "proto_chain_has st v a = Some False"
  proof (cases v)
    case (HRef c)
    with fresh have "a < c" and "c < length st"
      by simp_all
    with HRef show ?thesis
      using proto_chain_above [OF fwd lo ne] base by (simp add: object_prototype_obj_def)
  qed (simp_all add: proto_chain_has_nonref)
  then have "h_set_prototype_of st a v = Some (True, ?st')"
    by (rule set_prototype_of_acyclic [OF a ext mut])
  moreover have "fwd_from ?st' lo"
    by (rule fwd_from_update_with [OF fwd lo(2) a _ fresh]) (auto simp: hobj_refs_def)
  moreover have "?st' ! 0 = object_prototype_obj"
    using base lo by simp
  ultimately show ?thesis
    by blast
qed

text \<open>The result of a nested expression, seen from the object under construction.\<close>

lemma nested_result:
  assumes e: "h_eval_expr st e = Some (Inr (st1, v1))" and rel: "obj_rel st a obj"
    and fwd: "fwd_from st lo" and lo: "0 < lo" "lo \<le> a" and base: "st ! 0 = object_prototype_obj"
  shows "obj_rel st1 a obj \<and> fwd_from st1 lo \<and> st1 ! 0 = object_prototype_obj \<and>
           (\<forall>c \<in> set (hval_refs v1). a < c \<and> c < length st1)"
proof -
  have a: "a < length st"
    using rel by (simp add: obj_rel_def)
  then have ne: "st \<noteq> []"
    by auto
  from h_eval_frame(1) [OF e ne, of lo] obtain ys where st1: "st1 = st @ ys"
    and fresh: "\<forall>c \<in> set (hval_refs v1). length st \<le> c \<and> c < length st1"
    and f1: "fwd_from st lo \<longrightarrow> lo \<le> length st \<longrightarrow> fwd_from st1 lo"
    by blast
  have "obj_rel st1 a obj"
    using obj_rel_agree [OF rel fwd lo _ agree_above_append] st1 a base by (simp add: nth_append)
  moreover have "fwd_from st1 lo"
    using f1 fwd lo(2) a by simp
  moreover have "st1 ! 0 = object_prototype_obj"
    using st1 ne base by (simp add: nth_append)
  moreover have "\<forall>c \<in> set (hval_refs v1). a < c \<and> c < length st1"
    using fresh a by fastforce
  ultimately show ?thesis
    by blast
qed

lemma h_eval_refines_aux:
  "0 < lo \<Longrightarrow> lo \<le> length st \<Longrightarrow> fwd_from st lo \<Longrightarrow> st ! 0 = object_prototype_obj \<Longrightarrow>
     (case eval_expr e of
        Inl err \<Rightarrow> h_eval_expr st e = Some (Inl err)
      | Inr t \<Rightarrow> \<exists>st' v. h_eval_expr st e = Some (Inr (st', v)) \<and> (\<exists>n. deref n st' v = Some t))"
  "0 < lo \<Longrightarrow> lo \<le> a \<Longrightarrow> fwd_from st lo \<Longrightarrow> st ! 0 = object_prototype_obj \<Longrightarrow>
     obj_rel st a obj \<Longrightarrow>
     (case eval_props obj ds of
        Inl err \<Rightarrow> h_eval_props st a ds = Some (Inl err)
      | Inr obj' \<Rightarrow> \<exists>st'. h_eval_props st a ds = Some (Inr st') \<and> obj_rel st' a obj')"
proof (induction st e and st a ds arbitrary: lo and lo obj rule: h_eval_induct)
  case (EString st s)
  have "\<exists>n. deref n st (HString s) = Some (JString s)"
    by (rule exI [of _ 1]) simp
  then show ?case
    by simp
next
  case (ETemplate st body)
  have "\<exists>n. deref n st (HString s) = Some (JString s)" for s
    by (rule exI [of _ 1]) simp
  then show ?case
    by (auto split: sum.split)
next
  case (EObject st ds)
  show ?case
  proof (cases "1 < length (filter is_proto_setter ds)")
    case False
    have ne: "st \<noteq> []"
      using EObject.prems(1,2) by auto
    have "case eval_props new_object ds of
            Inl err \<Rightarrow> h_eval_props (st @ [new_hobj]) (length st) ds = Some (Inl err)
          | Inr obj' \<Rightarrow> \<exists>st'. h_eval_props (st @ [new_hobj]) (length st) ds = Some (Inr st') \<and>
                                obj_rel st' (length st) obj'"
      using EObject.IH [OF False EObject.prems(1,2)] fwd_from_snoc_new [OF EObject.prems(3) ne]
        EObject.prems(4) obj_rel_new [OF ne EObject.prems(4)] ne
      by (simp add: nth_append)
    with False show ?thesis
      by (auto simp: h_new_object_def dest: obj_rel_deref split: sum.splits)
  qed simp
next
  case (Nil st a)
  then show ?case
    by simp
next
  case (PComputed st a k e ds)
  have a: "a < length st"
    using PComputed.prems(5) by (simp add: obj_rel_def)
  show ?case
  proof (cases "eval_expr e")
    case (Inl err)
    with PComputed.IH(1) [OF PComputed.prems(1) _ PComputed.prems(3,4)] PComputed.prems(2) a
    show ?thesis
      by simp
  next
    case (Inr t)
    with PComputed.IH(1) [OF PComputed.prems(1) _ PComputed.prems(3,4)] PComputed.prems(2) a
    obtain st1 v1 n where e: "h_eval_expr st e = Some (Inr (st1, v1))" and t: "deref n st1 v1 = Some t"
      by auto
    from nested_result [OF e PComputed.prems(5,3,1,2,4)]
    have rel1: "obj_rel st1 a obj" and f1: "fwd_from st1 lo" and b1: "st1 ! 0 = object_prototype_obj"
      and fresh: "\<forall>c \<in> set (hval_refs v1). a < c \<and> c < length st1"
      by simp_all
    from step_create [OF rel1 f1 PComputed.prems(1,2) b1 fresh t]
    obtain st2 where c: "h_create_data_property st1 a k v1 = Some (True, st2)"
      and rel2: "obj_rel st2 a (create_data_property obj k t)" and f2: "fwd_from st2 lo"
      and b2: "st2 ! 0 = object_prototype_obj"
      by blast
    have eq: "h_eval_props st a (PComputed k e # ds) = h_eval_props st2 a ds"
      using e c by simp
    show ?thesis
      unfolding eq using PComputed.IH(2) [OF e c PComputed.prems(1,2) f2 b2 rel2] Inr by simp
  qed
next
  case (PIdent st a k e ds)
  have a: "a < length st"
    using PIdent.prems(5) by (simp add: obj_rel_def)
  show ?case
  proof (cases "eval_expr e")
    case (Inl err)
    with PIdent.IH(1) [OF PIdent.prems(1) _ PIdent.prems(3,4)] PIdent.prems(2) a
    show ?thesis
      by simp
  next
    case (Inr t)
    with PIdent.IH(1) [OF PIdent.prems(1) _ PIdent.prems(3,4)] PIdent.prems(2) a
    obtain st1 v1 n where e: "h_eval_expr st e = Some (Inr (st1, v1))" and t: "deref n st1 v1 = Some t"
      by auto
    from nested_result [OF e PIdent.prems(5,3,1,2,4)]
    have rel1: "obj_rel st1 a obj" and f1: "fwd_from st1 lo" and b1: "st1 ! 0 = object_prototype_obj"
      and fresh: "\<forall>c \<in> set (hval_refs v1). a < c \<and> c < length st1"
      by simp_all
    show ?thesis
    proof (cases "k = ''__proto__''")
      case True
      show ?thesis
      proof (cases "is_object_or_null v1")
        case False
        with literal_set_proto_deref [OF t] have "literal_set_proto obj t = obj"
          by simp
        moreover have eq: "h_eval_props st a (PIdent k e # ds) = h_eval_props st1 a ds"
          using e True False by simp
        ultimately show ?thesis
          unfolding eq using PIdent.IH(2) [OF e True False PIdent.prems(1,2) f1 b1 rel1] Inr True
          by simp
      next
        case obj: True
        from step_proto [OF rel1 f1 PIdent.prems(1,2) b1 fresh t]
        obtain st2 where p: "h_set_prototype_of st1 a v1 = Some (True, st2)"
          and rel2: "obj_rel st2 a (JsObj (obj_props obj) t)" and f2: "fwd_from st2 lo"
          and b2: "st2 ! 0 = object_prototype_obj"
          by blast
        from literal_set_proto_deref [OF t] obj have "literal_set_proto obj t = JsObj (obj_props obj) t"
          by simp
        moreover have eq: "h_eval_props st a (PIdent k e # ds) = h_eval_props st2 a ds"
          using e p True obj by simp
        ultimately show ?thesis
          unfolding eq using PIdent.IH(3) [OF e True obj p PIdent.prems(1,2) f2 b2 rel2] Inr True
          by simp
      qed
    next
      case False
      from step_create [OF rel1 f1 PIdent.prems(1,2) b1 fresh t]
      obtain st2 where c: "h_create_data_property st1 a k v1 = Some (True, st2)"
        and rel2: "obj_rel st2 a (create_data_property obj k t)" and f2: "fwd_from st2 lo"
        and b2: "st2 ! 0 = object_prototype_obj"
        by blast
      have eq: "h_eval_props st a (PIdent k e # ds) = h_eval_props st2 a ds"
        using e c False by simp
      show ?thesis
        unfolding eq using PIdent.IH(4) [OF e False c PIdent.prems(1,2) f2 b2 rel2] Inr False
        by simp
    qed
  qed
qed

subsection \<open>Get reads what the tree model reads\<close>

lemma deref_props_map_of:
  "deref_props n st hps = Some ps \<Longrightarrow>
     (map_of hps k = None \<longleftrightarrow> map_of ps k = None) \<and>
     (\<forall>c. map_of hps k = Some (HProtoAccessor c) \<longrightarrow> map_of ps k = Some ProtoAccessor) \<and>
     (\<forall>v w e c. map_of hps k = Some (HData v w e c) \<longrightarrow>
        (\<exists>t. map_of ps k = Some (DataProp t) \<and> deref n st v = Some t))"
proof (induction hps arbitrary: ps)
  case (Cons kp hps)
  obtain k' p where kp: "kp = (k', p)"
    by (cases kp)
  show ?case
  proof (cases p)
    case (HData v w e c)
    with Cons.prems kp obtain t ts where "deref n st v = Some t" "deref_props n st hps = Some ts"
      and "ps = (k', DataProp t) # ts"
      by (auto split: option.splits)
    with Cons.IH kp HData show ?thesis
      by auto
  next
    case (HProtoAccessor c)
    with Cons.prems kp obtain ts where "deref_props n st hps = Some ts"
      and "ps = (k', ProtoAccessor) # ts"
      by auto
    with Cons.IH kp HProtoAccessor show ?thesis
      by auto
  qed
qed simp

lemma deref_HRef:
  "deref n st (HRef b) = Some t \<Longrightarrow>
     \<exists>n' ps p. n = Suc n' \<and> b < length st \<and> deref_props n' st (hprops (st ! b)) = Some ps \<and>
       deref n' st (hproto (st ! b)) = Some p \<and> t = JObject (JsObj ps p)"
  by (cases n) (auto simp: obj_at_def split: if_splits option.splits)

lemma deref_not_object:
  "deref n st v = Some (JObject q) \<Longrightarrow> \<exists>b. v = HRef b"
  by (cases n; cases v) auto

lemma h_get_refines_aux:
  assumes recv: "deref (Suc m) st (HRef r) = Some (JObject robj)"
  shows "deref n st (HRef b) = Some (JObject ob) \<Longrightarrow>
           \<exists>v j. h_get st b k r = Some v \<and> deref j st v = Some (obj_get ob k robj)"
proof (induction n arbitrary: b ob rule: less_induct)
  case (less n)
  from deref_HRef [OF less.prems] obtain n' ps p where n: "n = Suc n'" and b: "b < length st"
    and ps: "deref_props n' st (hprops (st ! b)) = Some ps"
    and p: "deref n' st (hproto (st ! b)) = Some p" and ob: "ob = JsObj ps p"
    by auto
  from deref_HRef [OF recv] obtain rps rp where r: "r < length st"
    and rp: "deref m st (hproto (st ! r)) = Some rp" and robj: "robj = JsObj rps rp"
    by auto
  note props = deref_props_map_of [OF ps, of k]
  show ?case
  proof (cases "map_of (hprops (st ! b)) k")
    case None
    with props have none: "map_of ps k = None"
      by simp
    show ?thesis
    proof (cases "hproto (st ! b)")
      case (HRef c)
      with p obtain q where q: "p = JObject q"
        by (cases n') (auto simp: obj_at_def split: if_splits option.splits)
      with HRef p n have "\<exists>v j. h_get st c k r = Some v \<and> deref j st v = Some (obj_get q k robj)"
        by (intro less.IH) auto
      with None HRef b ob q none show ?thesis
        by (subst h_get.simps) (simp add: obj_at_def)
    next
      case HUndefined
      with p n b None ob none show ?thesis
        by (cases n') (subst h_get.simps, auto simp: obj_at_def intro!: exI [of _ 1])+
    next
      case HNull
      with p n b None ob none show ?thesis
        by (cases n') (subst h_get.simps, auto simp: obj_at_def intro!: exI [of _ 1])+
    next
      case (HString s)
      with p n b None ob none show ?thesis
        by (cases n') (subst h_get.simps, auto simp: obj_at_def intro!: exI [of _ 1])+
    next
      case (HBuiltin f)
      with p n b None ob none show ?thesis
        by (cases n') (subst h_get.simps, auto simp: obj_at_def intro!: exI [of _ 1])+
    qed
  next
    case (Some hp)
    show ?thesis
    proof (cases hp)
      case (HData v w e c)
      with Some props obtain t where "map_of ps k = Some (DataProp t)" and "deref n' st v = Some t"
        by blast
      with Some HData b ob show ?thesis
        by (subst h_get.simps) (auto simp: obj_at_def)
    next
      case (HProtoAccessor c)
      with Some props have "map_of ps k = Some ProtoAccessor"
        by blast
      with Some HProtoAccessor b ob r rp robj show ?thesis
        by (subst h_get.simps) (auto simp: obj_at_def)
    qed
  qed
qed

lemma h_js_get_deref:
  assumes "deref n st (HRef a) = Some (JObject obj)"
  shows "\<exists>v m. h_js_get st a k = Some v \<and> deref m st v = Some (js_get obj k)"
proof -
  from deref_HRef [OF assms] obtain n' where "n = Suc n'"
    by blast
  with assms show ?thesis
    using h_get_refines_aux [of n' st a obj n a obj k] by (simp add: h_js_get_def js_get_def)
qed

end
