(* ===== verification/StoreIntegrity.thy ===== *)
theory StoreIntegrity
  imports StoreWf
begin

text \<open>
  The operations on own properties and integrity levels that a program
  importing the table can apply to it: \<open>Object.hasOwn\<close>, the \<open>delete\<close>
  operator, \<open>Object.freeze\<close> and \<open>Object.isFrozen\<close>, on ordinary objects.
  They touch one object, never its prototype, so they keep the store well
  formed and always return.  Freezing an object makes every later change
  to its own properties, its extensibility and its prototype fail.
\<close>

text \<open>\<open>Object.hasOwn(o, k)\<close> (20.1.2.13) on an object: HasOwnProperty.\<close>

definition h_has_own :: "store \<Rightarrow> ref \<Rightarrow> string \<Rightarrow> bool option" where
  "h_has_own st a k = map_option (\<lambda>ob. map_of (hprops ob) k \<noteq> None) (obj_at st a)"

text \<open>
  OrdinaryDelete(O, P) (10.1.10): an absent key gives \<open>true\<close>, a
  configurable one is removed, a non-configurable one gives \<open>false\<close>.
\<close>

definition h_delete_prop :: "store \<Rightarrow> ref \<Rightarrow> string \<Rightarrow> (bool \<times> store) option" where
  "h_delete_prop st a k =
     (case obj_at st a of
        None \<Rightarrow> None
      | Some ob \<Rightarrow>
          (case map_of (hprops ob) k of
             None \<Rightarrow> Some (True, st)
           | Some p \<Rightarrow>
               if prop_configurable p
               then Some (True, st[a := ob\<lparr>hprops := AList.delete k (hprops ob)\<rparr>])
               else Some (False, st)))"

text \<open>\<open>delete o[k]\<close> in strict code (13.5.1.2): a \<open>false\<close> result is a TypeError.\<close>

definition h_delete :: "store \<Rightarrow> ref \<Rightarrow> string \<Rightarrow> (js_error + store) option" where
  "h_delete st a k =
     map_option (\<lambda>(ok, st'). if ok then Inr st' else Inl TypeError) (h_delete_prop st a k)"

definition prop_writable :: "hprop \<Rightarrow> bool" where
  "prop_writable p = (case p of HData _ w _ _ \<Rightarrow> w | HProtoAccessor _ \<Rightarrow> False)"

text \<open>
  The descriptor SetIntegrityLevel(O, frozen) defines on each own property:
  \<open>{[[Configurable]]: false}\<close> on an accessor, and also
  \<open>{[[Writable]]: false}\<close> on a data property.
\<close>

fun freeze_prop :: "hprop \<Rightarrow> hprop" where
  "freeze_prop (HData v _ e _) = HData v False e False"
| "freeze_prop (HProtoAccessor _) = HProtoAccessor False"

text \<open>
  \<open>Object.freeze(o)\<close> (20.1.2.6) on an object: PreventExtensions, which
  succeeds on ordinary objects and on \<open>Object.prototype\<close>, then
  DefinePropertyOrThrow of the frozen descriptor for every own key, each of
  which succeeds because it only removes permissions; the keys keep their
  order.
\<close>

definition h_freeze :: "store \<Rightarrow> ref \<Rightarrow> (js_error + store) option" where
  "h_freeze st a =
     map_option (\<lambda>ob. Inr (st[a := ob\<lparr>hprops := map (\<lambda>(k, p). (k, freeze_prop p)) (hprops ob),
                                     hextensible := False\<rparr>]))
                (obj_at st a)"

text \<open>\<open>Object.isFrozen(o)\<close> (20.1.2.16) on an object: TestIntegrityLevel(O, frozen).\<close>

definition hobj_frozen :: "hobj \<Rightarrow> bool" where
  "hobj_frozen ob \<longleftrightarrow>
     \<not> hextensible ob \<and> list_all (\<lambda>(k, p). \<not> prop_configurable p \<and> \<not> prop_writable p) (hprops ob)"

definition h_is_frozen :: "store \<Rightarrow> ref \<Rightarrow> bool option" where
  "h_is_frozen st a = map_option hobj_frozen (obj_at st a)"

subsection \<open>Both operations keep the invariant and return\<close>

lemma set_delete_subset: "set (AList.delete k ps) \<subseteq> set ps"
  by (auto simp: AList.delete_eq)

lemma hobj_refs_delete:
  "set (hobj_refs (ob\<lparr>hprops := AList.delete k (hprops ob)\<rparr>)) \<subseteq> set (hobj_refs ob)"
  using set_delete_subset [of k "hprops ob"] by (auto simp: hobj_refs_def)

lemma hprop_refs_freeze [simp]: "hprop_refs (freeze_prop p) = hprop_refs p"
  by (cases p) simp_all

lemma fst_comp_freeze [simp]: "fst \<circ> (\<lambda>(k, p). (k, freeze_prop p)) = fst"
  by auto

lemma hobj_refs_freeze:
  "hobj_refs (ob\<lparr>hprops := map (\<lambda>(k, p). (k, freeze_prop p)) (hprops ob), hextensible := x\<rparr>)
     = hobj_refs ob"
proof -
  have "concat (map (hprop_refs \<circ> snd) (map (\<lambda>(k, p). (k, freeze_prop p)) ps))
      = concat (map (hprop_refs \<circ> snd) ps)" for ps :: "(string \<times> hprop) list"
    by (induction ps) auto
  then show ?thesis
    by (simp add: hobj_refs_def)
qed

lemma keys_distinct_nth:
  "keys_distinct st \<Longrightarrow> a < length st \<Longrightarrow> distinct (map fst (hprops (st ! a)))"
  by (auto simp: keys_distinct_def list_all_iff)

lemma store_wf_h_delete:
  assumes wf: "store_wf st" and ret: "h_delete st a k = Some (Inr st')"
  shows "store_wf st' \<and> length st' = length st"
proof (cases "st' = st")
  case False
  with ret have a: "a < length st"
    and st': "st' = st[a := (st ! a)\<lparr>hprops := AList.delete k (hprops (st ! a))\<rparr>]"
    by (auto simp: h_delete_def h_delete_prop_def split: option.splits if_splits)
  have "distinct (map fst (AList.delete k (hprops (st ! a))))"
    using wf a by (simp add: distinct_delete keys_distinct_nth store_wf_def)
  then show ?thesis
    unfolding st' using wf a hobj_refs_delete
    by (simp add: store_wf_update_same_proto)
qed (use wf in simp)

lemma store_wf_h_freeze:
  assumes wf: "store_wf st" and ret: "h_freeze st a = Some (Inr st')"
  shows "store_wf st' \<and> length st' = length st"
proof -
  from ret have a: "a < length st"
    and st': "st' = st[a := (st ! a)\<lparr>hprops := map (\<lambda>(k, p). (k, freeze_prop p)) (hprops (st ! a)),
                                     hextensible := False\<rparr>]"
    by (auto simp: h_freeze_def)
  have "store_wf st'"
    unfolding st' using wf a
    by (intro store_wf_update_same_proto) (simp_all add: hobj_refs_freeze keys_distinct_nth store_wf_def)
  then show ?thesis
    by (simp add: st')
qed

lemma h_delete_returns: "a < length st \<Longrightarrow> \<exists>r. h_delete st a k = Some r"
  by (auto simp: h_delete_def h_delete_prop_def split: option.splits)

lemma h_freeze_returns: "a < length st \<Longrightarrow> \<exists>st'. h_freeze st a = Some (Inr st')"
  by (simp add: h_freeze_def)

subsection \<open>A frozen object is left as it is\<close>

text \<open>
  Every operation that could change an object checks extensibility,
  configurability or writability first, and a frozen object has none of
  them; operations on other objects write elsewhere.
\<close>

lemma frozen_prop:
  "hobj_frozen ob \<Longrightarrow> map_of (hprops ob) k = Some p \<Longrightarrow>
     \<not> prop_configurable p \<and> \<not> prop_writable p"
  by (auto simp: hobj_frozen_def list_all_iff dest: map_of_SomeD)

lemma frozen_not_extensible: "hobj_frozen ob \<Longrightarrow> \<not> hextensible ob"
  by (simp add: hobj_frozen_def)

lemma create_data_property_frozen:
  assumes fr: "hobj_frozen (st ! a)" and ret: "h_create_data_property st b k v = Some (ok, st')"
  shows "st' ! a = st ! a"
proof (cases "b = a")
  case True
  with ret fr show ?thesis
    by (auto simp: h_create_data_property_def Let_def dest: frozen_prop frozen_not_extensible
        split: option.splits if_splits)
next
  case False
  with ret show ?thesis
    by (auto simp: h_create_data_property_def Let_def split: option.splits if_splits)
qed

lemma set_on_receiver_frozen:
  assumes fr: "hobj_frozen (st ! a)" and ret: "set_on_receiver st k v recv = Some (ok, st')"
  shows "st' ! a = st ! a"
proof (cases "map_of (hprops (st ! recv)) k")
  case None
  with ret have "h_create_data_property st recv k v = Some (ok, st')"
    by (auto simp: set_on_receiver_def split: option.splits)
  then show ?thesis
    by (rule create_data_property_frozen [OF fr])
next
  case (Some p)
  with ret fr frozen_prop [OF fr, of k] show ?thesis
    by (cases p; cases "recv = a") (auto simp: set_on_receiver_def prop_writable_def obj_at_def split: if_splits)
qed

lemma set_prototype_of_frozen:
  assumes fr: "hobj_frozen (st ! a)" and ret: "h_set_prototype_of st b v = Some (ok, st')"
  shows "st' ! a = st ! a"
  using ret frozen_not_extensible [OF fr]
  by (cases "b = a") (auto simp: h_set_prototype_of_def obj_at_def split: if_splits Option.bind_splits)

lemma proto_setter_frozen:
  assumes fr: "hobj_frozen (st ! a)" and ret: "proto_setter st recv v = Some (Inr (ok, st'))"
  shows "st' ! a = st ! a"
  using ret set_prototype_of_frozen [OF fr]
  by (auto simp: proto_setter_def split: if_splits Option.bind_splits)

lemma h_assign_frozen:
  assumes fr: "hobj_frozen (st ! a)" and ret: "h_assign st b k v = Some (Inr st')"
  shows "st' ! a = st ! a"
proof -
  from ret have "h_set st b k v b = Some (Inr (True, st'))"
    by (auto simp: h_assign_def split: option.splits sum.splits if_splits)
  from h_set_result [OF this refl] show ?thesis
    using set_on_receiver_frozen [OF fr] proto_setter_frozen [OF fr] by auto
qed

lemma object_set_prototype_of_frozen:
  assumes fr: "hobj_frozen (st ! a)" and ret: "object_set_prototype_of st b v = Some (Inr st')"
  shows "st' ! a = st ! a"
  using ret set_prototype_of_frozen [OF fr]
  by (auto simp: object_set_prototype_of_def split: if_splits Option.bind_splits)

lemma h_delete_frozen:
  assumes fr: "hobj_frozen (st ! a)" and ret: "h_delete st b k = Some (Inr st')"
  shows "st' ! a = st ! a"
  using ret frozen_prop [OF fr, of k]
  by (cases "b = a") (auto simp: h_delete_def h_delete_prop_def split: option.splits if_splits)

lemma freeze_props_frozen:
  "list_all (\<lambda>(k, p). \<not> prop_configurable p \<and> \<not> prop_writable p) ps \<Longrightarrow>
     map (\<lambda>(k, p). (k, freeze_prop p)) ps = ps"
proof (induction ps)
  case (Cons kp ps)
  then show ?case
    by (cases kp; cases "snd kp") (auto simp: prop_configurable_def prop_writable_def)
qed simp

lemma h_freeze_frozen:
  assumes fr: "hobj_frozen (st ! a)" and ret: "h_freeze st b = Some (Inr st')"
  shows "st' ! a = st ! a"
proof (cases "b = a")
  case True
  have "(st ! a)\<lparr>hprops := map (\<lambda>(k, p). (k, freeze_prop p)) (hprops (st ! a)), hextensible := False\<rparr>
      = st ! a"
    using fr by (simp add: hobj_frozen_def freeze_props_frozen)
  with ret True show ?thesis
    by (auto simp: h_freeze_def)
next
  case False
  with ret show ?thesis
    by (auto simp: h_freeze_def)
qed

lemma freeze_prop_frozen: "\<not> prop_configurable (freeze_prop p) \<and> \<not> prop_writable (freeze_prop p)"
  by (cases p) (simp_all add: prop_configurable_def prop_writable_def)

lemma h_freeze_is_frozen:
  "h_freeze st a = Some (Inr st') \<Longrightarrow> hobj_frozen (st' ! a)"
  by (auto simp: h_freeze_def hobj_frozen_def list_all_iff freeze_prop_frozen)


subsection \<open>What a frozen object refuses, and what freezing keeps\<close>

lemma h_assign_frozen_own:
  assumes a: "a < length st" and fr: "hobj_frozen (st ! a)"
    and k: "map_of (hprops (st ! a)) k = Some (HData x w e c)"
  shows "h_assign st a k v = Some (Inl TypeError)"
proof -
  have "\<not> w"
    using frozen_prop [OF fr k] by (simp add: prop_writable_def)
  with a k show ?thesis
    by (simp add: h_assign_def h_set.simps [of st a] obj_at_def)
qed

lemma h_delete_frozen_own:
  assumes a: "a < length st" and fr: "hobj_frozen (st ! a)" and k: "map_of (hprops (st ! a)) k = Some p"
  shows "h_delete st a k = Some (Inl TypeError)"
  using a k frozen_prop [OF fr k] by (simp add: h_delete_def h_delete_prop_def obj_at_def)

lemma object_set_prototype_of_frozen_refused:
  assumes a: "a < length st" and fr: "hobj_frozen (st ! a)" and m: "\<not> himmutable_proto (st ! a)"
    and v: "is_object_or_null v" and new: "v \<noteq> hproto (st ! a)"
  shows "object_set_prototype_of st a v = Some (Inl TypeError)"
  using a m v new frozen_not_extensible [OF fr]
  by (simp add: object_set_prototype_of_def h_set_prototype_of_def obj_at_def)

lemma h_object_keys_same:
  "a < length st \<Longrightarrow> a < length st' \<Longrightarrow> st' ! a = st ! a \<Longrightarrow> h_object_keys st' a = h_object_keys st a"
  by (simp add: h_object_keys_def obj_at_def)

lemma enumerable_freeze [simp]: "prop_enumerable (freeze_prop p) = prop_enumerable p"
  by (cases p) (simp_all add: prop_enumerable_def)

lemma h_object_keys_freeze:
  assumes "h_freeze st a = Some (Inr st')"
  shows "h_object_keys st' a = h_object_keys st a"
proof -
  have "(\<lambda>k. case map_of (map (\<lambda>(k, p). (k, freeze_prop p)) ps) k of
              Some p \<Rightarrow> prop_enumerable p | None \<Rightarrow> False)
      = (\<lambda>k. case map_of ps k of Some p \<Rightarrow> prop_enumerable p | None \<Rightarrow> False)" for ps
    by (rule ext) (simp add: map_of_map split: option.split)
  note en = this
  from assms have "a < length st"
    and "st' = st[a := (st ! a)\<lparr>hprops := map (\<lambda>(k, p). (k, freeze_prop p)) (hprops (st ! a)),
                                 hextensible := False\<rparr>]"
    by (auto simp: h_freeze_def)
  then show ?thesis
    by (simp add: h_object_keys_def obj_at_def en)
qed


lemma h_js_get_own:
  "a < length st \<Longrightarrow> map_of (hprops (st ! a)) k = Some (HData v w e c) \<Longrightarrow> h_js_get st a k = Some v"
  by (simp add: h_js_get_def h_get.simps [of st a] obj_at_def)

end
