(* ===== verification/StoreReach.thy ===== *)
theory StoreReach
  imports StoreRefine StoreIntegrity
begin

text \<open>
  The stores a program can reach.  A program that imports the table runs
  in the same realm as the module that defines it, and what it can do to the
  objects is a sequence of operations on the store: evaluate an object
  literal (as the module itself does), assign \<open>o[k] = v\<close>, call
  \<open>Object.setPrototypeOf(o, v)\<close>, \<open>delete o[k]\<close>, \<open>Object.freeze(o)\<close>.  Reads (Get, \<open>Object.keys\<close>) leave the
  store as it is.  An operation that throws leaves the store unchanged: the
  only errors literal evaluation can raise are early SyntaxErrors, raised
  before any code runs, and a refused assignment or SetPrototypeOf changes
  nothing.  \<open>reachable_from st0\<close> is the set of stores reached from
  \<open>st0\<close> by such operations, the arguments of every operation being values
  of the store.

  The invariant \<open>store_wf\<close> of \<open>StoreWf\<close> holds in the initial store and
  every operation keeps it, so it holds in every store reachable from a
  well-formed one (rule induction); there every operation returns and a
  prototype cycle is refused.
\<close>

datatype store_op =
    OpEval expr
  | OpAssign ref string hval
  | OpSetProto ref hval
  | OpDelete ref string
  | OpFreeze ref

definition op_args_ok :: "store \<Rightarrow> store_op \<Rightarrow> bool" where
  "op_args_ok st op =
     (case op of
        OpEval _ \<Rightarrow> True
      | OpAssign a _ v \<Rightarrow> a < length st \<and> closed_val st v
      | OpSetProto a v \<Rightarrow> a < length st \<and> closed_val st v
      | OpDelete a _ \<Rightarrow> a < length st
      | OpFreeze a \<Rightarrow> a < length st)"

fun exec_op :: "store \<Rightarrow> store_op \<Rightarrow> (js_error + store) option" where
  "exec_op st (OpEval e) = map_option (map_sum id fst) (h_eval_expr st e)"
| "exec_op st (OpAssign a k v) = h_assign st a k v"
| "exec_op st (OpSetProto a v) = object_set_prototype_of st a v"
| "exec_op st (OpDelete a k) = h_delete st a k"
| "exec_op st (OpFreeze a) = h_freeze st a"

text \<open>
  A script: the operations in order, the first thrown error ending it (an
  uncaught exception ends the module's evaluation).  \<open>ops_args_ok\<close> says
  that each operation's arguments are values of the store it runs on.
\<close>

fun exec_ops :: "store \<Rightarrow> store_op list \<Rightarrow> (js_error + store) option" where
  "exec_ops st [] = Some (Inr st)"
| "exec_ops st (op # ops) =
     (case exec_op st op of
        None \<Rightarrow> None
      | Some (Inl err) \<Rightarrow> Some (Inl err)
      | Some (Inr st') \<Rightarrow> exec_ops st' ops)"

fun ops_args_ok :: "store \<Rightarrow> store_op list \<Rightarrow> bool" where
  "ops_args_ok st [] = True"
| "ops_args_ok st (op # ops) =
     (op_args_ok st op \<and> (case exec_op st op of Some (Inr st') \<Rightarrow> ops_args_ok st' ops | _ \<Rightarrow> True))"

inductive reachable_from :: "store \<Rightarrow> store \<Rightarrow> bool" for st0 :: store where
  start: "reachable_from st0 st0"
| step: "reachable_from st0 st \<Longrightarrow> op_args_ok st op \<Longrightarrow> exec_op st op = Some (Inr st') \<Longrightarrow>
           reachable_from st0 st'"

subsection \<open>Every operation keeps the invariant\<close>

lemma store_wf_init: "store_wf init_store"
proof -
  have e: "proto_edges init_store = {}"
    by (auto simp: proto_edges_iff init_store_def object_prototype_obj_def)
  have "acyclic (proto_edges init_store)"
    unfolding e by (simp add: acyclic_def)
  moreover have "store_closed init_store \<and> keys_distinct init_store \<and> object_prototype_ok init_store"
    by (simp add: store_closed_def keys_distinct_def object_prototype_ok_def
        init_store_def hobj_refs_def object_prototype_obj_def object_prototype_def)
  ultimately show ?thesis
    by (simp add: store_wf_def)
qed

lemma exec_op_eval:
  "exec_op st (OpEval e) = Some (Inr st') \<Longrightarrow> \<exists>v. h_eval_expr st e = Some (Inr (st', v))"
  by (cases "h_eval_expr st e") (auto simp: map_sum_def split: sum.splits)

lemma store_wf_exec_op:
  assumes wf: "store_wf st" and ok: "op_args_ok st op" and ex: "exec_op st op = Some (Inr st')"
  shows "store_wf st'"
proof (cases op)
  case (OpEval e)
  with ex obtain v where "h_eval_expr st e = Some (Inr (st', v))"
    using exec_op_eval by blast
  then show ?thesis
    using store_wf_h_eval(1) wf by blast
next
  case (OpAssign a k v)
  with ex ok wf show ?thesis
    using store_wf_h_assign by (auto simp: op_args_ok_def)
next
  case (OpSetProto a v)
  with ex ok wf show ?thesis
    using store_wf_object_set_prototype_of by (auto simp: op_args_ok_def)
next
  case (OpDelete a k)
  with ex wf show ?thesis
    using store_wf_h_delete by auto
next
  case (OpFreeze a)
  with ex wf show ?thesis
    using store_wf_h_freeze by auto
qed

lemma exec_op_returns:
  assumes wf: "store_wf st" and ok: "op_args_ok st op"
  shows "\<exists>r. exec_op st op = Some r"
proof (cases op)
  case (OpEval e)
  then show ?thesis
    using h_eval_returns(1) [OF wf] by auto
next
  case (OpAssign a k v)
  with ok show ?thesis
    using h_assign_returns [OF wf] by (auto simp: op_args_ok_def)
next
  case (OpSetProto a v)
  with ok show ?thesis
    using object_set_prototype_of_returns [OF wf] by (auto simp: op_args_ok_def)
next
  case (OpDelete a k)
  with ok show ?thesis
    using h_delete_returns by (auto simp: op_args_ok_def)
next
  case (OpFreeze a)
  with ok show ?thesis
    using h_freeze_returns by (auto simp: op_args_ok_def)
qed

text \<open>Every operation keeps the length of the store or allocates after it.\<close>

lemma exec_op_length:
  assumes wf: "store_wf st" and ok: "op_args_ok st op" and ex: "exec_op st op = Some (Inr st')"
  shows "length st \<le> length st'"
proof (cases op)
  case (OpEval e)
  with ex obtain v where "h_eval_expr st e = Some (Inr (st', v))"
    using exec_op_eval by blast
  then show ?thesis
    using store_wf_h_eval(1) wf by blast
next
  case (OpAssign a k v)
  with ex ok wf show ?thesis
    using store_wf_h_assign by (fastforce simp: op_args_ok_def)
next
  case (OpSetProto a v)
  with ex ok wf show ?thesis
    using store_wf_object_set_prototype_of by (fastforce simp: op_args_ok_def)
next
  case (OpDelete a k)
  with ex wf show ?thesis
    using store_wf_h_delete by fastforce
next
  case (OpFreeze a)
  with ex wf show ?thesis
    using store_wf_h_freeze by fastforce
qed

text \<open>
  An operation leaves a frozen object as it is: literal evaluation only
  appends objects, and the other operations refuse to change it.
\<close>

lemma exec_op_frozen:
  assumes wf: "store_wf st" and a: "a < length st" and fr: "hobj_frozen (st ! a)"
    and ex: "exec_op st op = Some (Inr st')"
  shows "st' ! a = st ! a"
proof (cases op)
  case (OpEval e)
  with ex obtain v where "h_eval_expr st e = Some (Inr (st', v))"
    using exec_op_eval by blast
  moreover have "st \<noteq> []"
    using wf by (simp add: store_wf_def object_prototype_ok_def)
  ultimately obtain ys where "st' = st @ ys"
    using h_eval_frame(1) by blast
  with a show ?thesis
    by (simp add: nth_append)
qed (use ex h_assign_frozen [OF fr] object_set_prototype_of_frozen [OF fr]
      h_delete_frozen [OF fr] h_freeze_frozen [OF fr] in simp_all)


lemma proto_chain_has_True:
  assumes wf: "store_wf st" and b: "b < length st" and path: "(b, a) \<in> (proto_edges st)\<^sup>*"
  shows "proto_chain_has st (HRef b) a = Some True"
proof -
  have "closed_val st (HRef b)"
    using b by (simp add: closed_val_def)
  then have "\<exists>r. proto_chain_has st (HRef b) a = Some r"
    using proto_chain_has_returns wf by (simp add: store_wf_def)
  then obtain r where r: "proto_chain_has st (HRef b) a = Some r"
    by blast
  show ?thesis
  proof (cases r)
    case False
    with r have "(b, a) \<notin> (proto_edges st)\<^sup>*"
      using proto_chain_has_False by simp
    with path show ?thesis
      by simp
  qed (use r in simp)
qed

lemma reachable_from_wf:
  "reachable_from st0 st \<Longrightarrow> store_wf st0 \<Longrightarrow> store_wf st"
proof (induction rule: reachable_from.induct)
  case (step st op st')
  show ?case
    by (rule store_wf_exec_op [OF step.IH [OF step.prems] step.hyps(2,3)])
qed

lemma reachable_from_trans:
  "reachable_from st1 st2 \<Longrightarrow> reachable_from st0 st1 \<Longrightarrow> reachable_from st0 st2"
  by (induction rule: reachable_from.induct) (auto intro: reachable_from.step)

text \<open>A frozen object stays as it is in every store reachable from its store.\<close>

lemma reachable_frozen:
  "reachable_from st0 st \<Longrightarrow> store_wf st0 \<Longrightarrow> a < length st0 \<Longrightarrow> hobj_frozen (st0 ! a) \<Longrightarrow>
     a < length st \<and> st ! a = st0 ! a"
proof (induction rule: reachable_from.induct)
  case (step st op st')
  then have wf: "store_wf st" and a: "a < length st" and eq: "st ! a = st0 ! a"
    using reachable_from_wf by blast+
  with step.prems have "hobj_frozen (st ! a)"
    by simp
  with wf a step.hyps(2,3) eq show ?case
    using exec_op_length [OF wf step.hyps(2,3)] exec_op_frozen [OF wf a _ step.hyps(3)] by simp
qed simp

text \<open>A script whose steps have arguments of their stores reaches its result.\<close>

lemma exec_ops_reachable:
  "exec_ops st ops = Some (Inr st') \<Longrightarrow> ops_args_ok st ops \<Longrightarrow> reachable_from st0 st \<Longrightarrow>
     reachable_from st0 st'"
proof (induction ops arbitrary: st)
  case (Cons op ops)
  then obtain st1 where ex: "exec_op st op = Some (Inr st1)" and rest: "exec_ops st1 ops = Some (Inr st')"
    by (auto split: option.splits sum.splits)
  with Cons.prems have "op_args_ok st op" and "ops_args_ok st1 ops"
    by simp_all
  with Cons.prems(3) ex have "reachable_from st0 st1"
    by (blast intro: reachable_from.step)
  with Cons.IH rest \<open>ops_args_ok st1 ops\<close> show ?case
    by blast
qed simp

lemma exec_ops_returns:
  "store_wf st \<Longrightarrow> ops_args_ok st ops \<Longrightarrow> \<exists>r. exec_ops st ops = Some r"
proof (induction ops arbitrary: st)
  case (Cons op ops)
  then obtain r where r: "exec_op st op = Some r"
    using exec_op_returns by fastforce
  show ?case
  proof (cases r)
    case (Inr st1)
    with r Cons.prems have "store_wf st1" and "ops_args_ok st1 ops"
      using store_wf_exec_op by auto
    with Cons.IH r Inr show ?thesis
      by simp
  qed (use r in simp)
qed simp

lemma reachable_from_op:
  "op_args_ok st op \<Longrightarrow> exec_op st op = Some (Inr st') \<Longrightarrow> reachable_from st st'"
  by (rule reachable_from.step [OF reachable_from.start])

text \<open>A prototype cycle is refused on every well-formed store.\<close>

lemma set_prototype_cycle_wf:
  assumes wf: "store_wf st" and a: "a < length st" and b: "b < length st"
    and path: "(b, a) \<in> (proto_edges st)\<^sup>*"
  shows "exec_op st (OpSetProto a (HRef b)) = Some (Inl TypeError)"
proof -
  have "HRef b \<noteq> hproto (st ! a)"
  proof
    assume "HRef b = hproto (st ! a)"
    with a have "(a, b) \<in> proto_edges st"
      by (simp add: proto_edges_iff)
    then have "(a, a) \<in> (proto_edges st)\<^sup>+"
      using path by (rule rtrancl_into_trancl2)
    with wf show False
      by (simp add: store_wf_def acyclic_def)
  qed
  moreover have "proto_chain_has st (HRef b) a = Some True"
    using proto_chain_has_True [OF wf b path] .
  ultimately show ?thesis
    using a by (auto simp: object_set_prototype_of_def h_set_prototype_of_def is_object_or_null_def obj_at_def)
qed

end
