(* ===== verification/SampleStore.thy ===== *)
theory SampleStore
  imports SampleCode StoreRefine StoreReach
begin

text \<open>
  The module \<open>src/packages/demo/src/sample-code.ts\<close> evaluated in the
  object store.  Evaluating \<open>export const sampleCode = {...}\<close> in the
  initial store allocates the table at reference 1 and then, for each
  computed property in order, the entry object (references 2 to 5) before
  defining the label on the table.  \<open>sampleCode\<close> is bound to the
  reference, and every module that imports it reads the same binding, so all
  of them share these objects: whatever one of them does to the table, the
  others see.

  The properties: the module's store and how it reads back as the tree
  model's value, and what assignments to the shared table do, which the
  spec's "immutable registry" does not allow.
\<close>

text \<open>An entry object \<open>{ language: lang, code: `body` }\<close> as it is allocated.\<close>

definition entry_hobj :: "string \<Rightarrow> string \<Rightarrow> hobj" where
  "entry_hobj lang body =
     new_hobj\<lparr>hprops := [(''language'', HData (HString lang) True True True),
                          (''code'', HData (HString (normalise_eol body)) True True True)]\<rparr>"

text \<open>
  The table object at reference \<open>n\<close>: each label holds the reference of its
  entry, allocated right after the table in row order.
\<close>

definition table_hobj :: "ref \<Rightarrow> row list \<Rightarrow> hobj" where
  "table_hobj n rows =
     new_hobj\<lparr>hprops := map (\<lambda>(i, r). (fst r, HData (HRef i) True True True)) (enumerate (Suc n) rows)\<rparr>"

definition row_hobj :: "row \<Rightarrow> hobj" where
  "row_hobj r = (case r of (l, lang, body) \<Rightarrow> entry_hobj lang body)"

definition table_store :: "store \<Rightarrow> row list \<Rightarrow> store" where
  "table_store st rows = st @ table_hobj (length st) rows # map row_hobj rows"

text \<open>The realm's store once the module has run: \<open>sampleCode\<close> is reference 1.\<close>

definition sample_store :: store where
  "sample_store = table_store init_store sample_rows"

subsection \<open>Evaluating a table literal in the store\<close>

lemma table_hobj_Nil [simp]: "table_hobj n [] = new_hobj"
  by (simp add: table_hobj_def new_hobj_def)

lemma keys_table_hobj: "map fst (hprops (table_hobj n rows)) = map fst rows"
proof -
  have "map (fst \<circ> (\<lambda>(i, r). (fst r, HData (HRef i) True True True))) (enumerate k rows) = map fst rows"
    for k
    by (induction rows arbitrary: k) auto
  then show ?thesis
    by (simp add: table_hobj_def new_hobj_def)
qed

lemma table_hobj_snoc:
  "table_hobj n (rows @ [r]) =
     (table_hobj n rows)\<lparr>hprops := hprops (table_hobj n rows) @
                                   [(fst r, HData (HRef (Suc n + length rows)) True True True)]\<rparr>"
  by (simp add: table_hobj_def enumerate_append_eq)

lemma h_eval_entry:
  assumes "no_escapes body"
  shows "h_eval_expr s (entry_expr lang body) = Some (Inr (s @ [entry_hobj lang body], HRef (length s)))"
  using assms
  by (simp add: entry_expr_def h_new_object_def h_create_data_property_def obj_at_def Let_def
      is_proto_setter_def template_tv_no_escapes nth_append new_hobj_def entry_hobj_def)

lemma h_eval_rows:
  assumes "distinct (map fst (pre @ rows))" and "\<forall>(l, lang, body) \<in> set rows. no_escapes body"
  shows "h_eval_props (st @ table_hobj (length st) pre # map row_hobj pre) (length st) (map row_def rows)
           = Some (Inr (st @ table_hobj (length st) (pre @ rows) # map row_hobj (pre @ rows)))"
  using assms
proof (induction rows arbitrary: pre)
  case Nil
  then show ?case
    by simp
next
  case (Cons r rows)
  obtain l lang body where r: "r = (l, lang, body)"
    by (cases r) auto
  let ?s = "st @ table_hobj (length st) pre # map row_hobj pre"
  have body: "no_escapes body"
    using Cons.prems(2) r by auto
  have fresh: "l \<notin> set (map fst pre)"
    using Cons.prems(1) r by auto
  have e: "h_eval_expr ?s (entry_expr lang body) = Some (Inr (?s @ [entry_hobj lang body], HRef (length ?s)))"
    by (rule h_eval_entry [OF body])
  have keys: "map fst (hprops (table_hobj (length st) pre)) = map fst pre"
    by (rule keys_table_hobj)
  have absent: "l \<notin> set (map fst (hprops (table_hobj (length st) pre)))"
    using fresh keys by simp
  then have none: "map_of (hprops (table_hobj (length st) pre)) l = None"
    by (simp add: map_of_eq_None_iff)
  have ext: "hextensible (table_hobj (length st) pre)"
    by (simp add: table_hobj_def new_hobj_def)
  have "h_create_data_property (?s @ [entry_hobj lang body]) (length st) l (HRef (length ?s)) =
      Some (True, st @ table_hobj (length st) (pre @ [r]) # map row_hobj (pre @ [r]))"
    using none ext update_absent_append [OF absent]
    by (simp add: h_create_data_property_def obj_at_def Let_def nth_append table_hobj_snoc r
        row_hobj_def list_update_append)
  moreover have "distinct (map fst ((pre @ [r]) @ rows))" and "\<forall>(l, lang, body) \<in> set rows. no_escapes body"
    using Cons.prems by auto
  ultimately show ?case
    using Cons.IH [of "pre @ [r]"] e r by (simp add: row_def_def)
qed

lemma h_eval_table_literal:
  assumes "distinct (map fst rows)" and "\<forall>(l, lang, body) \<in> set rows. no_escapes body"
  shows "h_eval_expr st (table_literal rows) = Some (Inr (table_store st rows, HRef (length st)))"
  using h_eval_rows [of "[]" rows st] assms
  by (simp add: table_literal_def rows_no_proto_setter h_new_object_def table_store_def)

lemma sample_module_eval:
  "h_eval_expr init_store sampleCode_expr = Some (Inr (sample_store, HRef 1))"
  using h_eval_table_literal [OF _ sample_rows_plain] sample_labels_distinct
  by (simp add: sampleCode_expr_table sample_store_def init_store_def)

subsection \<open>The module's store, object by object\<close>

lemma sample_table_hobj:
  "table_hobj (Suc 0) sample_rows =
     new_hobj\<lparr>hprops := [(''TypeScript with React'', HData (HRef 2) True True True),
                          (''JavaScript'', HData (HRef 3) True True True),
                          (''Objective-C'', HData (HRef 4) True True True),
                          (''Rust'', HData (HRef 5) True True True)]\<rparr>"
  by (simp add: table_hobj_def sample_rows_def eval_nat_numeral)

lemma sample_store_objects:
  "sample_store =
     [object_prototype_obj, table_hobj (Suc 0) sample_rows,
      entry_hobj ''tsx'' tsx_body, entry_hobj ''javascript'' javascript_body,
      entry_hobj ''objectivec'' objectivec_body, entry_hobj ''rust'' rust_body]"
  by (simp add: sample_store_def table_store_def init_store_def sample_rows_def row_hobj_def)

lemmas sample_store_simps = sample_store_objects sample_table_hobj entry_hobj_def new_hobj_def
  obj_at_def eval_nat_numeral

lemma sample_store_wf: "store_wf sample_store"
  using store_wf_h_eval(1) [OF sample_module_eval store_wf_init] by simp

lemma sample_object_keys_store: "h_object_keys sample_store 1 = Some sample_labels"
proof -
  have "ordered_keys sample_labels = sample_labels"
    using sample_labels_not_index by (rule ordered_keys_no_index)
  then show ?thesis
    by (simp add: h_object_keys_def sample_store_simps prop_enumerable_def sample_labels_def)
qed

text \<open>The table reads back as the tree model's value of \<open>sampleCode\<close>.\<close>

lemma sample_store_deref: "\<exists>n. deref n sample_store (HRef 1) = Some (JObject sample_object)"
proof -
  have "fwd_from init_store 1"
    by (simp add: fwd_from_def init_store_def)
  then have "case eval_expr sampleCode_expr of
           Inl err \<Rightarrow> h_eval_expr init_store sampleCode_expr = Some (Inl err)
         | Inr t \<Rightarrow> \<exists>st' v. h_eval_expr init_store sampleCode_expr = Some (Inr (st', v)) \<and>
                        (\<exists>n. deref n st' v = Some t)"
    by (intro h_eval_refines_aux(1)) (simp_all add: init_store_def)
  then show ?thesis
    using sampleCode_value sample_module_eval by (simp add: sampleCode_def)
qed

text \<open>\<open>sampleCode["Swift"] = sampleCode["Rust"]\<close> on the module's store.\<close>

lemma sample_swift_assign:
  "\<exists>st'. h_assign sample_store 1 ''Swift'' (HRef 5) = Some (Inr st')
     \<and> h_object_keys st' 1 = Some (sample_labels @ [''Swift''])
     \<and> h_js_get st' 1 ''Swift'' = Some (HRef 5)"
proof -
  have "ordered_keys (sample_labels @ [''Swift'']) = sample_labels @ [''Swift'']"
    using sample_labels_not_index by (intro ordered_keys_no_index) (simp add: array_index_simps)
  then show ?thesis
    by (simp add: sample_store_simps h_js_get_def h_get.simps h_assign_def h_set.simps
        set_on_receiver_def h_create_data_property_def h_object_keys_def prop_enumerable_def
        sample_labels_def object_prototype_obj_def object_prototype_def Let_def)
qed

subsection \<open>Properties\<close>

text \<open>
  C7. The module evaluated in the realm's store: \<open>export const sampleCode\<close>
  allocates the table at reference 1 (after \<open>Object.prototype\<close>) and the
  four entries at references 2 to 5 (\<open>sample_store\<close>); the table reads
  back as the tree model's value of \<open>sampleCode\<close>, and \<open>Object.keys\<close> on it
  lists the four labels in declaration order.
\<close>

theorem sample_module_store:
  "h_eval_expr init_store sampleCode_expr = Some (Inr (sample_store, HRef 1))
   \<and> (\<exists>n. deref n sample_store (HRef 1) = Some (JObject sample_object))
   \<and> h_object_keys sample_store 1 = Some sample_labels"
  using sample_module_eval sample_store_deref sample_object_keys_store by simp

text \<open>
  C8. The table is not immutable: \<open>sampleCode["Rust"]\<close> is the shared
  entry object at reference 5, and an assignment
  \<open>sampleCode["Rust"].code = s\<close> by any importer succeeds (the property is a
  writable data property and nothing freezes the objects); afterwards every
  importer reading \<open>sampleCode["Rust"].code\<close> gets \<open>s\<close>.
\<close>

theorem sampleCode_entry_mutable:
  "h_js_get sample_store 1 ''Rust'' = Some (HRef 5)
   \<and> (\<exists>st'. exec_op sample_store (OpAssign 5 ''code'' (HString s)) = Some (Inr st')
          \<and> h_js_get st' 1 ''Rust'' = Some (HRef 5)
          \<and> h_js_get st' 5 ''code'' = Some (HString s))"
  by (simp add: sample_store_simps h_js_get_def h_get.simps h_assign_def h_set.simps
      set_on_receiver_def)

text \<open>
  C9. Labels can be added after construction: \<open>sampleCode["Swift"] = e\<close>
  succeeds (the table is extensible, and neither it nor
  \<open>Object.prototype\<close> has a \<open>Swift\<close> property), and afterwards
  \<open>Object.keys(sampleCode)\<close> lists five labels, \<open>Swift\<close> last.
\<close>

theorem sampleCode_label_added:
  "\<exists>st'. exec_op sample_store (OpAssign 1 ''Swift'' (HRef 5)) = Some (Inr st')
     \<and> h_object_keys st' 1 = Some (sample_labels @ [''Swift''])
     \<and> h_js_get st' 1 ''Swift'' = Some (HRef 5)"
  using sample_swift_assign by simp

end
