(* ===== verification/StoreRegistry.thy ===== *)
theory StoreRegistry
  imports Registry StoreRefine StoreIntegrity
begin

text \<open>
  The demo's reads of the shared table on the store: \<open>get(label)\<close> as
  \<open>Object.hasOwn(table, label)\<close> followed by \<open>table[label]\<close> and the entry's
  \<open>language\<close> and \<open>code\<close>, and \<open>entries()\<close> as \<open>Object.keys(table)\<close>
  with each label read the same way.  They are the store versions of
  \<open>js_lookup\<close> and \<open>registry_of\<close> of \<open>Registry\<close>, and read the same: on
  an object that reads back as a tree object, the store lookup is the tree
  lookup, and \<open>entries()\<close> is \<open>registry_of\<close> when \<open>Object.keys\<close> lists
  every own key.
\<close>

definition h_entry_of :: "store \<Rightarrow> hval \<Rightarrow> sample_entry option" where
  "h_entry_of st v =
     (case v of
        HRef b \<Rightarrow>
          (case (h_js_get st b ''language'', h_js_get st b ''code'') of
             (Some (HString l), Some (HString c)) \<Rightarrow> Some \<lparr>language = l, code = c\<rparr>
           | _ \<Rightarrow> None)
      | _ \<Rightarrow> None)"

definition h_lookup :: "store \<Rightarrow> ref \<Rightarrow> label \<Rightarrow> sample_entry option" where
  "h_lookup st a l =
     (if h_has_own st a l = Some True then Option.bind (h_js_get st a l) (h_entry_of st) else None)"

definition h_registry :: "store \<Rightarrow> ref \<Rightarrow> registry option" where
  "h_registry st a =
     Option.bind (h_object_keys st a)
       (\<lambda>ks. those (map (\<lambda>k. Option.bind (h_js_get st a k)
                                (\<lambda>v. map_option (Pair k) (h_entry_of st v))) ks))"

subsection \<open>The store reads refine the tree reads\<close>

lemma deref_HString_iff: "deref m st v = Some t \<Longrightarrow> v = HString s \<longleftrightarrow> t = JString s"
  by (cases m; cases v) (auto split: option.splits prod.splits)

lemma h_entry_of_deref:
  assumes d: "deref m st v = Some t"
  shows "h_entry_of st v = entry_of t"
proof (cases "\<exists>obj. t = JObject obj")
  case True
  then obtain obj where t: "t = JObject obj"
    by blast
  with d obtain b where v: "v = HRef b"
    using deref_not_object by blast
  obtain v1 m1 where g1: "h_js_get st b ''language'' = Some v1"
    and d1: "deref m1 st v1 = Some (js_get obj ''language'')"
    using h_js_get_deref [of m st b obj] d t v by blast
  obtain v2 m2 where g2: "h_js_get st b ''code'' = Some v2"
    and d2: "deref m2 st v2 = Some (js_get obj ''code'')"
    using h_js_get_deref [of m st b obj] d t v by blast
  have i1: "\<And>s. v1 = HString s \<longleftrightarrow> js_get obj ''language'' = JString s"
    using d1 by (rule deref_HString_iff)
  have i2: "\<And>s. v2 = HString s \<longleftrightarrow> js_get obj ''code'' = JString s"
    using d2 by (rule deref_HString_iff)
  have e: "h_entry_of st v = (case (v1, v2) of
              (HString l, HString c) \<Rightarrow> Some \<lparr>language = l, code = c\<rparr> | _ \<Rightarrow> None)"
    unfolding h_entry_of_def v by (simp add: g1 g2 split: hval.splits)
  consider (str) l c where "v1 = HString l" "v2 = HString c"
    | (n1) "\<forall>l. v1 \<noteq> HString l" | (n2) "\<forall>c. v2 \<noteq> HString c"
    by blast
  then show ?thesis
  proof cases
    case str
    with i1 i2 have "js_get obj ''language'' = JString l" "js_get obj ''code'' = JString c"
      by blast+
    with str e show ?thesis
      by (simp add: entry_of_def t)
  next
    case n1
    with i1 have "\<forall>l. js_get obj ''language'' \<noteq> JString l"
      by blast
    with n1 e show ?thesis
      by (auto simp: entry_of_def t split: hval.splits jsval.splits)
  next
    case n2
    with i2 have "\<forall>c. js_get obj ''code'' \<noteq> JString c"
      by blast
    with n2 e show ?thesis
      by (auto simp: entry_of_def t split: hval.splits jsval.splits)
  qed
next
  case False
  with d have "\<forall>b. v \<noteq> HRef b"
    using deref_HRef by blast
  with False show ?thesis
    by (auto simp: h_entry_of_def entry_of_def split: hval.splits jsval.splits)
qed

lemma h_has_own_deref:
  assumes "deref n st (HRef a) = Some (JObject obj)"
  shows "h_has_own st a l = Some (has_own obj l)"
proof -
  from deref_HRef [OF assms] obtain n' ps p where a: "a < length st"
    and ps: "deref_props n' st (hprops (st ! a)) = Some ps" and obj: "JObject obj = JObject (JsObj ps p)"
    by blast
  have "map_of (hprops (st ! a)) l = None \<longleftrightarrow> map_of ps l = None"
    using deref_props_map_of [OF ps] by blast
  with a obj show ?thesis
    by (auto simp: h_has_own_def has_own_def obj_at_def map_of_eq_None_iff)
qed

lemma h_lookup_deref:
  assumes d: "deref n st (HRef a) = Some (JObject obj)"
  shows "h_lookup st a l = js_lookup obj l"
proof -
  obtain v m where g: "h_js_get st a l = Some v" and dv: "deref m st v = Some (js_get obj l)"
    using h_js_get_deref [OF d] by blast
  show ?thesis
    using h_has_own_deref [OF d] h_entry_of_deref [OF dv] g
    by (simp add: h_lookup_def js_lookup_def)
qed

lemma h_registry_deref:
  assumes d: "deref n st (HRef a) = Some (JObject obj)"
    and keys: "h_object_keys st a = Some (own_keys obj)"
  shows "h_registry st a = registry_of obj"
proof -
  have "Option.bind (h_js_get st a k) (\<lambda>v. map_option (Pair k) (h_entry_of st v))
      = map_option (Pair k) (entry_of (js_get obj k))" for k
  proof -
    obtain v m where g: "h_js_get st a k = Some v" and dv: "deref m st v = Some (js_get obj k)"
      using h_js_get_deref [OF d] by blast
    then show ?thesis
      using h_entry_of_deref [OF dv] by simp
  qed
  then show ?thesis
    by (simp add: h_registry_def registry_of_def keys)
qed

end
