(* ===== verification/SampleIntegrity.thy ===== *)
theory SampleIntegrity
  imports SampleStore StoreRegistry
begin

text \<open>
  The registry as the demo reads it from the shared table, and what the
  table's importers can do to it.  On the module's store the demo's
  \<open>get(label)\<close> and \<open>entries()\<close> read the declared registry; any importer
  can remove a label with \<open>delete\<close>, and a write to one entry object
  changes the lookup of its label and of no other, because the module
  allocates a separate object for each entry.
\<close>

text \<open>\<open>delete sampleCode["Rust"]\<close>, and \<open>sampleCode["Rust"].code = s\<close>, on the module's store.\<close>

abbreviation sample_deleted :: store where
  "sample_deleted \<equiv>
     sample_store[1 := (sample_store ! 1)\<lparr>hprops := AList.delete ''Rust'' (hprops (sample_store ! 1))\<rparr>]"

abbreviation sample_code_written :: "string \<Rightarrow> store" where
  "sample_code_written s \<equiv>
     sample_store[5 := (sample_store ! 5)\<lparr>hprops := AList.update ''code'' (HData (HString s) True True True)
                                                   (hprops (sample_store ! 5))\<rparr>]"

subsection \<open>The module's store after a delete or a write\<close>

lemma sample_store_length [simp]: "length sample_store = 6"
  by (simp add: sample_store_objects)

lemma sample_store_lookup: "h_lookup sample_store 1 l = reg_get (rows_registry sample_rows) l"
proof -
  obtain n where d: "deref n sample_store (HRef 1) = Some (JObject sample_object)"
    using sample_store_deref by blast
  show ?thesis
    using h_lookup_deref [OF d] sample_lookup by (simp add: reg_get_def)
qed

lemma ordered_keys_sample_prefix:
  "ordered_keys (butlast sample_labels) = butlast sample_labels"
  using sample_labels_not_index by (intro ordered_keys_no_index) (auto dest: in_set_butlastD)

lemma sample_delete_rust: "h_delete sample_store 1 ''Rust'' = Some (Inr sample_deleted)"
  by (simp add: h_delete_def h_delete_prop_def obj_at_def sample_store_objects sample_table_hobj
      new_hobj_def prop_configurable_def)

lemma sample_deleted_objects:
  "sample_deleted =
     [object_prototype_obj,
      new_hobj\<lparr>hprops := [(''TypeScript with React'', HData (HRef 2) True True True),
                          (''JavaScript'', HData (HRef 3) True True True),
                          (''Objective-C'', HData (HRef 4) True True True)]\<rparr>,
      entry_hobj ''tsx'' tsx_body, entry_hobj ''javascript'' javascript_body,
      entry_hobj ''objectivec'' objectivec_body, entry_hobj ''rust'' rust_body]"
  by (simp add: sample_store_objects sample_table_hobj new_hobj_def)

lemma sample_write_code:
  "h_assign sample_store 5 ''code'' (HString s) = Some (Inr (sample_code_written s))"
  by (simp add: sample_store_objects entry_hobj_def new_hobj_def h_assign_def h_set.simps obj_at_def
      set_on_receiver_def)

lemma sample_code_written_objects:
  "sample_code_written s =
     [object_prototype_obj, table_hobj (Suc 0) sample_rows,
      entry_hobj ''tsx'' tsx_body, entry_hobj ''javascript'' javascript_body,
      entry_hobj ''objectivec'' objectivec_body,
      new_hobj\<lparr>hprops := [(''language'', HData (HString ''rust'') True True True),
                          (''code'', HData (HString s) True True True)]\<rparr>]"
  by (simp add: sample_store_objects entry_hobj_def new_hobj_def)

subsection \<open>Properties\<close>

text \<open>
  C10. The demo's reads of the shared table give the declared registry:
  \<open>entries()\<close> (\<open>Object.keys\<close>, then each entry's \<open>language\<close> and
  \<open>code\<close>) lists the four rows in declaration order, and \<open>get(label)\<close>
  (\<open>Object.hasOwn\<close>, then the entry) is the contract's lookup for every
  label, declared or not.
\<close>

theorem sample_store_registry:
  "h_registry sample_store 1 = Some (rows_registry sample_rows)
   \<and> (\<forall>l. h_lookup sample_store 1 l = reg_get (rows_registry sample_rows) l)"
proof -
  obtain n where d: "deref n sample_store (HRef 1) = Some (JObject sample_object)"
    using sample_store_deref by blast
  have keys: "own_keys sample_object = sample_labels"
    using own_keys_no_index [of sample_object] sample_labels_not_index
    by (simp add: sample_object_def)
  have "registry_of sample_object = Some (rows_registry sample_rows)"
    using registry_of_table [of sample_rows] sample_labels_distinct sample_labels_not_index
    by (simp add: sample_object_def)
  moreover have "h_registry sample_store 1 = registry_of sample_object"
    using h_registry_deref [OF d] sample_object_keys_store keys by simp
  ultimately show ?thesis
    using sample_store_lookup by simp
qed

text \<open>
  C11. Any importer can remove a label: \<open>delete sampleCode["Rust"]\<close>
  succeeds (the property is configurable), and afterwards \<open>get("Rust")\<close>
  finds nothing, \<open>sampleCode["Rust"]\<close> is \<open>undefined\<close>, and \<open>entries()\<close>
  lists only the first three rows.
\<close>

theorem sampleCode_delete_label:
  "\<exists>st'. exec_op sample_store (OpDelete 1 ''Rust'') = Some (Inr st')
     \<and> h_lookup st' 1 ''Rust'' = None
     \<and> h_js_get st' 1 ''Rust'' = Some HUndefined
     \<and> h_object_keys st' 1 = Some (butlast sample_labels)
     \<and> h_registry st' 1 = Some (butlast (rows_registry sample_rows))"
proof -
  have get: "h_js_get sample_deleted 1 ''Rust'' = Some HUndefined"
    unfolding sample_deleted_objects
    by (simp add: h_js_get_def h_get.simps obj_at_def new_hobj_def object_prototype_obj_def
        object_prototype_def)
  have own: "h_has_own sample_deleted 1 ''Rust'' = Some False"
    unfolding sample_deleted_objects by (simp add: h_has_own_def obj_at_def new_hobj_def)
  have keys: "h_object_keys sample_deleted 1 = Some (butlast sample_labels)"
    using ordered_keys_sample_prefix unfolding sample_deleted_objects
    by (simp add: h_object_keys_def obj_at_def new_hobj_def prop_enumerable_def sample_labels_def)
  have reg: "h_registry sample_deleted 1 = Some (butlast (rows_registry sample_rows))"
    using keys unfolding sample_deleted_objects
    by (simp add: h_registry_def h_entry_of_def h_js_get_def h_get.simps obj_at_def new_hobj_def
        entry_hobj_def sample_labels_def rows_registry_def row_entry_def sample_rows_def)
  show ?thesis
    using sample_delete_rust get own keys reg by (simp add: h_lookup_def)
qed


text \<open>
  C12. The four entries are separate objects: after
  \<open>sampleCode["Rust"].code = s\<close> by any importer, \<open>get("Rust")\<close> returns the
  new code and \<open>get\<close> of every other label, declared or not, still gives
  the contract's lookup.  A write through one label does not reach another.
\<close>

theorem sampleCode_entry_write_isolated:
  "\<exists>st'. exec_op sample_store (OpAssign 5 ''code'' (HString s)) = Some (Inr st')
     \<and> (\<forall>l. h_lookup st' 1 l = (if l = ''Rust'' then Some \<lparr>language = ''rust'', code = s\<rparr>
                                 else reg_get (rows_registry sample_rows) l))"
proof -
  have "h_lookup (sample_code_written s) 1 l = (if l = ''Rust'' then Some \<lparr>language = ''rust'', code = s\<rparr>
                                               else reg_get (rows_registry sample_rows) l)" for l
  proof (cases "l \<in> set sample_labels")
    case True
    then have "l = ''TypeScript with React'' \<or> l = ''JavaScript'' \<or> l = ''Objective-C'' \<or> l = ''Rust''"
      by (simp add: sample_labels_def)
    then show ?thesis
      unfolding sample_code_written_objects sample_table_hobj
      by (elim disjE) (simp_all add: h_lookup_def h_has_own_def h_js_get_def h_get.simps obj_at_def
          h_entry_of_def new_hobj_def entry_hobj_def reg_get_def rows_registry_def
          row_entry_def sample_rows_def)
  next
    case False
    have "fst ` set (hprops (table_hobj (Suc 0) sample_rows)) = set sample_labels"
      by (metis keys_table_hobj list.set_map sample_labels_rows)
    with False have "map_of (hprops (table_hobj (Suc 0) sample_rows)) l = None"
      by (simp add: map_of_eq_None_iff)
    then have own: "h_has_own (sample_code_written s) 1 l = Some False"
      unfolding sample_code_written_objects by (simp add: h_has_own_def obj_at_def)
    have "fst ` set (rows_registry sample_rows) = set sample_labels"
      by (metis list.set_map map_fst_rows_registry sample_labels_rows)
    with False have "reg_get (rows_registry sample_rows) l = None"
      by (simp add: reg_get_def map_of_eq_None_iff)
    moreover have "l \<noteq> ''Rust''"
      using False by (auto simp: sample_labels_def)
    ultimately show ?thesis
      using own by (simp add: h_lookup_def)
  qed
  then show ?thesis
    using sample_write_code by simp
qed

end
