(* ===== verification/Spec2Isabelle.thy ===== *)
theory Spec2Isabelle
  imports SampleIntegrity
begin

text \<open>
  \<^bold>\<open>Verification of the sample-code table of prism-react-renderer's demo.\<close>

  \<^emph>\<open>The program.\<close>  \<open>src/packages/demo/src/sample-code.ts\<close> is one module
  that exports one constant, \<open>sampleCode\<close>: an object literal whose four
  computed properties \<open>["TypeScript with React"]\<close>, \<open>["JavaScript"]\<close>,
  \<open>["Objective-C"]\<close> and \<open>["Rust"]\<close> each hold an object literal with a
  \<open>language\<close> string (\<open>tsx\<close>, \<open>javascript\<close>, \<open>objectivec\<close>, \<open>rust\<close>) and
  a \<open>code\<close> template literal spanning many lines.  The demo application reads
  it by label and enumerates it for a menu; the spec (\<open>spec.md\<close>) describes
  it as an immutable registry with \<open>get(label)\<close> and \<open>entries()\<close>.  There is
  no other code: the behaviour of the table is the ECMAScript semantics of
  the literal it is written as, so the development models that semantics as
  far as the literal and its readers use it, and states the properties of
  the table on top of it.  Every claim is about the module's own table.

  \<^emph>\<open>Theories, in import order.\<close>  The first five are the semantics the
  table is evaluated in; they hold no claim of their own.
  \<^item> \<open>Prelude\<close>: the label type, the joining of source lines into one string
    (\<open>join_lines\<close>), printable-text predicates, and lemmas on association
    lists updated in place (\<open>AList.update\<close>) shared by the object model.
  \<^item> \<open>ArrayIndex\<close>: which string keys are array indices (ECMAScript 6.1.7),
    with \<open>ToUint32\<close> as \<open>32 word\<close> arithmetic, and the decimal printing and
    parsing of numbers.  Array-index keys are enumerated first, so this
    decides that the table's keys are enumerated in declaration order.
  \<^item> \<open>TemplateLiteral\<close>: the string value of a substitution-free template
    literal (\<open>template_tv\<close>): escape sequences, line continuations, CR and
    CR LF normalised to LF, and the bodies that are rejected.  A scanner that
    consumes its input; its termination is the measure \<open>length\<close>.
  \<^item> \<open>JsObject\<close>: values (\<open>jsval\<close>), ordinary objects (\<open>jsobj\<close>: own
    properties in creation order and a prototype), \<open>Object.prototype\<close>,
    CreateDataPropertyOrThrow (\<open>create_data_property\<close>), Get along the
    prototype chain (\<open>obj_get\<close>, \<open>js_get\<close> for \<open>obj[k]\<close>),
    \<open>Object.hasOwn\<close> (\<open>has_own\<close>), OrdinaryOwnPropertyKeys (\<open>own_keys\<close>)
    and \<open>Object.keys\<close>.
  \<^item> \<open>ObjectLiteral\<close>: the expressions the module is written in (\<open>expr\<close>:
    string, template and object literals with computed \<open>[k]:\<close> or identifier
    \<open>name:\<close> properties) and their evaluation (\<open>eval_expr\<close>,
    \<open>eval_props\<close>), left to right, with the \<open>__proto__\<close> rules of
    ECMAScript B.3.1; errors are values of \<open>js_error\<close>.
  \<^item> \<open>Registry\<close>: the spec's contract (a registry as an association list,
    \<open>reg_get\<close>, \<open>build_registry\<close>) and its implementation by a table literal
    of the source's shape (\<open>table_literal\<close> of rows), with the demo's reads
    modelled from the spec (\<open>registry_of\<close>: \<open>Object.keys\<close> and each entry's
    \<open>language\<close> and \<open>code\<close>; \<open>js_lookup\<close>: lookup guarded by
    \<open>Object.hasOwn\<close>).  Claim C2: a table literal of this shape refines the
    contract; its witness is the source table.
  \<^item> \<open>SampleCode\<close>: the module itself.  \<open>tsx_lines\<close>, \<open>javascript_lines\<close>,
    \<open>objectivec_lines\<close>, \<open>rust_lines\<close> are the source lines of the four
    template bodies, copied verbatim with their trailing spaces;
    \<open>tsx_body\<close> and the others join them; \<open>sampleCode_expr\<close> is the literal
    as written and \<open>sampleCode\<close> its value.  Claims C1, C3 to C6: the module
    evaluates to exactly the declared registry, lookups by label (spec
    scenarios 1 to 3), the shape of every entry and the whitespace of every
    code.
  \<^item> \<open>Store\<close>, \<open>StoreWf\<close>, \<open>StoreLiteral\<close>, \<open>StoreRefine\<close>: the same
    semantics on an explicit store, where objects are shared by reference as
    they are in the running program.  \<open>store\<close> is a list of \<open>hobj\<close> records
    (own properties with their attributes, the prototype, the extensible
    flag); \<open>init_store\<close> holds \<open>Object.prototype\<close> at reference 0.  The
    operations are allocation, CreateDataProperty, Get, OrdinarySet with the
    \<open>__proto__\<close> setter, SetPrototypeOf with its cycle check, strict-mode
    assignment (\<open>h_assign\<close>: a refused write throws \<open>TypeError\<close>) and
    \<open>Object.keys\<close>; the walks along a prototype chain are
    \<open>partial_function (option)\<close>.  \<open>StoreWf\<close> holds the invariant
    \<open>store_wf\<close> (references in range, keys distinct, acyclic prototypes)
    and that the walks return on it; \<open>StoreLiteral\<close> evaluates literals on
    the store; \<open>StoreRefine\<close> reads a store value back as a tree value
    (\<open>deref\<close>, with fuel) and proves that literal evaluation and Get on
    the store give what the tree model gives.
  \<^item> \<open>StoreIntegrity\<close>, \<open>StoreReach\<close>: \<open>Object.hasOwn\<close>, \<open>delete\<close>,
    \<open>Object.freeze\<close> and \<open>Object.isFrozen\<close> on the store, and the
    operations an importer of the table can apply (\<open>store_op\<close>,
    \<open>exec_op\<close>), in sequence (\<open>exec_ops\<close>) and as reachable stores
    (\<open>reachable_from\<close>), with the invariant carried by rule induction.
  \<^item> \<open>SampleStore\<close>: the module run in the store: \<open>sample_store\<close> holds
    the table at reference 1 (\<open>table_hobj\<close>) and its four entries
    (\<open>entry_hobj\<close>) after it, in declaration order (\<open>table_store\<close>),
    proved equal to evaluating the literal (\<open>sample_module_eval\<close>).
    Claims C7 to C9: the module's store reads back as \<open>sampleCode\<close>; an
    entry's code can be overwritten and a new label added by any importer,
    which the spec's immutable registry excludes.
  \<^item> \<open>StoreRegistry\<close>: the demo's reads on the store, modelled from the
    spec because the demo is not in the sources: \<open>get(label)\<close>
    (\<open>h_lookup\<close>, with the entry read by \<open>h_entry_of\<close>) and \<open>entries()\<close>
    (\<open>h_registry\<close>), with the lemmas that they read what \<open>js_lookup\<close> and
    \<open>registry_of\<close> read on the tree value.
  \<^item> \<open>SampleIntegrity\<close>: the registry on the module's store.  Claims C10
    to C12: \<open>entries()\<close> and \<open>get\<close> give the declared registry;
    \<open>delete sampleCode["Rust"]\<close> removes an entry; a write to the Rust
    entry changes the lookup of that label and of no other.

  \<^emph>\<open>How the proofs are organised.\<close>  The concrete module is never evaluated
  character by character as a whole: a table literal is evaluated once in
  general (\<open>Registry\<close>, \<open>SampleStore\<close>), and for the module only its side
  conditions are checked, line by line (each body line free of backslash,
  backtick, dollar and CR; each label distinct and not an array index).
  Every theorem with a hypothesis has a witness at a concrete input; the
  witness of C2 is the source table itself.

  \<^emph>\<open>Not modelled.\<close>  The rendering component and syntax highlighter that
  consume the table (not in the repository's sources); the meaning of the
  four snippets, which are display text in other languages; symbols as
  property keys; \<open>\u\<close> escapes and the line terminators LS and PS in
  templates, whose code units do not fit \<open>char\<close>; TypeScript's static
  typing of the literal, so the claims about writes to the table describe
  its run-time behaviour; in the store model, \<open>Object.defineProperty\<close>,
  \<open>Object.preventExtensions\<close> and \<open>Object.seal\<close> as operations of
  their own, getters and setters other than \<open>__proto__\<close>, and functions
  (built-in methods are opaque values).  An operation that throws leaves
  the store unchanged, as every throwing operation modelled here does before
  it writes.  Fuel is used only by \<open>deref\<close>, which reads the store back
  for the refinement; it is monotone, and the refinement lemmas state that
  some fuel suffices.  Every other function terminates structurally, by the
  \<open>length\<close> measure, or is a \<open>partial_function (option)\<close> proved to
  return on every well-formed store.
\<close>

end
